(* ===== verification/Prelude.thy ===== *)
theory Prelude
  imports Main "HOL-Library.Word"
begin

text \<open>
  Shared vocabulary of the development: the C integer types as machine words, the
  lemma collections the component theories extend, and the generic facts on words,
  lists and bounded counting loops that more than one component uses.
\<close>

unbundle bit_operations_syntax

subsection \<open>C integer types\<close>

type_synonym u8 = "8 word"
type_synonym u16 = "16 word"
type_synonym u32 = "32 word"
type_synonym u64 = "64 word"

subsection \<open>Collections extended by the components\<close>

named_theorems mem_simps \<open>reads over writes of the flat memory\<close>
named_theorems frame_simps \<open>fields an operation leaves alone\<close>
named_theorems inv_intros \<open>preservation of component invariants\<close>

subsection \<open>Counting with words\<close>

lemma word_less_unat_mono: "i < n \<Longrightarrow> unat i < unat (n :: 'a::len word)"
  by (simp add: word_less_nat_alt)

lemma unat_Suc_less:
  fixes i n :: "'a::len word"
  assumes "i < n"
  shows "unat (i + 1) = Suc (unat i)"
proof -
  have "Suc (unat i) < 2 ^ LENGTH('a)"
    using word_less_unat_mono [OF assms] unsigned_less [of n, where 'a=nat] by linarith
  then show ?thesis
    by (simp add: unat_word_ariths(1))
qed

lemma unat_diff_Suc_less:
  fixes i n :: "'a::len word"
  assumes "i < n"
  shows "unat n - unat (i + 1) < unat n - unat i"
  using assms by (simp add: unat_Suc_less word_less_unat_mono diff_less_mono2)

lemma word_Suc_le_of_less:
  fixes i n :: "'a::len word"
  assumes "i < n"
  shows "i + 1 \<le> n"
  using assms by (simp add: word_le_nat_alt unat_Suc_less Suc_le_eq word_less_unat_mono)

lemma word_le_less_Suc_iff:
  fixes i j n :: "'a::len word"
  assumes "i < n"
  shows "i + 1 \<le> j \<longleftrightarrow> i < j"
  using assms by (simp add: word_le_nat_alt word_less_nat_alt unat_Suc_less Suc_le_eq)

lemma word_less_Suc_iff:
  fixes i j n :: "'a::len word"
  assumes "i < n"
  shows "j < i + 1 \<longleftrightarrow> j < i \<or> j = i"
  using unat_Suc_less [OF assms]
  by (auto simp: word_less_nat_alt less_Suc_eq intro: unsigned_word_eqI)

lemma word_le_eq_or_Suc_le:
  fixes i j :: "'a::len word"
  assumes "i \<le> j"
  shows "i = j \<or> i + 1 \<le> j"
  using assms by (metis order_le_less word_Suc_le_of_less)

lemma word_unat_eqI: "unat a = unat b \<Longrightarrow> a = (b :: 'a::len word)"
  by (rule unsigned_word_eqI)

lemma unat_ucast_up:
  fixes w :: "'a::len word"
  assumes "LENGTH('a) \<le> LENGTH('b::len)"
  shows "unat (ucast w :: 'b word) = unat w"
proof -
  have "unat w < 2 ^ LENGTH('b)"
    by (rule order.strict_trans2 [OF unsigned_less]) (simp add: assms)
  then show ?thesis by (simp add: unsigned_ucast_eq take_bit_nat_eq_self)
qed

lemma unat_add_small:
  fixes a b :: "'a::len word"
  shows "unat a + unat b < 2 ^ LENGTH('a) \<Longrightarrow> unat (a + b) = unat a + unat b"
  by (simp add: unat_word_ariths(1))

lemma unat_sub_small:
  fixes a b :: "'a::len word"
  shows "b \<le> a \<Longrightarrow> unat (a - b) = unat a - unat b"
  by (simp add: unat_sub_if' word_le_nat_alt)

lemma sint_nonneg_unat:
  fixes w :: "'a::len word"
  assumes "0 \<le> sint w"
  shows "sint w = int (unat w)"
proof -
  have "sint w < 2 ^ LENGTH('a)"
    by (rule order.strict_trans2 [OF sint_lt]) simp
  then have "uint w = sint w"
    using assms by (simp add: uint_sint take_bit_int_eq_self)
  then show ?thesis by simp
qed

text \<open>The low-bit masks of the sources, in the form the bit lemmas know.\<close>

lemma mask_consts:
  "(0x0F :: 'a::len word) = mask 4" "(0xFF :: 'a word) = mask 8"
  "(0xFFFF :: 'a word) = mask 16" "(0xFFFFF :: 'a word) = mask 20"
  by (simp_all add: mask_eq_exp_minus_1)

lemma high_nibble: "(0xF0 :: u8) = NOT (mask 4)"
  by (simp add: mask_eq_exp_minus_1)

lemma and_not_mask_push: "w AND NOT (mask n) = push_bit n (drop_bit n (w :: 'a::len word))"
  by (rule bit_word_eqI) (auto simp: bit_simps)

lemma unat_and_not_mask:
  fixes w :: "'a::len word"
  shows "unat (w AND NOT (mask n)) = unat w div 2 ^ n * 2 ^ n"
proof -
  have "unat w div 2 ^ n * 2 ^ n \<le> unat w" by simp
  then have "unat w div 2 ^ n * 2 ^ n < 2 ^ LENGTH('a)"
    using unsigned_less [of w, where 'a = nat] by (rule order.strict_trans1)
  moreover have "unat (drop_bit n w) = unat w div 2 ^ n"
    using unsigned_less [of w, where 'a = nat]
    by (simp add: unsigned_drop_bit_eq take_bit_nat_eq_self drop_bit_eq_div [where 'a = nat])
  ultimately show ?thesis
    by (simp add: and_not_mask_push unsigned_push_bit_eq push_bit_eq_mult [where 'a = nat]
        take_bit_nat_eq_self)
qed

text \<open>A word below a small bound is one of a list of constants.\<close>

lemma word_below:
  fixes b :: "'a::len word"
  assumes "unat b < n"
  shows "b \<in> of_nat ` {0..<n}"
proof (rule image_eqI)
  show "b = of_nat (unat b)" by simp
qed (use assms in simp)

subsection \<open>The C counting loop\<close>

text \<open>
  \<open>for (uint32_t i = a; i < n && g; i++) body\<close>: the guard may read the state, the body
  updates it.  The word counter cannot wrap, since the loop is left at \<open>n\<close>.
\<close>

function for_lt :: "u32 \<Rightarrow> u32 \<Rightarrow> (u32 \<Rightarrow> 's \<Rightarrow> bool) \<Rightarrow> (u32 \<Rightarrow> 's \<Rightarrow> 's) \<Rightarrow> 's \<Rightarrow> 's" where
  "for_lt i n g body s =
     (if i < n \<and> g i s then for_lt (i + 1) n g body (body i s) else s)"
  by pat_completeness auto
termination
  by (relation "measure (\<lambda>(i, n, _). unat n - unat i)") (auto intro: unat_diff_Suc_less)

declare for_lt.simps [simp del]

lemma for_lt_stop [simp]: "\<not> (i < n \<and> g i s) \<Longrightarrow> for_lt i n g body s = s"
  by (subst for_lt.simps) auto

lemma for_lt_step: "i < n \<Longrightarrow> g i s \<Longrightarrow> for_lt i n g body s = for_lt (i + 1) n g body (body i s)"
  by (subst for_lt.simps) auto

text \<open>The loop rule: an invariant indexed by the counter, kept by every turn of the body.\<close>

lemma for_lt_rule:
  assumes "i \<le> n" and "P i s"
    and "\<And>j t. i \<le> j \<Longrightarrow> j < n \<Longrightarrow> g j t \<Longrightarrow> P j t \<Longrightarrow> P (j + 1) (body j t)"
  shows "\<exists>j. i \<le> j \<and> j \<le> n \<and> P j (for_lt i n g body s)
           \<and> (j < n \<longrightarrow> \<not> g j (for_lt i n g body s))"
  using assms
proof (induction i n g body s rule: for_lt.induct)
  case (1 i n g body s)
  show ?case
  proof (cases "i < n \<and> g i s")
    case True
    have "\<exists>j. i + 1 \<le> j \<and> j \<le> n \<and> P j (for_lt (i + 1) n g body (body i s))
            \<and> (j < n \<longrightarrow> \<not> g j (for_lt (i + 1) n g body (body i s)))"
    proof (rule "1.IH" [OF True])
      show "i + 1 \<le> n" using True by (simp add: word_Suc_le_of_less)
      show "P (i + 1) (body i s)" using True "1.prems" by auto
      show "\<And>j t. i + 1 \<le> j \<Longrightarrow> j < n \<Longrightarrow> g j t \<Longrightarrow> P j t \<Longrightarrow> P (j + 1) (body j t)"
        using True "1.prems"(3) word_le_less_Suc_iff by (metis order_less_imp_le)
    qed
    then show ?thesis
      using True word_le_less_Suc_iff by (metis for_lt_step order_less_imp_le)
  next
    case False
    with "1.prems" show ?thesis by (intro exI [of _ i]) auto
  qed
qed

text \<open>Two runs of a loop from related states end in related states.\<close>

lemma for_lt_related:
  assumes "R s t" and "\<And>j s t. R s t \<Longrightarrow> g j s = h j t" and "\<And>j s t. R s t \<Longrightarrow> R (f j s) (f' j t)"
  shows "R (for_lt i n g f s) (for_lt i n h f' t)"
  using assms
proof (induction i n g f s arbitrary: t rule: for_lt.induct)
  case (1 i n g f s)
  show ?case
  proof (cases "i < n \<and> g i s")
    case True
    then have "h i t" using "1.prems" by blast
    moreover have "R (for_lt (i + 1) n g f (f i s)) (for_lt (i + 1) n h f' (f' i t))"
      using "1.IH" [OF True] "1.prems" by blast
    ultimately show ?thesis using True by (simp add: for_lt_step)
  next
    case False
    then have "\<not> (i < n \<and> h i t)" using "1.prems" by blast
    then show ?thesis using False "1.prems"(1) by simp
  qed
qed

lemma for_lt_all:
  assumes "i \<le> n" and "P i s"
    and "\<And>j t. i \<le> j \<Longrightarrow> j < n \<Longrightarrow> P j t \<Longrightarrow> P (j + 1) (body j t)"
  shows "P n (for_lt i n (\<lambda>_ _. True) body s)"
  using for_lt_rule [of i n P s "\<lambda>_ _. True" body] assms by (metis order_le_less)

lemma for_lt_invariant:
  assumes "P s" and "\<And>j t. i \<le> j \<Longrightarrow> j < n \<Longrightarrow> g j t \<Longrightarrow> P t \<Longrightarrow> P (body j t)"
  shows "P (for_lt i n g body s)"
proof (cases "i \<le> n")
  case True
  show ?thesis
    using for_lt_rule [of i n "\<lambda>_. P" s g body] True assms by blast
next
  case False
  then have "\<not> (i < n \<and> g i s)" by auto
  then show ?thesis using assms(1) by (subst for_lt.simps) (simp only: if_False)
qed

end
