(* ===== verification/Machine.thy ===== *)
theory Machine
  imports Prelude
begin

text \<open>
  The machine every kernel component runs on.  Physical memory is one flat store of
  aligned 32-bit words, addressed by byte address; the C code dereferences physical
  addresses, counting on an identity mapping (which boot.asm removes again: see the findings),
  so a pointer is a physical address.  Port
  output is a log, port input an arbitrary device: the \<open>n\<close>-th read of port \<open>p\<close> gives
  \<open>port_in s p n\<close>.  Diagnostics the components print through \<open>vga_puts\<close>,
  \<open>vga_putint\<close> and \<open>vga_puthex\<close> are recorded in order in \<open>klog\<close>.
\<close>

datatype diag = Puts string | Put_int u32 | Put_hex u32

record machine =
  mem :: "u32 \<Rightarrow> u32"
  klog :: "diag list"
  port_out :: "(u16 \<times> u8) list"
  port_in :: "u16 \<Rightarrow> nat \<Rightarrow> u8"
  port_reads :: "u16 \<Rightarrow> nat"

subsection \<open>Diagnostics and port input/output (arch/x86/io.h)\<close>

definition kprint :: "diag \<Rightarrow> 'a machine_scheme \<Rightarrow> 'a machine_scheme" where
  "kprint d s = s\<lparr>klog := klog s @ [d]\<rparr>"

definition outb :: "u16 \<Rightarrow> u8 \<Rightarrow> 'a machine_scheme \<Rightarrow> 'a machine_scheme" where
  "outb port v s = s\<lparr>port_out := port_out s @ [(port, v)]\<rparr>"

definition inb :: "u16 \<Rightarrow> 'a machine_scheme \<Rightarrow> u8 \<times> 'a machine_scheme" where
  "inb port s =
     (port_in s port (port_reads s port),
      s\<lparr>port_reads := (port_reads s)(port := Suc (port_reads s port))\<rparr>)"

definition io_wait :: "'a machine_scheme \<Rightarrow> 'a machine_scheme" where
  "io_wait s = outb 0x80 0 s"

subsection \<open>The flat memory\<close>

definition rd32 :: "u32 \<Rightarrow> 'a machine_scheme \<Rightarrow> u32" where
  "rd32 a s = mem s a"

definition wr32 :: "u32 \<Rightarrow> u32 \<Rightarrow> 'a machine_scheme \<Rightarrow> 'a machine_scheme" where
  "wr32 a v s = s\<lparr>mem := (mem s)(a := v)\<rparr>"

text \<open>A packed little-endian 64-bit field at a word-aligned address.\<close>

definition rd64 :: "u32 \<Rightarrow> 'a machine_scheme \<Rightarrow> u64" where
  "rd64 a s = ucast (rd32 a s) OR push_bit 32 (ucast (rd32 (a + 4) s))"

definition newline :: string where
  "newline = [CHR 0x0A]"

text \<open>
  \<open>memset(p, 0, n)\<close> on a word-aligned \<open>p\<close>: whole words become zero, and of a last partial
  word only the low bytes (the machine is little-endian).
\<close>

definition memset0 :: "u32 \<Rightarrow> u32 \<Rightarrow> 'a machine_scheme \<Rightarrow> 'a machine_scheme" where
  "memset0 p n s = s\<lparr>mem := (\<lambda>a.
     let off = unat (a - p) in
     if off + 4 \<le> unat n then 0
     else if off < unat n then mem s a AND NOT (mask (8 * (unat n - off)))
     else mem s a)\<rparr>"

text \<open>\<open>memcpy\<close> of \<open>n\<close> bytes to \<open>p\<close>, the words of the source given by \<open>src\<close> (by offset).\<close>

definition memcpy_from :: "u32 \<Rightarrow> (u32 \<Rightarrow> u32) \<Rightarrow> u32 \<Rightarrow> 'a machine_scheme \<Rightarrow> 'a machine_scheme" where
  "memcpy_from p src n s = s\<lparr>mem := (\<lambda>a. if unat (a - p) < unat n then src (a - p) else mem s a)\<rparr>"

lemma rd32_wr32 [mem_simps]: "rd32 a (wr32 b v s) = (if a = b then v else rd32 a s)"
  by (simp add: rd32_def wr32_def)

lemma mem_kprint [simp]: "mem (kprint d s) = mem s"
  by (simp add: kprint_def)

lemma rd32_kprint [simp]: "rd32 a (kprint d s) = rd32 a s"
  by (simp add: rd32_def kprint_def)

subsection \<open>Bytes\<close>

text \<open>Bytes of the word memory, and \<open>strcpy\<close> with the terminating zero.\<close>

definition put_byte :: "u32 \<Rightarrow> u8 \<Rightarrow> 'a machine_scheme \<Rightarrow> 'a machine_scheme" where
  "put_byte a b s =
     (let w = a AND NOT 3; k = 8 * unat (a AND 3) in
      wr32 w ((rd32 w s AND NOT (push_bit k 0xFF)) OR push_bit k (ucast b)) s)"

definition get_byte :: "u32 \<Rightarrow> 'a machine_scheme \<Rightarrow> u8" where
  "get_byte a s = ucast (drop_bit (8 * unat (a AND 3)) (rd32 (a AND NOT 3) s))"

fun strcpy :: "u32 \<Rightarrow> u8 list \<Rightarrow> 'a machine_scheme \<Rightarrow> 'a machine_scheme" where
  "strcpy dst [] s = put_byte dst 0 s"
| "strcpy dst (c # rest) s = strcpy (dst + 1) rest (put_byte dst c s)"

subsection \<open>Pages and their 1024 word slots\<close>

definition page_aligned :: "u32 \<Rightarrow> bool" where
  "page_aligned p \<longleftrightarrow> unat p mod 4096 = 0"

definition page_base :: "u32 \<Rightarrow> u32" where
  "page_base a = a AND NOT 0xFFF"

lemma page_mask: "(0xFFF :: u32) = mask 12"
  by (simp add: mask_eq_exp_minus_1)

lemma page_base_drop_push: "page_base a = push_bit 12 (drop_bit 12 a)"
  by (rule bit_word_eqI) (auto simp: page_base_def page_mask bit_simps)

lemma unat_page_base: "unat (page_base a) = unat a div 4096 * 4096"
proof -
  have "unat a div 4096 * 4096 \<le> unat a" by simp
  then have "unat a div 4096 * 4096 < 2 ^ 32"
    using unsigned_less [of a, where 'a = nat] by (simp add: order.strict_trans1)
  then show ?thesis
    by (simp add: page_base_drop_push push_bit_eq_mult drop_bit_eq_div
        unat_word_ariths(2) unat_div)
qed

lemma page_offset_and: "unat (a AND 0xFFF :: u32) = unat a mod 4096"
  by (simp add: page_mask take_bit_eq_mod unat_mod flip: take_bit_eq_mask)

lemma page_aligned_base [simp]: "page_aligned (page_base a)"
  by (simp add: page_aligned_def unat_page_base)

lemma page_alignedE:
  assumes "page_aligned p"
  obtains k where "unat p = 4096 * k" and "k < 1048576"
proof -
  from assms obtain k where k: "unat p = 4096 * k"
    unfolding page_aligned_def by (metis mod_0_imp_dvd dvdE)
  moreover have "k < 1048576"
    using k unsigned_less [of p, where 'a = nat] by simp
  ultimately show thesis by (rule that)
qed

lemma page_base_aligned [simp]:
  assumes "page_aligned p"
  shows "page_base p = p"
proof -
  obtain k where "unat p = 4096 * k" using page_alignedE [OF assms] .
  then have "unat (page_base p) = unat p" by (simp add: unat_page_base)
  then show ?thesis by (rule unsigned_word_eqI)
qed

lemma unat_page_slot:
  assumes "page_aligned p" and "off < 4096"
  shows "unat (p + of_nat off) = unat p + off"
proof -
  obtain k where "unat p = 4096 * k" "k < 1048576" using page_alignedE [OF assms(1)] .
  then have "unat p + off < 2 ^ 32" using assms(2) by simp
  moreover have "unat (of_nat off :: u32) = off"
    using assms(2) by (simp add: unat_of_nat)
  ultimately show ?thesis
    by (simp add: unat_word_ariths(1))
qed

lemma page_base_offset:
  assumes "page_aligned p" and "off < 4096"
  shows "page_base (p + of_nat off) = p"
proof -
  obtain k where k: "unat p = 4096 * k" using page_alignedE [OF assms(1)] .
  have "(4096 * k + off) div 4096 = k" using assms(2) by simp
  then have "unat (page_base (p + of_nat off)) = unat p"
    by (simp only: unat_page_base unat_page_slot [OF assms] k mult.commute)
  then show ?thesis by (rule unsigned_word_eqI)
qed

text \<open>The address of word \<open>i\<close> of the page at \<open>p\<close>.\<close>

definition slot :: "u32 \<Rightarrow> u32 \<Rightarrow> u32" where
  "slot p i = p + 4 * i"

lemma slot_of_nat: "slot p i = p + of_nat (4 * unat i)"
  by (simp add: slot_def)

lemma unat_1024: "(i :: u32) < 1024 \<Longrightarrow> 4 * unat i < 4096"
  by (simp add: word_less_nat_alt)

lemma unat_4_mult: "(i :: u32) < 1024 \<Longrightarrow> unat (4 * i) = 4 * unat i"
  by (simp add: word_less_nat_alt unat_word_ariths(2))

lemma unat_slot:
  "page_aligned p \<Longrightarrow> i < 1024 \<Longrightarrow> unat (slot p i) = unat p + 4 * unat i"
  unfolding slot_of_nat by (rule unat_page_slot) (simp_all add: word_less_nat_alt)

lemma page_base_slot [simp]: "page_aligned p \<Longrightarrow> i < 1024 \<Longrightarrow> page_base (slot p i) = p"
  unfolding slot_of_nat by (rule page_base_offset) (simp_all add: word_less_nat_alt)

lemma slot_inj:
  assumes "page_aligned p" "page_aligned q" "i < 1024" "j < 1024"
  shows "slot p i = slot q j \<longleftrightarrow> p = q \<and> i = j"
proof
  assume eq: "slot p i = slot q j"
  then have pq: "p = q" using page_base_slot [OF assms(1,3)] page_base_slot [OF assms(2,4)] by simp
  have "unat p + 4 * unat i = unat q + 4 * unat j"
    using eq unat_slot [OF assms(1,3)] unat_slot [OF assms(2,4)] by metis
  with pq have "unat i = unat j" by simp
  then have "i = j" by (rule unsigned_word_eqI)
  with pq show "p = q \<and> i = j" ..
qed simp

lemma page_dist:
  assumes "page_aligned p" "page_aligned q" "i < 1024"
  shows "unat (slot q i - p) < 4096 \<longleftrightarrow> q = p"
proof
  let ?d = "unat (slot q i - p)"
  assume d: "?d < 4096"
  have "slot q i = p + of_nat ?d" by simp
  then have "page_base (slot q i) = p"
    using page_base_offset [OF assms(1) d] by metis
  with page_base_slot [OF assms(2,3)] show "q = p" by simp
next
  assume "q = p"
  then show "unat (slot q i - p) < 4096"
    using unat_1024 [OF assms(3)] unat_4_mult [OF assms(3)] by (simp add: slot_def)
qed

lemma memset0_page_slot [mem_simps]:
  assumes "page_aligned p" "page_aligned q" "i < 1024"
  shows "rd32 (slot q i) (memset0 p 4096 s) = (if q = p then 0 else rd32 (slot q i) s)"
proof (cases "q = p")
  case True
  have "unat (slot q i - p) = 4 * unat i"
    using unat_4_mult [OF assms(3)] True by (simp add: slot_def)
  then show ?thesis
    using unat_1024 [OF assms(3)] True by (simp add: rd32_def memset0_def)
next
  case False
  then show ?thesis
    using page_dist [OF assms] by (simp add: rd32_def memset0_def)
qed

end
