(* ===== verification/Page_Allocator.thy ===== *)
theory Page_Allocator
  imports Machine
begin

text \<open>
  What the clients of the physical memory manager (virtual memory, processes, packets)
  rely on, as interfaces: \<open>page_allocator\<close> hands out page addresses nobody owns and takes
  owned ones back; \<open>page_store\<close> adds that neither operation touches the contents of a
  managed page; \<open>page_memory\<close> adds the client's own stores into pages it owns, which leave
  the allocator's data alone.  The lemmas the clients share are proved here once; Pmm and
  Page_Memory interpret the locales on the bitmap allocator.
\<close>

locale page_allocator =
  fixes alloc :: "'s \<Rightarrow> u32 \<times> 's"
    and free :: "u32 \<Rightarrow> 's \<Rightarrow> 's"
    and owned :: "'s \<Rightarrow> u32 set"
    and inv :: "'s \<Rightarrow> bool"
  assumes alloc_null: "inv s \<Longrightarrow> alloc s = (0, t) \<Longrightarrow> t = s"
    and alloc_page: "inv s \<Longrightarrow> alloc s = (p, t) \<Longrightarrow> p \<noteq> 0 \<Longrightarrow>
          page_aligned p \<and> p \<notin> owned s \<and> owned t = insert p (owned s)"
    and alloc_inv: "inv s \<Longrightarrow> alloc s = (p, t) \<Longrightarrow> inv t"
    and free_owned: "inv s \<Longrightarrow> p \<in> owned s \<Longrightarrow> owned (free p s) = owned s - {p}"
    and free_inv: "inv s \<Longrightarrow> p \<in> owned s \<Longrightarrow> inv (free p s)"
    and owned_page: "inv s \<Longrightarrow> p \<in> owned s \<Longrightarrow> p \<noteq> 0 \<and> page_aligned p"
begin

lemma alloc_owned_mono: "inv s \<Longrightarrow> alloc s = (p, t) \<Longrightarrow> owned s \<subseteq> owned t"
  using alloc_null alloc_page by (cases "p = 0") auto

lemma alloc_free:
  assumes "inv s" "alloc s = (p, t)" "p \<noteq> 0"
  shows "owned (free p t) = owned s \<and> inv (free p t)"
  using assms alloc_page alloc_inv free_owned free_inv by fastforce

text \<open>A list of distinct owned pages can be released page by page.\<close>

lemma free_list:
  assumes "inv s" "distinct ps" "set ps \<subseteq> owned s"
  shows "inv (fold free ps s) \<and> owned (fold free ps s) = owned s - set ps"
  using assms
proof (induction ps arbitrary: s)
  case (Cons p ps)
  have "inv (free p s)" "owned (free p s) = owned s - {p}"
    using Cons.prems free_inv free_owned by auto
  moreover have "set ps \<subseteq> owned (free p s)" using Cons.prems calculation by auto
  ultimately show ?case using Cons.IH [of "free p s"] Cons.prems by auto
qed simp

text \<open>Several allocations in a row give distinct fresh pages.\<close>

fun alloc_many :: "nat \<Rightarrow> 's \<Rightarrow> u32 list \<times> 's" where
  "alloc_many 0 s = ([], s)"
| "alloc_many (Suc n) s =
     (case alloc s of (p, t) \<Rightarrow>
        if p = 0 then ([], t) else (case alloc_many n t of (ps, u) \<Rightarrow> (p # ps, u)))"

lemma alloc_many_fresh:
  assumes "inv s" "alloc_many n s = (ps, t)"
  shows "inv t \<and> distinct ps \<and> set ps \<inter> owned s = {} \<and> owned t = owned s \<union> set ps"
  using assms
proof (induction n arbitrary: s ps t)
  case (Suc n)
  obtain p u where pu: "alloc s = (p, u)" by fastforce
  note u = alloc_inv [OF Suc.prems(1) pu]
  show ?case
  proof (cases "p = 0")
    case True
    then show ?thesis using Suc.prems pu alloc_null u by auto
  next
    case False
    obtain qs v where qs: "alloc_many n u = (qs, v)" by fastforce
    have "ps = p # qs" "t = v" using Suc.prems(2) pu False qs by auto
    then show ?thesis
      using Suc.IH [OF u qs] alloc_page [OF Suc.prems(1) pu False] by auto
  qed
qed simp

end

locale page_store = page_allocator alloc free owned inv
  for alloc :: "'s \<Rightarrow> u32 \<times> 's" and free :: "u32 \<Rightarrow> 's \<Rightarrow> 's"
    and owned :: "'s \<Rightarrow> u32 set" and inv :: "'s \<Rightarrow> bool" +
  fixes word_at :: "u32 \<Rightarrow> 's \<Rightarrow> u32"
    and managed :: "'s \<Rightarrow> u32 set"
  assumes alloc_word: "inv s \<Longrightarrow> alloc s = (p, t) \<Longrightarrow> q \<in> managed s \<Longrightarrow> i < 1024 \<Longrightarrow>
          word_at (slot q i) t = word_at (slot q i) s"
    and free_word: "inv s \<Longrightarrow> q \<in> managed s \<Longrightarrow> i < 1024 \<Longrightarrow>
          word_at (slot q i) (free p s) = word_at (slot q i) s"
    and owned_managed: "inv s \<Longrightarrow> owned s \<subseteq> managed s"
    and alloc_managed: "alloc s = (p, t) \<Longrightarrow> managed t = managed s"
    and free_managed: "managed (free p s) = managed s"
begin

lemma free_list_word:
  assumes "inv s" "distinct ps" "set ps \<subseteq> owned s" "q \<in> managed s" "i < 1024"
  shows "word_at (slot q i) (fold free ps s) = word_at (slot q i) s"
  using assms
proof (induction ps arbitrary: s)
  case (Cons p ps)
  have "inv (free p s)" "set ps \<subseteq> owned (free p s)" "q \<in> managed (free p s)"
    using Cons.prems free_inv free_owned free_managed by auto
  then show ?case using Cons.IH Cons.prems free_word by auto
qed simp

text \<open>A page handed out does not hold the words of a page owned before.\<close>

lemma alloc_word_owned:
  "inv s \<Longrightarrow> alloc s = (p, t) \<Longrightarrow> q \<in> owned s \<Longrightarrow> i < 1024 \<Longrightarrow>
   word_at (slot q i) t = word_at (slot q i) s"
  using alloc_word owned_managed by blast

end

locale page_memory = page_store alloc free owned inv word_at managed
  for alloc :: "'s \<Rightarrow> u32 \<times> 's" and free :: "u32 \<Rightarrow> 's \<Rightarrow> 's"
    and owned :: "'s \<Rightarrow> u32 set" and inv :: "'s \<Rightarrow> bool"
    and word_at :: "u32 \<Rightarrow> 's \<Rightarrow> u32" and managed :: "'s \<Rightarrow> u32 set" +
  fixes put :: "u32 \<Rightarrow> u32 \<Rightarrow> 's \<Rightarrow> 's"
    and clear :: "u32 \<Rightarrow> 's \<Rightarrow> 's"
    and copy :: "u32 \<Rightarrow> (u32 \<Rightarrow> u32) \<Rightarrow> 's \<Rightarrow> 's"
  assumes put_word: "word_at a (put b v s) = (if a = b then v else word_at a s)"
    and put_inv: "inv s \<Longrightarrow> q \<in> managed s \<Longrightarrow> i < 1024 \<Longrightarrow> inv (put (slot q i) v s)"
    and put_owned: "inv s \<Longrightarrow> q \<in> managed s \<Longrightarrow> i < 1024 \<Longrightarrow> owned (put (slot q i) v s) = owned s"
    and put_managed: "managed (put b v s) = managed s"
    and clear_word: "page_aligned p \<Longrightarrow> page_aligned q \<Longrightarrow> i < 1024 \<Longrightarrow>
          word_at (slot q i) (clear p s) = (if q = p then 0 else word_at (slot q i) s)"
    and clear_inv: "inv s \<Longrightarrow> p \<in> managed s \<Longrightarrow> inv (clear p s)"
    and clear_owned: "inv s \<Longrightarrow> p \<in> managed s \<Longrightarrow> owned (clear p s) = owned s"
    and clear_managed: "managed (clear p s) = managed s"
    and copy_word: "page_aligned p \<Longrightarrow> page_aligned q \<Longrightarrow> i < 1024 \<Longrightarrow>
          word_at (slot q i) (copy p f s) = (if q = p then f (4 * i) else word_at (slot q i) s)"
    and copy_inv: "inv s \<Longrightarrow> p \<in> managed s \<Longrightarrow> inv (copy p f s)"
    and copy_owned: "inv s \<Longrightarrow> p \<in> managed s \<Longrightarrow> owned (copy p f s) = owned s"
    and copy_managed: "managed (copy p f s) = managed s"
begin

lemma owned_aligned: "inv s \<Longrightarrow> p \<in> owned s \<Longrightarrow> page_aligned p"
  using owned_page by blast

text \<open>A page just allocated and cleared: zero, owned, and nothing owned before has changed.\<close>

lemma fresh_cleared:
  assumes "inv s" "alloc s = (p, t)" "p \<noteq> 0"
  shows "inv (clear p t)" "owned (clear p t) = insert p (owned s)"
    and "p \<notin> owned s" "page_aligned p"
    and "i < 1024 \<Longrightarrow> word_at (slot p i) (clear p t) = 0"
    and "q \<in> owned s \<Longrightarrow> i < 1024 \<Longrightarrow> word_at (slot q i) (clear p t) = word_at (slot q i) s"
proof -
  note a = alloc_page [OF assms] alloc_inv [OF assms(1,2)]
  have m: "p \<in> managed t" using a owned_managed by blast
  show "inv (clear p t)" "owned (clear p t) = insert p (owned s)" "p \<notin> owned s" "page_aligned p"
    using a clear_inv [OF _ m] clear_owned [OF _ m] by auto
  show "word_at (slot p i) (clear p t) = 0" if "i < 1024"
    using that a clear_word by simp
  show "word_at (slot q i) (clear p t) = word_at (slot q i) s" if "q \<in> owned s" "i < 1024"
    using that a clear_word [of p q i t] owned_aligned [OF assms(1)]
      alloc_word_owned [OF assms(1,2)] by auto
qed

lemma put_page:
  assumes "inv s" "p \<in> owned s" "i < 1024"
  shows "inv (put (slot p i) v s)" "owned (put (slot p i) v s) = owned s"
  using assms put_inv put_owned owned_managed by (metis subsetD)+

lemma put_page_word:
  assumes "inv s" "p \<in> owned s" "q \<in> owned s" "i < 1024" "j < 1024"
  shows "word_at (slot q j) (put (slot p i) v s)
       = (if q = p \<and> j = i then v else word_at (slot q j) s)"
  using assms slot_inj [of q p j i] owned_aligned by (auto simp: put_word)

end

end
