(* ===== verification/Isr.thy ===== *)
theory Isr
  imports Machine
begin

text \<open>
  Interrupt dispatch, arch/x86/isr.c, and the interrupt controller, arch/x86/pic.c.  The
  handler table is a list of 256 slots; a handler is the C function whose address is
  stored, and what calling it does is the argument \<open>call\<close> of the dispatch functions.
  An access past the table is the outcome \<open>Out_of_bounds\<close>, the \<open>cli; hlt\<close> loop is
  \<open>Halted\<close>.
\<close>

subsection \<open>State\<close>

datatype handler =
    Page_fault | Process_timer_tick | Keyboard_handler | Hal_timer_handler | Handler_at u32

record interrupts = machine +
  interrupt_handlers :: "handler option list"

record registers =
  ds :: u32
  edi :: u32
  esi :: u32
  ebp :: u32
  esp :: u32
  ebx :: u32
  edx :: u32
  ecx :: u32
  eax :: u32
  int_no :: u32
  err_code :: u32
  eip :: u32
  cs :: u32
  eflags :: u32
  useresp :: u32
  ss :: u32

datatype 's outcome = Returned 's | Halted 's | Out_of_bounds

subsection \<open>The handler table (isr.c)\<close>

definition IRQ0 :: u8 where "IRQ0 = 32"
definition IRQ1 :: u8 where "IRQ1 = 33"

definition exception_messages :: "string list" where
  "exception_messages =
     [''Division By Zero'', ''Debug'', ''Non Maskable Interrupt'', ''Breakpoint'',
      ''Into Detected Overflow'', ''Out of Bounds'', ''Invalid Opcode'', ''No Coprocessor'',
      ''Double Fault'', ''Coprocessor Segment Overrun'', ''Bad TSS'', ''Segment Not Present'',
      ''Stack Fault'', ''General Protection Fault'', ''Page Fault'', ''Unknown Interrupt'',
      ''Coprocessor Fault'', ''Alignment Check'', ''Machine Check'']
     @ replicate 13 ''Reserved''"

definition isr_init :: "'a interrupts_scheme \<Rightarrow> 'a interrupts_scheme" where
  "isr_init s = s\<lparr>interrupt_handlers := replicate 256 None\<rparr>"

definition isr_register_handler :: "u8 \<Rightarrow> handler \<Rightarrow> 'a interrupts_scheme \<Rightarrow> 'a interrupts_scheme" where
  "isr_register_handler n h s =
     s\<lparr>interrupt_handlers := (interrupt_handlers s)[unat n := Some h]\<rparr>"

definition irq_register_handler :: "u8 \<Rightarrow> handler \<Rightarrow> 'a interrupts_scheme \<Rightarrow> 'a interrupts_scheme" where
  "irq_register_handler n h s = isr_register_handler (n + 32) h s"

definition isr_handler ::
  "(handler \<Rightarrow> registers \<Rightarrow> 'a interrupts_scheme \<Rightarrow> 'a interrupts_scheme) \<Rightarrow> registers
    \<Rightarrow> 'a interrupts_scheme \<Rightarrow> 'a interrupts_scheme outcome"
where
  "isr_handler call regs s =
     (if int_no regs < 32
      then let s1 = kprint (Puts ''EXCEPTION: '') s;
               s2 = kprint (Puts (exception_messages ! unat (int_no regs))) s1;
               s3 = kprint (Puts '' ('') s2;
               s4 = kprint (Put_int (int_no regs)) s3;
               s5 = kprint (Puts ('')'' @ newline)) s4
           in Halted (kprint (Puts (''System halted.'' @ newline)) s5)
      else if int_no regs \<ge> 256 then Out_of_bounds
      else case interrupt_handlers s ! unat (int_no regs) of
             Some h \<Rightarrow> Returned (call h regs s)
           | None \<Rightarrow>
               let s1 = kprint (Puts ''Unhandled interrupt: '') s;
                   s2 = kprint (Put_int (int_no regs)) s1
               in Returned (kprint (Puts newline) s2))"

definition irq_handler ::
  "(handler \<Rightarrow> registers \<Rightarrow> 'a interrupts_scheme \<Rightarrow> 'a interrupts_scheme) \<Rightarrow> registers
    \<Rightarrow> 'a interrupts_scheme \<Rightarrow> 'a interrupts_scheme outcome"
where
  "irq_handler call regs s =
     (let s1 = (if int_no regs \<ge> 40 then outb 0xA0 0x20 s else s);
          s2 = outb 0x20 0x20 s1
      in if int_no regs \<ge> 256 then Out_of_bounds
         else case interrupt_handlers s2 ! unat (int_no regs) of
                Some h \<Rightarrow> Returned (call h regs s2)
              | None \<Rightarrow> Returned s2)"

subsection \<open>The interrupt controller (pic.c)\<close>

definition pic_get_register :: "u8 \<Rightarrow> 'a machine_scheme \<Rightarrow> u16 \<times> 'a machine_scheme" where
  "pic_get_register command s =
     (let s1 = outb 0x20 command s;
          s2 = outb 0xA0 command s1;
          (a, s3) = inb 0x20 s2;
          (b, s4) = inb 0xA0 s3
      in (push_bit 8 (ucast b) OR ucast a, s4))"

definition pic_get_irr :: "'a machine_scheme \<Rightarrow> u16 \<times> 'a machine_scheme" where
  "pic_get_irr = pic_get_register 0x0A"

definition pic_get_isr :: "'a machine_scheme \<Rightarrow> u16 \<times> 'a machine_scheme" where
  "pic_get_isr = pic_get_register 0x0B"

definition outb_wait :: "u16 \<Rightarrow> u8 \<Rightarrow> 'a machine_scheme \<Rightarrow> 'a machine_scheme" where
  "outb_wait port v s = io_wait (outb port v s)"

definition pic_remap :: "u8 \<Rightarrow> u8 \<Rightarrow> 'a machine_scheme \<Rightarrow> 'a machine_scheme" where
  "pic_remap offset1 offset2 s =
     (let (mask1, s1) = inb 0x21 s;
          (mask2, s2) = inb 0xA1 s1;
          s3 = outb_wait 0x20 (0x10 OR 0x01) s2;
          s4 = outb_wait 0xA0 (0x10 OR 0x01) s3;
          s5 = outb_wait 0x21 offset1 s4;
          s6 = outb_wait 0xA1 offset2 s5;
          s7 = outb_wait 0x21 4 s6;
          s8 = outb_wait 0xA1 2 s7;
          s9 = outb_wait 0x21 0x01 s8;
          s10 = outb_wait 0xA1 0x01 s9;
          s11 = outb 0x21 mask1 s10
      in outb 0xA1 mask2 s11)"

text \<open>The port and the bit of an interrupt line; \<open>1 << irq\<close> is computed as an \<open>int\<close>.\<close>

definition pic_line :: "u8 \<Rightarrow> u16 \<times> u32" where
  "pic_line irq =
     (if irq < 8 then (0x21, push_bit (unat irq) 1) else (0xA1, push_bit (unat (irq - 8)) 1))"

definition pic_set_mask :: "u8 \<Rightarrow> 'a machine_scheme \<Rightarrow> 'a machine_scheme" where
  "pic_set_mask irq s =
     (case pic_line irq of (port, line) \<Rightarrow>
        case inb port s of (v, s1) \<Rightarrow> outb port (ucast (ucast v OR line)) s1)"

definition pic_clear_mask :: "u8 \<Rightarrow> 'a machine_scheme \<Rightarrow> 'a machine_scheme" where
  "pic_clear_mask irq s =
     (case pic_line irq of (port, line) \<Rightarrow>
        case inb port s of (v, s1) \<Rightarrow> outb port (ucast (ucast v AND NOT line)) s1)"

definition pic_disable :: "'a machine_scheme \<Rightarrow> 'a machine_scheme" where
  "pic_disable s = outb 0xA1 0xFF (outb 0x21 0xFF s)"

subsection \<open>Frame facts\<close>

lemma interrupt_handlers_kprint [simp]:
  "interrupt_handlers (kprint d s) = interrupt_handlers (s :: 'a interrupts_scheme)"
  by (simp add: kprint_def)

lemma interrupt_handlers_outb [simp]:
  "interrupt_handlers (outb p v s) = interrupt_handlers (s :: 'a interrupts_scheme)"
  by (simp add: outb_def)

lemma klog_outb [simp]: "klog (outb p v s) = klog s"
  by (simp add: outb_def)

lemma port_out_outb [simp]: "port_out (outb p v s) = port_out s @ [(p, v)]"
  by (simp add: outb_def)

lemma handler_registered:
  assumes "length (interrupt_handlers s) = 256"
  shows "interrupt_handlers (isr_register_handler n h s) ! unat m
       = (if m = n then Some h else interrupt_handlers s ! unat m)"
  using assms unsigned_less [of n, where 'a = nat]
  by (auto simp: isr_register_handler_def nth_list_update dest: unsigned_word_eqI)

lemma handlers_length [simp]:
  "length (interrupt_handlers (isr_register_handler n h s)) = length (interrupt_handlers s)"
  by (simp add: isr_register_handler_def)

lemma irq_handler_unregistered:
  assumes "int_no regs < 256" "interrupt_handlers s ! unat (int_no regs) = None"
  shows "irq_handler call regs s
    = Returned (outb 0x20 0x20 (if int_no regs \<ge> 40 then outb 0xA0 0x20 s else s))"
  using assms by (simp add: irq_handler_def Let_def not_le)

text \<open>The interrupt lines are \<open>0..15\<close>; as vectors they are \<open>32..47\<close>.\<close>

lemma unat_irq_vector: "line < 16 \<Longrightarrow> unat (line + 32 :: u8) = unat line + 32"
  using unat_add_small [of line 32] word_less_unat_mono [of line 16] by simp

lemma unat_irq_twice: "line < 16 \<Longrightarrow> unat (IRQ0 + line + 32 :: u8) = unat line + 64"
  using unat_add_small [of 64 line] word_less_unat_mono [of line 16] by (simp add: IRQ0_def)

subsection \<open>A table and registers for the witnesses\<close>

definition sample_table :: interrupts where
  "sample_table =
     \<lparr>mem = (\<lambda>_. 0), klog = [], port_out = [], port_in = (\<lambda>_ _. 0x10), port_reads = (\<lambda>_. 0),
      interrupt_handlers = replicate 256 None\<rparr>"

definition sample_regs :: "u32 \<Rightarrow> registers" where
  "sample_regs n =
     \<lparr>ds = 0, edi = 0, esi = 0, ebp = 0, esp = 0, ebx = 0, edx = 0, ecx = 0, eax = 0,
      int_no = n, err_code = 0, eip = 0, cs = 0, eflags = 0, useresp = 0, ss = 0\<rparr>"

subsection \<open>Properties\<close>

text \<open>A handler registered for a vector from 32 up is the one that runs, with the
  interrupt's registers, when the vector is dispatched, and no other vector is affected by
  the registration.\<close>

theorem isr_dispatches_registered:
  assumes "length (interrupt_handlers s) = 256" and "int_no regs = ucast m" and "32 \<le> m"
  shows "isr_handler call regs (isr_register_handler m h s)
           = Returned (call h regs (isr_register_handler m h s))
    \<and> (n \<noteq> m \<longrightarrow> interrupt_handlers (isr_register_handler n k s) ! unat m
                 = interrupt_handlers s ! unat m)"
proof -
  have m: "unat (int_no regs) = unat m" "\<not> int_no regs < 32" "int_no regs < 256"
    using assms(2,3) unsigned_less [of m, where 'a = nat]
    by (simp_all add: word_less_nat_alt word_le_nat_alt unat_ucast_up)
  show ?thesis
    using m handler_registered [OF assms(1)] by (simp add: isr_handler_def not_le)
qed

theorem isr_dispatches_registered_witness:
  "isr_handler (\<lambda>_ _. kprint (Puts ''key'')) (sample_regs 33)
     (isr_register_handler 33 Keyboard_handler sample_table)
   = Returned (kprint (Puts ''key'') (isr_register_handler 33 Keyboard_handler sample_table))"
  using isr_dispatches_registered [of sample_table "sample_regs 33" 33]
  by (simp add: sample_table_def sample_regs_def)

text \<open>The vectors below 32 halt the machine whatever is registered for them.  The
  exception is reported, then the processor stops; no handler is called, so the page fault
  handler that \<open>vmm_init\<close> registers for vector 14 is never run.\<close>

theorem isr_exceptions_halt:
  assumes "int_no regs < 32"
  shows "\<exists>log. \<forall>call hs. isr_handler call regs (s\<lparr>interrupt_handlers := hs\<rparr>)
           = Halted (s\<lparr>interrupt_handlers := hs, klog := klog s @ log\<rparr>)"
  using assms by (auto simp: isr_handler_def kprint_def)

theorem isr_exceptions_halt_witness:
  "\<exists>log. isr_handler (\<lambda>_ _ s. s) (sample_regs 14)
      (sample_table\<lparr>interrupt_handlers := (replicate 256 None)[14 := Some Page_fault]\<rparr>)
    = Halted (sample_table\<lparr>interrupt_handlers := (replicate 256 None)[14 := Some Page_fault],
        klog := klog sample_table @ log\<rparr>)"
  using isr_exceptions_halt [of "sample_regs 14" sample_table] by (auto simp: sample_regs_def)

text \<open>C10: \<open>irq_register_handler\<close> adds 32 to its argument, and the constants \<open>IRQ0\<close> to
  \<open>IRQ15\<close> its callers pass have the 32 added already.  A handler so registered lands at
  vector 64 and up: none of the sixteen hardware interrupts runs it, each one only sends
  the end-of-interrupt commands.\<close>

theorem irq_constants_miss:
  assumes "length (interrupt_handlers s) = 256" and "line < 16"
    and "32 \<le> int_no regs" "int_no regs < 48"
    and "interrupt_handlers s ! unat (int_no regs) = None"
  shows "irq_handler call regs (irq_register_handler (IRQ0 + line) h s)
    = Returned (outb 0x20 0x20 (if int_no regs \<ge> 40
        then outb 0xA0 0x20 (irq_register_handler (IRQ0 + line) h s)
        else irq_register_handler (IRQ0 + line) h s))
    \<and> interrupt_handlers (irq_register_handler (IRQ0 + line) h s) ! (64 + unat line) = Some h"
proof -
  let ?t = "irq_register_handler (IRQ0 + line) h s"
  have n: "unat (int_no regs) < 48" using assms(4) word_less_unat_mono by fastforce
  have at: "unat line + 64 < 256" using assms(2) word_less_unat_mono [of line 16] by simp
  have "interrupt_handlers ?t ! unat (int_no regs) = None"
    using n assms(5) unat_irq_twice [OF assms(2)]
    by (simp add: irq_register_handler_def isr_register_handler_def)
  moreover have "int_no regs < 256"
    using assms(4) by (simp add: word_less_nat_alt)
  ultimately show ?thesis
    using irq_handler_unregistered [of regs ?t call] at unat_irq_twice [OF assms(2)] assms(1)
    by (simp add: irq_register_handler_def isr_register_handler_def add.commute)
qed

theorem irq_constants_miss_witness:
  "irq_handler (\<lambda>_ _. kprint (Puts ''tick'')) (sample_regs 32)
      (irq_register_handler IRQ0 Process_timer_tick sample_table)
   = Returned (outb 0x20 0x20 (irq_register_handler IRQ0 Process_timer_tick sample_table))"
  using irq_constants_miss [of sample_table 0 "sample_regs 32"]
  by (simp add: sample_table_def sample_regs_def)

text \<open>Masking and unmasking an interrupt line touch that line only.  For the sixteen lines,
  \<open>pic_set_mask\<close> writes back to the data port of the line's controller the value read from
  it with the line's bit set, and \<open>pic_clear_mask\<close> the value with that bit cleared; the
  other seven bits are kept.\<close>

theorem pic_mask_one_line:
  assumes "irq < 16"
  shows "\<exists>port v w. (port, v) = (let p = (if irq < 8 then 0x21 else 0xA1) in (p, fst (inb p s)))
      \<and> port_out (pic_set_mask irq s) = port_out s @ [(port, v OR w)]
      \<and> port_out (pic_clear_mask irq s) = port_out s @ [(port, v AND NOT w)]
      \<and> (\<forall>k. bit w k \<longleftrightarrow> k = unat irq mod 8)"
proof -
  let ?w = "push_bit (unat irq mod 8) 1 :: u8"
  have irq: "unat irq < 16" using word_less_unat_mono [OF assms] by simp
  have line: "pic_line irq = (if irq < 8 then 0x21 else 0xA1, push_bit (unat irq mod 8) 1)"
  proof (cases "irq < 8")
    case True
    then have "unat irq < 8" using word_less_unat_mono by fastforce
    then show ?thesis using True by (simp add: pic_line_def)
  next
    case False
    then have "8 \<le> unat irq" by (simp add: word_less_nat_alt)
    then have "unat (irq - 8) = unat irq mod 8"
      using irq by (simp add: unat_sub_if' mod_if [of _ 8])
    then show ?thesis using False by (simp add: pic_line_def)
  qed
  have small: "unat irq mod 8 < 8" by simp
  have set_: "ucast (ucast v OR push_bit (unat irq mod 8) 1 :: u32) = v OR ?w" for v :: u8
    using small by (intro bit_word_eqI) (auto simp: bit_simps)
  have clear: "ucast (ucast v AND NOT (push_bit (unat irq mod 8) 1) :: u32) = v AND NOT ?w" for v :: u8
    using small by (intro bit_word_eqI) (auto simp: bit_simps)
  have "bit ?w k \<longleftrightarrow> k = unat irq mod 8" for k
    using small by (auto simp: bit_simps)
  then show ?thesis
    using set_ clear line
    by (intro exI [of _ "if irq < 8 then 0x21 else 0xA1"] exI exI [of _ ?w])
      (simp add: pic_set_mask_def pic_clear_mask_def inb_def outb_def Let_def)
qed

theorem pic_mask_one_line_witness:
  "\<exists>w. port_out (pic_set_mask 9 sample_table) = [(0xA1, 0x10 OR w)] \<and> bit w 1"
  using pic_mask_one_line [of 9 sample_table]
  by (auto simp: sample_table_def inb_def)

end
