(* ===== verification/Pmm.thy ===== *)
theory Pmm
  imports Page_Allocator Isr
begin

text \<open>
  The physical memory manager, mem/pmm.c: a bitmap with one bit per 4 KiB block, kept in
  physical memory at \<open>pmm_memory_map\<close>, and a counter of used blocks.  The first part
  translates the file; the second shows that the bitmap allocator keeps the promise of a page allocator (the
  locale \<open>page_store\<close> of Page_Allocator).
\<close>

subsection \<open>State and bitmap operations\<close>

record pmm = interrupts +
  pmm_memory_map :: u32
  pmm_memory_map_size :: u32
  mem_size :: u32
  mem_blocks :: u32
  mem_used_blocks :: u32
  mem_max_addr :: u32

definition bm_addr :: "'a pmm_scheme \<Rightarrow> u32 \<Rightarrow> u32" where
  "bm_addr s b = pmm_memory_map s + 4 * (b div 32)"

definition bm_mask :: "u32 \<Rightarrow> u32" where
  "bm_mask b = push_bit (unat (b mod 32)) 1"

definition pmm_set_block :: "u32 \<Rightarrow> 'a pmm_scheme \<Rightarrow> 'a pmm_scheme" where
  "pmm_set_block b s =
     (wr32 (bm_addr s b) (rd32 (bm_addr s b) s OR bm_mask b) s)
       \<lparr>mem_used_blocks := mem_used_blocks s + 1\<rparr>"

definition pmm_unset_block :: "u32 \<Rightarrow> 'a pmm_scheme \<Rightarrow> 'a pmm_scheme" where
  "pmm_unset_block b s =
     (wr32 (bm_addr s b) (rd32 (bm_addr s b) s AND NOT (bm_mask b)) s)
       \<lparr>mem_used_blocks := mem_used_blocks s - 1\<rparr>"

definition pmm_test_block :: "u32 \<Rightarrow> 'a pmm_scheme \<Rightarrow> bool" where
  "pmm_test_block b s \<longleftrightarrow> rd32 (bm_addr s b) s AND bm_mask b \<noteq> 0"

subsection \<open>Searching\<close>

text \<open>The single-block loop and the consecutive-run loop of \<open>pmm_find_first_free_blocks\<close>;
  the \<open>int32_t\<close> result is a word, \<open>-1\<close> the error.\<close>

function find_single :: "u32 \<Rightarrow> 'a pmm_scheme \<Rightarrow> u32" where
  "find_single i s =
     (if i < mem_blocks s
      then if \<not> pmm_test_block i s then i else find_single (i + 1) s
      else - 1)"
  by pat_completeness auto
termination
  by (relation "measure (\<lambda>(i, s). unat (mem_blocks s) - unat i)") (auto intro: unat_diff_Suc_less)

function find_run :: "u32 \<Rightarrow> u32 \<Rightarrow> u32 \<Rightarrow> u32 \<Rightarrow> 'a pmm_scheme \<Rightarrow> u32" where
  "find_run i free_blocks first_free count s =
     (if i < mem_blocks s
      then if \<not> pmm_test_block i s
           then let first_free' = (if free_blocks = 0 then i else first_free);
                    free_blocks' = free_blocks + 1
                in if free_blocks' = count then first_free'
                   else find_run (i + 1) free_blocks' first_free' count s
           else find_run (i + 1) 0 (- 1) count s
      else - 1)"
  by pat_completeness auto
termination
  by (relation "measure (\<lambda>(i, _, _, _, s). unat (mem_blocks s) - unat i)")
    (auto intro: unat_diff_Suc_less)

declare find_single.simps [simp del] find_run.simps [simp del]

definition pmm_find_first_free_blocks :: "u32 \<Rightarrow> 'a pmm_scheme \<Rightarrow> u32" where
  "pmm_find_first_free_blocks count s =
     (if count = 0 then - 1
      else if count = 1 then find_single 0 s
      else find_run 0 0 (- 1) count s)"

subsection \<open>Allocation and release\<close>

definition pmm_alloc_block :: "'a pmm_scheme \<Rightarrow> u32 \<times> 'a pmm_scheme" where
  "pmm_alloc_block s =
     (if mem_blocks s \<le> mem_used_blocks s then (0, s)
      else let free_block = pmm_find_first_free_blocks 1 s in
        if free_block = - 1 then (0, s)
        else (free_block * 4096, pmm_set_block free_block s))"

definition pmm_free_block :: "u32 \<Rightarrow> 'a pmm_scheme \<Rightarrow> 'a pmm_scheme" where
  "pmm_free_block p s =
     (let block = p div 4096 in
      if mem_blocks s \<le> block then s else pmm_unset_block block s)"

definition pmm_alloc_blocks :: "u32 \<Rightarrow> 'a pmm_scheme \<Rightarrow> u32 \<times> 'a pmm_scheme" where
  "pmm_alloc_blocks nblocks s =
     (if mem_blocks s < mem_used_blocks s + nblocks then (0, s)
      else let starting_block = pmm_find_first_free_blocks nblocks s in
        if starting_block = - 1 then (0, s)
        else (starting_block * 4096,
              for_lt 0 nblocks (\<lambda>_ _. True) (\<lambda>i. pmm_set_block (starting_block + i)) s))"

definition pmm_free_blocks :: "u32 \<Rightarrow> u32 \<Rightarrow> 'a pmm_scheme \<Rightarrow> 'a pmm_scheme" where
  "pmm_free_blocks p nblocks s =
     (let block = p div 4096 in
      for_lt 0 nblocks (\<lambda>i t. block + i < mem_blocks t) (\<lambda>i. pmm_unset_block (block + i)) s)"

definition pmm_get_memory_size :: "'a pmm_scheme \<Rightarrow> u32" where
  "pmm_get_memory_size s = mem_size s"

definition pmm_get_free_block_count :: "'a pmm_scheme \<Rightarrow> u32" where
  "pmm_get_free_block_count s = mem_blocks s - mem_used_blocks s"

definition pmm_get_block_count :: "'a pmm_scheme \<Rightarrow> u32" where
  "pmm_get_block_count s = mem_blocks s"

definition pmm_get_used_block_count :: "'a pmm_scheme \<Rightarrow> u32" where
  "pmm_get_used_block_count s = mem_used_blocks s"

subsection \<open>Bits of the map\<close>

lemma bm_word_inj: "4 * (b div 32 :: u32) = 4 * (c div 32) \<longleftrightarrow> b div 32 = c div 32"
proof
  have *: "unat (4 * (x div 32 :: u32)) = 4 * unat (x div 32)" for x :: u32
  proof -
    have "unat (x div 32) \<le> 134217727"
      using unsigned_less [of x, where 'a = nat] by (simp add: unat_div)
    then show ?thesis by (simp add: unat_word_ariths(2))
  qed
  assume "4 * (b div 32) = 4 * (c div 32)"
  then have "unat (4 * (b div 32)) = unat (4 * (c div 32))" by simp
  then have "unat (b div 32) = unat (c div 32)" unfolding * by simp
  then show "b div 32 = c div 32" by (rule unsigned_word_eqI)
qed simp

lemma bm_addr_eq_iff: "bm_addr s b = bm_addr s c \<longleftrightarrow> b div 32 = c div 32"
  by (simp add: bm_addr_def bm_word_inj)

lemma same_block: "b div 32 = c div 32 \<Longrightarrow> b mod 32 = c mod 32 \<Longrightarrow> b = (c :: u32)"
  by (metis word_mod_div_equality)

lemma mod32_less: "unat (b mod 32 :: u32) < 32"
  by (simp add: unat_mod)

lemma pmm_test_block_bit:
  "pmm_test_block b s \<longleftrightarrow> bit (rd32 (bm_addr s b) s) (unat (b mod 32))"
  by (simp add: pmm_test_block_def bm_mask_def bit_iff_and_push_bit_not_eq_0)

lemma bit_bm_mask: "bit (bm_mask b) n \<longleftrightarrow> n = unat (b mod 32)"
  using mod32_less [of b] by (auto simp: bm_mask_def bit_simps)


lemma rd32_used_update [simp]: "rd32 a (s\<lparr>mem_used_blocks := x\<rparr>) = rd32 a s"
  by (simp add: rd32_def)

lemma set_unset_fields [simp]:
  "mem_blocks (pmm_set_block b s) = mem_blocks s"
  "mem_blocks (pmm_unset_block b s) = mem_blocks s"
  "pmm_memory_map (pmm_set_block b s) = pmm_memory_map s"
  "pmm_memory_map (pmm_unset_block b s) = pmm_memory_map s"
  "mem_used_blocks (pmm_set_block b s) = mem_used_blocks s + 1"
  "mem_used_blocks (pmm_unset_block b s) = mem_used_blocks s - 1"
  "pmm.more (pmm_set_block b s) = pmm.more s"
  "pmm.more (pmm_unset_block b s) = pmm.more s"
  by (simp_all add: pmm_set_block_def pmm_unset_block_def wr32_def)

lemma rd32_set_block:
  "rd32 a (pmm_set_block b s) = (if a = bm_addr s b then rd32 a s OR bm_mask b else rd32 a s)"
  by (simp add: pmm_set_block_def mem_simps)

lemma rd32_unset_block:
  "rd32 a (pmm_unset_block b s) = (if a = bm_addr s b then rd32 a s AND NOT (bm_mask b) else rd32 a s)"
  by (simp add: pmm_unset_block_def mem_simps)

lemma bm_addr_set_unset [simp]:
  "bm_addr (pmm_set_block c s) b = bm_addr s b" "bm_addr (pmm_unset_block c s) b = bm_addr s b"
  by (simp_all add: bm_addr_def)

lemma unat_eq_iff32: "unat (x :: u32) = unat y \<longleftrightarrow> x = y"
  by (auto intro: unsigned_word_eqI)

lemma test_set_block [simp]:
  "pmm_test_block b (pmm_set_block c s) \<longleftrightarrow> b = c \<or> pmm_test_block b s"
proof (cases "b div 32 = c div 32")
  case True
  then show ?thesis
    using same_block [OF True]
    by (auto simp: pmm_test_block_bit rd32_set_block bm_addr_eq_iff bit_or_iff bit_bm_mask
        unat_eq_iff32)
next
  case False
  then show ?thesis
    by (auto simp: pmm_test_block_bit rd32_set_block bm_addr_eq_iff)
qed

lemma test_unset_block [simp]:
  "pmm_test_block b (pmm_unset_block c s) \<longleftrightarrow> b \<noteq> c \<and> pmm_test_block b s"
proof (cases "b div 32 = c div 32")
  case True
  have "unat (b mod 32) < 32" by (rule mod32_less)
  then show ?thesis
    using same_block [OF True] True
    by (auto simp: pmm_test_block_bit rd32_unset_block bm_addr_eq_iff bit_and_iff bit_not_iff
        bit_bm_mask unat_eq_iff32)
next
  case False
  then show ?thesis
    by (auto simp: pmm_test_block_bit rd32_unset_block bm_addr_eq_iff)
qed

subsection \<open>The searches are first fit\<close>

lemma find_single_unfold:
  "find_single i s =
     (if i < mem_blocks s then if \<not> pmm_test_block i s then i else find_single (i + 1) s else - 1)"
  by (rule find_single.simps)

lemma find_single_spec:
  "(find_single i s = - 1 \<and> (\<forall>j. i \<le> j \<and> j < mem_blocks s \<longrightarrow> pmm_test_block j s)) \<or>
   (i \<le> find_single i s \<and> find_single i s < mem_blocks s \<and> \<not> pmm_test_block (find_single i s) s
    \<and> (\<forall>j. i \<le> j \<and> j < find_single i s \<longrightarrow> pmm_test_block j s))"
proof (induction i s rule: find_single.induct)
  case (1 i s)
  consider (stop) "\<not> i < mem_blocks s" | (hit) "i < mem_blocks s" "\<not> pmm_test_block i s"
    | (next_one) "i < mem_blocks s" "pmm_test_block i s" by blast
  then show ?case
  proof cases
    case stop
    then show ?thesis by (subst (1) find_single_unfold) auto
  next
    case hit
    then have "find_single i s = i" by (subst find_single_unfold) simp
    with hit show ?thesis by auto
  next
    case next_one
    then have eq: "find_single i s = find_single (i + 1) s" by (subst find_single_unfold) simp
    have le: "i \<le> j \<longleftrightarrow> j = i \<or> i + 1 \<le> j" for j
      using next_one(1) word_le_less_Suc_iff by (metis order_le_less)
    from "1.IH" [OF next_one(1)] next_one show ?thesis
      unfolding eq le by auto
  qed
qed

text \<open>Free runs, by block number.\<close>

definition free_at :: "'a pmm_scheme \<Rightarrow> nat \<Rightarrow> bool" where
  "free_at s k \<longleftrightarrow> k < unat (mem_blocks s) \<and> \<not> pmm_test_block (of_nat k) s"

definition free_run :: "'a pmm_scheme \<Rightarrow> nat \<Rightarrow> nat \<Rightarrow> bool" where
  "free_run s a n \<longleftrightarrow> (\<forall>k<n. free_at s (a + k))"

definition first_fit :: "'a pmm_scheme \<Rightarrow> nat \<Rightarrow> u32 \<Rightarrow> bool" where
  "first_fit s n r \<longleftrightarrow>
     (r = - 1 \<and> (\<forall>a. \<not> free_run s a n)) \<or>
     (free_run s (unat r) n \<and> (\<forall>a<unat r. \<not> free_run s a n))"

lemma free_at_word: "free_at s (unat b) \<longleftrightarrow> b < mem_blocks s \<and> \<not> pmm_test_block b s"
  by (simp add: free_at_def word_less_nat_alt)

lemma free_run_one: "free_run s a (Suc 0) \<longleftrightarrow> free_at s a"
  by (simp add: free_run_def)

text \<open>What \<open>find_run\<close> knows at block \<open>i\<close>: the last \<open>free_blocks\<close> blocks are free, and no
  run of the wanted length starts before them.\<close>

definition run_inv :: "'a pmm_scheme \<Rightarrow> u32 \<Rightarrow> u32 \<Rightarrow> u32 \<Rightarrow> u32 \<Rightarrow> bool" where
  "run_inv s i fb ff count \<longleftrightarrow>
     unat i \<le> unat (mem_blocks s) \<and> unat fb < unat count \<and> unat fb \<le> unat i
     \<and> (fb \<noteq> 0 \<longrightarrow> ff = i - fb)
     \<and> (\<forall>k. unat i - unat fb \<le> k \<and> k < unat i \<longrightarrow> free_at s k)
     \<and> (\<forall>a < unat i - unat fb. \<not> free_run s a (unat count))"

lemma run_inv_used:
  assumes "run_inv s i fb ff count" "i < mem_blocks s" "pmm_test_block i s"
  shows "run_inv s (i + 1) 0 (- 1) count"
proof -
  have used: "\<not> free_at s (unat i)" using assms(3) by (simp add: free_at_word)
  have "\<not> free_run s a (unat count)" if "a \<le> unat i" for a
  proof (cases "a < unat i - unat fb")
    case False
    then have "a + (unat i - a) = unat i" "unat i - a < unat count"
      using that assms(1) by (auto simp: run_inv_def)
    then show ?thesis using used unfolding free_run_def by metis
  qed (use assms(1) in \<open>simp add: run_inv_def\<close>)
  then show ?thesis
    using assms by (auto simp: run_inv_def unat_Suc_less less_Suc_eq_le word_less_unat_mono Suc_le_eq)
qed

lemma run_inv_start: "run_inv s i fb ff count \<Longrightarrow> (if fb = 0 then i else ff) = i - fb"
  by (auto simp: run_inv_def)

lemma unat_run_start: "run_inv s i fb ff count \<Longrightarrow> unat (i - fb) = unat i - unat fb"
  by (simp add: run_inv_def unat_sub word_le_nat_alt)

lemma run_inv_free:
  assumes inv: "run_inv s i fb ff count" and "i < mem_blocks s" "\<not> pmm_test_block i s"
  shows "\<forall>k. unat i - unat fb \<le> k \<and> k < Suc (unat i) \<longrightarrow> free_at s k"
    and "unat (fb + 1) = Suc (unat fb)"
proof -
  have "free_at s (unat i)" using assms(2,3) by (simp add: free_at_word)
  then show "\<forall>k. unat i - unat fb \<le> k \<and> k < Suc (unat i) \<longrightarrow> free_at s k"
    using inv by (auto simp: run_inv_def less_Suc_eq)
  have "fb < count" using inv by (simp add: run_inv_def word_less_nat_alt)
  then show "unat (fb + 1) = Suc (unat fb)" by (rule unat_Suc_less)
qed

lemma run_inv_extend:
  assumes inv: "run_inv s i fb ff count" and "i < mem_blocks s" "\<not> pmm_test_block i s"
    and "fb + 1 \<noteq> count"
  shows "run_inv s (i + 1) (fb + 1) (i - fb) count"
proof -
  note f = run_inv_free [OF assms(1-3)]
  have "unat (fb + 1) \<noteq> unat count" using assms(4) by (simp add: unat_eq_iff32)
  then show ?thesis
    using inv f assms(2)
    by (simp add: run_inv_def unat_Suc_less word_less_unat_mono Suc_le_eq)
qed

lemma run_inv_found:
  assumes inv: "run_inv s i fb ff count" and "i < mem_blocks s" "\<not> pmm_test_block i s"
    and "fb + 1 = count"
  shows "first_fit s (unat count) (i - fb)"
proof -
  note f = run_inv_free [OF assms(1-3)]
  have "unat count = Suc (unat fb)" using f(2) assms(4) by simp
  then have "free_at s (unat i - unat fb + k)" if "k < unat count" for k
    using that inv by (intro f(1) [rule_format]) (auto simp: run_inv_def)
  then have "free_run s (unat i - unat fb) (unat count)"
    by (simp add: free_run_def)
  then show ?thesis
    using inv unat_run_start [OF inv] by (simp add: first_fit_def run_inv_def)
qed

lemma run_inv_end:
  assumes inv: "run_inv s i fb ff count" and "\<not> i < mem_blocks s"
  shows "first_fit s (unat count) (- 1)"
proof -
  have i: "unat i = unat (mem_blocks s)"
    using assms by (simp add: run_inv_def word_less_nat_alt)
  have "\<not> free_run s a (unat count)" for a
  proof (cases "a < unat i - unat fb")
    case True
    then show ?thesis using inv by (simp add: run_inv_def)
  next
    case False
    then have "unat count - 1 < unat count" "\<not> a + (unat count - 1) < unat (mem_blocks s)"
      using inv i by (auto simp: run_inv_def)
    then show ?thesis unfolding free_run_def free_at_def by blast
  qed
  then show ?thesis by (simp add: first_fit_def)
qed

lemma find_run_first_fit:
  "run_inv s i fb ff count \<Longrightarrow> first_fit s (unat count) (find_run i fb ff count s)"
proof (induction i fb ff count s rule: find_run.induct)
  case (1 i fb ff count s)
  note start = run_inv_start [OF "1.prems"]
  consider (stop) "\<not> i < mem_blocks s" | (used) "i < mem_blocks s" "pmm_test_block i s"
    | (found) "i < mem_blocks s" "\<not> pmm_test_block i s" "fb + 1 = count"
    | (more) "i < mem_blocks s" "\<not> pmm_test_block i s" "fb + 1 \<noteq> count" by blast
  then show ?case
  proof cases
    case stop
    then show ?thesis using run_inv_end [OF "1.prems"] by (subst find_run.simps) simp
  next
    case used
    then show ?thesis
      using "1.IH"(2) run_inv_used [OF "1.prems"] by (subst find_run.simps) simp
  next
    case found
    then show ?thesis
      using run_inv_found [OF "1.prems"] start by (subst find_run.simps) (simp add: Let_def)
  next
    case more
    then show ?thesis
      using "1.IH"(1) run_inv_extend [OF "1.prems"] start
      by (subst find_run.simps) (simp add: Let_def)
  qed
qed

lemma free_at_wordE:
  assumes "free_at s a"
  obtains j :: u32 where "a = unat j" "j < mem_blocks s" "\<not> pmm_test_block j s"
proof (rule that)
  have "a < 2 ^ 32"
    using assms unsigned_less [of "mem_blocks s", where 'a = nat] by (simp add: free_at_def)
  then show "a = unat (of_nat a :: u32)" by (simp add: unat_of_nat)
  with assms show "(of_nat a :: u32) < mem_blocks s" by (simp add: free_at_def word_less_nat_alt)
  from assms show "\<not> pmm_test_block (of_nat a) s" by (simp add: free_at_def)
qed

lemma find_single_first_fit: "first_fit s (Suc 0) (find_single 0 s)"
proof -
  let ?r = "find_single 0 s"
  from find_single_spec [of 0 s] consider
      (none) "?r = - 1" "\<forall>j < mem_blocks s. pmm_test_block j s"
    | (some) "?r < mem_blocks s" "\<not> pmm_test_block ?r s" "\<forall>j < ?r. pmm_test_block j s"
    by auto
  then show ?thesis
  proof cases
    case none
    then have "\<not> free_at s a" for a by (auto elim!: free_at_wordE)
    with none(1) show ?thesis by (simp add: first_fit_def free_run_def)
  next
    case some
    then have "free_at s (unat ?r)" by (simp add: free_at_word)
    moreover have "\<not> free_at s a" if "a < unat ?r" for a
      using that some(3) by (auto elim!: free_at_wordE simp: word_less_nat_alt)
    ultimately show ?thesis by (simp add: first_fit_def free_run_def)
  qed
qed

lemma find_first_fit:
  assumes "n \<noteq> 0"
  shows "first_fit s (unat n) (pmm_find_first_free_blocks n s)"
proof (cases "n = 1")
  case True
  then show ?thesis using find_single_first_fit [of s] by (simp add: pmm_find_first_free_blocks_def)
next
  case False
  have "unat n \<noteq> 0" using assms by (simp add: unat_eq_0)
  then have "run_inv s 0 0 (- 1) n" by (simp add: run_inv_def)
  then show ?thesis
    using assms False by (simp add: pmm_find_first_free_blocks_def find_run_first_fit)
qed

subsection \<open>The invariant\<close>

text \<open>
  Geometry, fixed at initialisation: at most \<open>2^20\<close> blocks fit a 32-bit address space, and
  the bitmap lies above the managed blocks and does not wrap.  Bookkeeping: the counter is
  the number of set bits, and block 0 is never handed out (its address is \<open>NULL\<close>).
\<close>

definition pmm_geom :: "'a pmm_scheme \<Rightarrow> bool" where
  "pmm_geom s \<longleftrightarrow>
     unat (mem_blocks s) \<le> 2 ^ 20
     \<and> unat (mem_blocks s) * 4096 \<le> unat (pmm_memory_map s)
     \<and> unat (pmm_memory_map s) + 4 * ((unat (mem_blocks s) + 31) div 32) \<le> 2 ^ 32"

definition used_set :: "'a pmm_scheme \<Rightarrow> u32 set" where
  "used_set s = {b. b < mem_blocks s \<and> pmm_test_block b s}"

definition pmm_inv :: "'a pmm_scheme \<Rightarrow> bool" where
  "pmm_inv s \<longleftrightarrow>
     pmm_geom s \<and> unat (mem_used_blocks s) = card (used_set s) \<and> 0 \<in> used_set s"

lemma pmm_geom_set_unset [simp]:
  "pmm_geom (pmm_set_block b s) = pmm_geom s" "pmm_geom (pmm_unset_block b s) = pmm_geom s"
  by (simp_all add: pmm_geom_def)

lemma used_set_set_block [simp]:
  "used_set (pmm_set_block b s) = (if b < mem_blocks s then insert b (used_set s) else used_set s)"
  by (auto simp: used_set_def)

lemma used_set_unset_block [simp]: "used_set (pmm_unset_block b s) = used_set s - {b}"
  by (auto simp: used_set_def)

lemma card_used_le: "card (used_set s) \<le> unat (mem_blocks s)"
proof -
  have "card (used_set s) = card (unat ` used_set s)"
    by (rule card_image [symmetric]) (simp add: inj_on_def unat_eq_iff32)
  also have "\<dots> \<le> card {..<unat (mem_blocks s)}"
    by (rule card_mono) (auto simp: used_set_def word_less_nat_alt)
  finally show ?thesis by simp
qed

lemma card_used_less:
  assumes "b < mem_blocks s" "b \<notin> used_set s"
  shows "card (used_set s) < unat (mem_blocks s)"
proof -
  have "card (insert b (used_set s)) \<le> unat (mem_blocks s)"
    using card_used_le [of "pmm_set_block b s"] assms(1) by simp
  then show ?thesis using assms(2) by simp
qed

lemma pmm_inv_set_block:
  assumes "pmm_inv s" "b < mem_blocks s" "b \<notin> used_set s"
  shows "pmm_inv (pmm_set_block b s)"
proof -
  have "mem_used_blocks s < mem_blocks s"
    using assms card_used_less by (simp add: pmm_inv_def word_less_nat_alt)
  then show ?thesis
    using assms by (simp add: pmm_inv_def unat_Suc_less)
qed

lemma pmm_inv_unset_block:
  assumes "pmm_inv s" "b \<in> used_set s" "b \<noteq> 0"
  shows "pmm_inv (pmm_unset_block b s)"
proof -
  have "card (used_set s) \<noteq> 0" using assms(2) by auto
  then have "mem_used_blocks s \<noteq> 0" using assms(1) by (auto simp: pmm_inv_def)
  then have "unat (mem_used_blocks s - 1) = unat (mem_used_blocks s) - 1"
    by (simp add: unat_minus_one)
  then show ?thesis
    using assms by (simp add: pmm_inv_def)
qed

lemma all_used_iff:
  assumes "pmm_inv s"
  shows "mem_blocks s \<le> mem_used_blocks s \<longleftrightarrow> (\<forall>b < mem_blocks s. b \<in> used_set s)"
proof
  assume "mem_blocks s \<le> mem_used_blocks s"
  then show "\<forall>b < mem_blocks s. b \<in> used_set s"
    using assms card_used_less by (fastforce simp: pmm_inv_def word_le_nat_alt)
next
  assume "\<forall>b < mem_blocks s. b \<in> used_set s"
  then have eq: "used_set s = {b. b < mem_blocks s}" by (auto simp: used_set_def)
  have "{..<unat (mem_blocks s)} \<subseteq> unat ` used_set s"
  proof
    fix k assume "k \<in> {..<unat (mem_blocks s)}"
    then have "unat (of_nat k :: u32) = k" "of_nat k < mem_blocks s"
      using unsigned_less [of "mem_blocks s", where 'a = nat]
      by (simp_all add: unat_of_nat word_less_nat_alt)
    then show "k \<in> unat ` used_set s" unfolding eq by (metis imageI mem_Collect_eq)
  qed
  then have "unat (mem_blocks s) \<le> card (unat ` used_set s)"
    by (metis card_lessThan card_mono finite_imageI finite)
  also have "\<dots> = card (used_set s)"
    by (rule card_image) (simp add: inj_on_def unat_eq_iff32)
  finally show "mem_blocks s \<le> mem_used_blocks s"
    using assms by (simp add: pmm_inv_def word_le_nat_alt)
qed

subsection \<open>Addresses and the allocator contract\<close>

lemma unat_block_addr:
  "pmm_geom s \<Longrightarrow> b < mem_blocks s \<Longrightarrow> unat (b * 4096) = unat b * 4096"
  by (simp add: pmm_geom_def word_less_nat_alt unat_word_ariths(2))

lemma block_addr_div:
  assumes "pmm_geom s" "b < mem_blocks s"
  shows "b * 4096 div 4096 = b"
proof -
  have "unat (b * 4096 div 4096) = unat b"
    using unat_block_addr [OF assms] by (simp add: unat_div)
  then show ?thesis by (rule unsigned_word_eqI)
qed

lemma block_addr_eq_iff:
  assumes "pmm_geom s" "b < mem_blocks s" "c < mem_blocks s"
  shows "b * 4096 = c * 4096 \<longleftrightarrow> b = c"
  using block_addr_div [OF assms(1,2)] block_addr_div [OF assms(1,3)] by metis

definition managed_pages :: "'a pmm_scheme \<Rightarrow> u32 set" where
  "managed_pages s = {p. page_aligned p \<and> p div 4096 < mem_blocks s}"

definition owned_pages :: "'a pmm_scheme \<Rightarrow> u32 set" where
  "owned_pages s = {p. p \<noteq> 0 \<and> page_aligned p \<and> p div 4096 \<in> used_set s}"

lemma page_div_mult:
  assumes "page_aligned p"
  shows "p div 4096 * 4096 = p"
proof -
  have "unat p div 4096 * 4096 = unat p"
    using assms unfolding page_aligned_def by (metis add.right_neutral div_mult_mod_eq)
  moreover have "unat p div 4096 * 4096 < 2 ^ 32"
    unfolding calculation using unsigned_less [of p, where 'a = nat] by simp
  ultimately have "unat (p div 4096 * 4096) = unat p"
    by (simp add: unat_word_ariths(2) unat_div)
  then show ?thesis by (rule unsigned_word_eqI)
qed

lemma page_aligned_block: "pmm_geom s \<Longrightarrow> b < mem_blocks s \<Longrightarrow> page_aligned (b * 4096)"
  by (simp add: page_aligned_def unat_block_addr)

lemma bm_addr_above:
  assumes "pmm_geom s" "b < mem_blocks s"
  shows "unat (pmm_memory_map s) \<le> unat (bm_addr s b)"
proof -
  have "unat b div 32 \<le> unat b" by simp
  then have "4 * (unat b div 32) < 2 ^ 32"
    using assms unfolding pmm_geom_def word_less_nat_alt by linarith
  then have "unat (4 * (b div 32)) = 4 * (unat b div 32)"
    by (simp add: unat_word_ariths(2) unat_div)
  moreover have "unat b div 32 < (unat (mem_blocks s) + 31) div 32"
    using assms(2) by (simp add: word_less_nat_alt div_less_iff_less_mult)
  ultimately have "unat (pmm_memory_map s) + unat (4 * (b div 32)) < 2 ^ 32"
    using assms(1) unfolding pmm_geom_def by linarith
  then show ?thesis
    unfolding bm_addr_def by (simp add: unat_word_ariths(1))
qed

lemma bm_addr_not_slot:
  assumes "pmm_geom s" "b < mem_blocks s" "q \<in> managed_pages s" "i < 1024"
  shows "slot q i \<noteq> bm_addr s b"
proof -
  have q: "page_aligned q" "unat q div 4096 < unat (mem_blocks s)"
    using assms(3) by (simp_all add: managed_pages_def word_less_nat_alt unat_div)
  obtain k where "unat q = 4096 * k" using page_alignedE [OF q(1)] .
  then have "unat (slot q i) < unat (mem_blocks s) * 4096"
    using q unat_1024 [OF assms(4)] by (simp add: unat_slot [OF q(1) assms(4)])
  then show ?thesis
    using bm_addr_above [OF assms(1,2)] assms(1) unfolding pmm_geom_def by auto
qed

lemma pmm_alloc_block_cases:
  assumes inv: "pmm_inv s"
  obtains (full) "pmm_alloc_block s = (0, s)" "\<forall>b < mem_blocks s. b \<in> used_set s"
  | (block) b where "b \<noteq> 0" "b < mem_blocks s" "b \<notin> used_set s" "\<forall>c < b. c \<in> used_set s"
      "pmm_alloc_block s = (b * 4096, pmm_set_block b s)"
proof (cases "mem_blocks s \<le> mem_used_blocks s")
  case True
  then show thesis using full all_used_iff [OF inv] by (simp add: pmm_alloc_block_def)
next
  case False
  let ?b = "pmm_find_first_free_blocks 1 s"
  obtain a where "a < mem_blocks s" "\<not> pmm_test_block a s"
    using False all_used_iff [OF inv] by (auto simp: used_set_def)
  then have "free_run s (unat a) (Suc 0)" by (simp add: free_run_one free_at_word)
  then have "free_run s (unat ?b) (Suc 0)" "\<forall>a < unat ?b. \<not> free_run s a (Suc 0)"
    using find_first_fit [of 1 s] by (auto simp: first_fit_def)
  then have b: "?b < mem_blocks s" "\<not> pmm_test_block ?b s" "\<forall>c < ?b. c \<in> used_set s"
    unfolding free_run_one free_at_word
    by (auto simp: free_at_word word_less_nat_alt used_set_def)
  have "?b \<noteq> - 1"
    using b(1) word_order.extremum [of "mem_blocks s"] by (metis leD)
  moreover have "?b \<noteq> 0" using b(2) inv by (auto simp: pmm_inv_def used_set_def)
  ultimately show thesis
    using False b by (intro block [of ?b]) (auto simp: pmm_alloc_block_def used_set_def Let_def)
qed

lemma owned_pages_set_block:
  assumes "pmm_inv s" "b < mem_blocks s" "b \<noteq> 0"
  shows "owned_pages (pmm_set_block b s) = insert (b * 4096) (owned_pages s)"
proof -
  have g: "pmm_geom s" using assms(1) by (simp add: pmm_inv_def)
  have "b * 4096 \<noteq> 0" using block_addr_div [OF g assms(2)] assms(3) by auto
  then show ?thesis
    using page_aligned_block [OF g assms(2)] block_addr_div [OF g assms(2)] assms(2)
    by (auto simp: owned_pages_def dest: page_div_mult)
qed

lemma pmm_free_block_owned:
  assumes "p \<in> owned_pages s"
  shows "pmm_free_block p s = pmm_unset_block (p div 4096) s"
  using assms by (auto simp: pmm_free_block_def owned_pages_def used_set_def not_le Let_def)

lemma owned_block_nz:
  assumes "p \<in> owned_pages s"
  shows "p div 4096 \<in> used_set s \<and> p div 4096 \<noteq> 0"
  using assms page_div_mult [of p] by (auto simp: owned_pages_def)

lemma owned_pages_unset_block:
  assumes "page_aligned p"
  shows "owned_pages (pmm_unset_block (p div 4096) s) = owned_pages s - {p}"
  using page_div_mult [OF assms] by (auto simp: owned_pages_def) (metis page_div_mult)

lemma managed_set_unset [simp]:
  "managed_pages (pmm_set_block b s) = managed_pages s"
  "managed_pages (pmm_unset_block b s) = managed_pages s"
  by (simp_all add: managed_pages_def)

interpretation pmm: page_store pmm_alloc_block pmm_free_block owned_pages pmm_inv rd32 managed_pages
proof unfold_locales
  fix s t :: "'a pmm_scheme" and p q i :: u32
  assume inv: "pmm_inv s"
  note g = inv [unfolded pmm_inv_def, THEN conjunct1]
  show "t = s" if "pmm_alloc_block s = (0, t)"
  proof (rule pmm_alloc_block_cases [OF inv])
    fix b assume b: "b \<noteq> 0" "b < mem_blocks s" "pmm_alloc_block s = (b * 4096, pmm_set_block b s)"
    then have "b * 4096 = 0" using that by simp
    then show "t = s" using block_addr_div [OF g b(2)] b(1) by simp
  qed (use that in simp)
  show "page_aligned p \<and> p \<notin> owned_pages s \<and> owned_pages t = insert p (owned_pages s)"
    if "pmm_alloc_block s = (p, t)" "p \<noteq> 0"
    using inv
  proof (cases rule: pmm_alloc_block_cases)
    case (block b)
    then show ?thesis
      using that owned_pages_set_block [OF inv block(2,1)] page_aligned_block [OF g block(2)]
        block_addr_div [OF g block(2)] by (auto simp: owned_pages_def)
  qed (use that in simp)
  show "pmm_inv t" if "pmm_alloc_block s = (p, t)"
    using inv by (cases rule: pmm_alloc_block_cases) (use that inv pmm_inv_set_block in auto)
  show "rd32 (slot q i) t = rd32 (slot q i) s"
    if "pmm_alloc_block s = (p, t)" "q \<in> managed_pages s" "i < 1024"
    using inv
  proof (cases rule: pmm_alloc_block_cases)
    case (block b)
    then show ?thesis
      using that bm_addr_not_slot [OF g block(2) that(2,3)] by (auto simp: rd32_set_block)
  qed (use that in simp)
  show "rd32 (slot q i) (pmm_free_block p s) = rd32 (slot q i) s"
    if "q \<in> managed_pages s" "i < 1024"
    using bm_addr_not_slot [OF g _ that] by (auto simp: pmm_free_block_def rd32_unset_block Let_def not_le)
  show "owned_pages s \<subseteq> managed_pages s"
    by (auto simp: owned_pages_def managed_pages_def used_set_def)
  assume p: "p \<in> owned_pages s"
  then show "p \<noteq> 0 \<and> page_aligned p" by (simp add: owned_pages_def)
  then show "owned_pages (pmm_free_block p s) = owned_pages s - {p}"
    using pmm_free_block_owned [OF p] by (simp add: owned_pages_unset_block)
  show "pmm_inv (pmm_free_block p s)"
    using pmm_free_block_owned [OF p] pmm_inv_unset_block [OF inv] owned_block_nz [OF p] by simp
next
  show "managed_pages t = managed_pages s" if "pmm_alloc_block s = (p, t)" for s t :: "'a pmm_scheme" and p
    using that by (auto simp: pmm_alloc_block_def Let_def split: if_splits)
  show "managed_pages (pmm_free_block p s) = managed_pages s" for s :: "'a pmm_scheme" and p
    by (simp add: pmm_free_block_def Let_def)
qed

text \<open>The client's stores into managed pages do not reach the bitmap.\<close>

lemma bm_addr_not_in_page:
  assumes "pmm_geom s" "b < mem_blocks s" "q \<in> managed_pages s"
  shows "\<not> unat (bm_addr s b - q) < 4096"
proof -
  have q: "page_aligned q" "unat q div 4096 < unat (mem_blocks s)"
    using assms(3) by (simp_all add: managed_pages_def word_less_nat_alt unat_div)
  obtain k where k: "unat q = 4096 * k" using page_alignedE [OF q(1)] .
  then have "unat q + 4096 \<le> unat (mem_blocks s) * 4096" using q(2) by simp
  then have "unat q + 4096 \<le> unat (bm_addr s b)"
    using bm_addr_above [OF assms(1,2)] assms(1) unfolding pmm_geom_def by linarith
  then show ?thesis
    using unat_sub_small [of q "bm_addr s b"] by (simp add: word_le_nat_alt)
qed

lemma wr_page_invariants:
  fixes f :: "u32 \<Rightarrow> u32"
  assumes g: "pmm_geom s" and "q \<in> managed_pages s"
    and same: "\<And>a. \<not> unat (a - q) < 4096 \<Longrightarrow> f a = mem s a"
  shows "pmm_inv (s\<lparr>mem := f\<rparr>) = pmm_inv s"
    and "owned_pages (s\<lparr>mem := f\<rparr>) = owned_pages s"
proof -
  have "f (bm_addr s b) = mem s (bm_addr s b)" if "b < mem_blocks s" for b
    using bm_addr_not_in_page [OF g that assms(2)] by (intro same) auto
  then have "used_set (s\<lparr>mem := f\<rparr>) = used_set s"
    by (auto simp: used_set_def pmm_test_block_def rd32_def bm_addr_def)
  then show "pmm_inv (s\<lparr>mem := f\<rparr>) = pmm_inv s" "owned_pages (s\<lparr>mem := f\<rparr>) = owned_pages s"
    by (simp_all add: pmm_inv_def owned_pages_def pmm_geom_def)
qed

lemma managed_page_aligned: "q \<in> managed_pages s \<Longrightarrow> page_aligned q"
  by (simp add: managed_pages_def)

lemma slot_in_page: "i < 1024 \<Longrightarrow> unat (slot q i - q) < 4096"
  using unat_1024 [of i] unat_4_mult [of i] by (simp add: slot_def)

subsection \<open>Several blocks at a time\<close>

definition span :: "u32 \<Rightarrow> u32 \<Rightarrow> u32 set" where
  "span b n = {c. unat b \<le> unat c \<and> unat c < unat b + unat n}"

lemma span_0 [simp]: "span b 0 = {}"
  by (auto simp: span_def)

lemma span_Suc:
  assumes "i < n" "unat b + unat n \<le> 2 ^ 32"
  shows "span b (i + 1) = insert (b + i) (span b i)" and "unat (b + i) = unat b + unat i"
proof -
  have "unat b + unat i < 2 ^ 32" using assms by (simp add: word_less_nat_alt)
  then show bi: "unat (b + i) = unat b + unat i" by (simp add: unat_word_ariths(1))
  show "span b (i + 1) = insert (b + i) (span b i)"
    using unat_Suc_less [OF assms(1)] bi
    by (auto simp: span_def simp flip: unat_eq_iff32)
qed

lemma free_run_span:
  assumes "free_run s (unat b) (unat n)" "n \<noteq> 0"
  shows "unat b + unat n \<le> unat (mem_blocks s)" and "span b n \<inter> used_set s = {}"
proof -
  have n: "unat n \<noteq> 0" using assms(2) by (simp add: unat_eq_0)
  then have "free_at s (unat b + (unat n - 1))"
    using assms(1) unfolding free_run_def by (metis diff_less neq0_conv zero_less_one)
  then show "unat b + unat n \<le> unat (mem_blocks s)" using n unfolding free_at_def by linarith
  show "span b n \<inter> used_set s = {}"
  proof (rule ccontr)
    assume "span b n \<inter> used_set s \<noteq> {}"
    then obtain c where c: "unat b \<le> unat c" "unat c < unat b + unat n" "c \<in> used_set s"
      by (auto simp: span_def)
    then have "free_at s (unat b + (unat c - unat b))"
      using assms(1) unfolding free_run_def by (metis less_diff_conv2 add.commute)
    then have "free_at s (unat c)" using c(1) by simp
    then show False using c(3) by (simp add: free_at_word used_set_def)
  qed
qed

lemma set_span_loop:
  assumes inv: "pmm_inv s" and run: "free_run s (unat b) (unat n)" and "n \<noteq> 0"
  defines "t \<equiv> for_lt 0 n (\<lambda>_ _. True) (\<lambda>i. pmm_set_block (b + i)) s"
  shows "pmm_inv t \<and> used_set t = used_set s \<union> span b n \<and> mem_blocks t = mem_blocks s
         \<and> (\<forall>q \<in> managed_pages s. \<forall>i < 1024. rd32 (slot q i) t = rd32 (slot q i) s)"
proof -
  note fr = free_run_span [OF run \<open>n \<noteq> 0\<close>]
  have lim: "unat b + unat n \<le> 2 ^ 32"
    using fr(1) unsigned_less [of "mem_blocks s", where 'a = nat] by simp
  let ?P = "\<lambda>j u. pmm_inv u \<and> used_set u = used_set s \<union> span b j \<and> mem_blocks u = mem_blocks s
     \<and> managed_pages u = managed_pages s
     \<and> (\<forall>q \<in> managed_pages s. \<forall>i < 1024. rd32 (slot q i) u = rd32 (slot q i) s)"
  have "\<exists>j. 0 \<le> j \<and> j \<le> n \<and> ?P j t \<and> (j < n \<longrightarrow> \<not> True)"
    unfolding t_def
  proof (rule for_lt_rule)
    show "?P 0 s" using inv by simp
    fix j u assume j: "j < n" and P: "?P j u"
    have "unat (b + j) < unat (mem_blocks s)"
      using fr(1) span_Suc(2) [OF j lim] j by (simp add: word_less_nat_alt)
    then have lt: "b + j < mem_blocks u" using P by (simp add: word_less_nat_alt)
    have "b + j \<in> span b n" "b + j \<notin> span b j"
      using span_Suc(2) [OF j lim] j by (auto simp: span_def word_less_nat_alt)
    then have nin: "b + j \<notin> used_set u" using P fr(2) by auto
    have g: "pmm_geom u" using P by (simp add: pmm_inv_def)
    show "?P (j + 1) (pmm_set_block (b + j) u)"
      using P pmm_inv_set_block [OF _ lt nin] span_Suc(1) [OF j lim] lt
        bm_addr_not_slot [OF g lt] by (auto simp: rd32_set_block)
  qed simp
  then show ?thesis by (metis order_le_less)
qed

text \<open>\<open>pmm_alloc_blocks\<close> takes the lowest run that fits, or nothing.\<close>

lemma pmm_alloc_blocks_cases:
  assumes inv: "pmm_inv s"
  obtains (null) "pmm_alloc_blocks n s = (0, s)"
  | (run) b t where "pmm_alloc_blocks n s = (b * 4096, t)" "n \<noteq> 0" "b \<noteq> 0"
      "free_run s (unat b) (unat n)" "\<forall>a < unat b. \<not> free_run s a (unat n)"
      "pmm_inv t" "used_set t = used_set s \<union> span b n" "mem_blocks t = mem_blocks s"
      "\<forall>q \<in> managed_pages s. \<forall>i < 1024. rd32 (slot q i) t = rd32 (slot q i) s"
proof -
  let ?b = "pmm_find_first_free_blocks n s"
  show thesis
  proof (cases "mem_blocks s < mem_used_blocks s + n \<or> ?b = - 1 \<or> n = 0")
    case True
    then show thesis
      by (intro null) (auto simp: pmm_alloc_blocks_def pmm_find_first_free_blocks_def Let_def)
  next
    case False
    then have n: "n \<noteq> 0" and fit: "first_fit s (unat n) ?b" using find_first_fit by blast+
    then have fr: "free_run s (unat ?b) (unat n)" "\<forall>a < unat ?b. \<not> free_run s a (unat n)"
      using False by (auto simp: first_fit_def)
    have "free_at s (unat ?b)" using fr(1) n unfolding free_run_def
      by (metis add.right_neutral unat_eq_0 bot_nat_0.not_eq_extremum)
    then have "?b \<noteq> 0" using inv by (auto simp: free_at_word pmm_inv_def used_set_def)
    then show thesis
      using False n fr set_span_loop [OF inv fr(1) n]
      by (intro run [of ?b "for_lt 0 n (\<lambda>_ _. True) (\<lambda>i. pmm_set_block (?b + i)) s"])
        (auto simp: pmm_alloc_blocks_def Let_def)
  qed
qed

text \<open>Freeing a span of used blocks other than block 0 takes exactly them back.\<close>

lemma unset_span_loop:
  assumes inv: "pmm_inv s" and used: "span b n \<subseteq> used_set s" and "0 \<notin> span b n"
    and lim: "unat b + unat n \<le> unat (mem_blocks s)"
  defines "t \<equiv> for_lt 0 n (\<lambda>i t. b + i < mem_blocks t) (\<lambda>i. pmm_unset_block (b + i)) s"
  shows "pmm_inv t \<and> used_set t = used_set s - span b n \<and> mem_blocks t = mem_blocks s
         \<and> (\<forall>q \<in> managed_pages s. \<forall>i < 1024. rd32 (slot q i) t = rd32 (slot q i) s)"
proof -
  have lim': "unat b + unat n \<le> 2 ^ 32"
    using lim unsigned_less [of "mem_blocks s", where 'a = nat] by simp
  have lt: "b + j < mem_blocks s" if "j < n" for j
    using that lim span_Suc(2) [OF that lim'] by (simp add: word_less_nat_alt)
  let ?P = "\<lambda>j u. pmm_inv u \<and> used_set u = used_set s - span b j \<and> mem_blocks u = mem_blocks s
     \<and> managed_pages u = managed_pages s
     \<and> (\<forall>q \<in> managed_pages s. \<forall>i < 1024. rd32 (slot q i) u = rd32 (slot q i) s)"
  have "\<exists>j. 0 \<le> j \<and> j \<le> n \<and> ?P j t \<and> (j < n \<longrightarrow> \<not> b + j < mem_blocks t)"
    unfolding t_def
  proof (rule for_lt_rule)
    show "?P 0 s" using inv by simp
    fix j u assume j: "j < n" and P: "?P j u"
    have "b + j \<in> span b n" "b + j \<notin> span b j"
      using span_Suc(2) [OF j lim'] j by (auto simp: span_def word_less_nat_alt)
    then have ib: "b + j \<in> used_set u" "b + j \<noteq> 0" using P used assms(3) by auto
    have g: "pmm_geom u" "b + j < mem_blocks u" using P lt [OF j] by (simp_all add: pmm_inv_def)
    show "?P (j + 1) (pmm_unset_block (b + j) u)"
      using P pmm_inv_unset_block [OF _ ib] span_Suc(1) [OF j lim']
        bm_addr_not_slot [OF g] by (auto simp: rd32_unset_block)
  qed simp
  then obtain j where "j \<le> n" "?P j t" "j < n \<longrightarrow> \<not> b + j < mem_blocks t" by blast
  then have "j = n" "?P j t" using lt by (auto simp: order_le_less)
  then show ?thesis by simp
qed

lemma pmm_free_alloc_blocks:
  assumes inv: "pmm_inv s" and alloc: "pmm_alloc_blocks n s = (p, t)" and "p \<noteq> 0"
  shows "pmm_inv (pmm_free_blocks p n t) \<and> used_set (pmm_free_blocks p n t) = used_set s"
  using inv
proof (cases rule: pmm_alloc_blocks_cases [of s n])
  case null
  then show ?thesis using alloc \<open>p \<noteq> 0\<close> by simp
next
  case (run b u)
  note fr = free_run_span [OF run(4,2)]
  have "pmm_geom s" using inv by (simp add: pmm_inv_def)
  moreover have "b < mem_blocks s"
    using fr(1) run(2) by (simp add: word_less_nat_alt unat_eq_0 [symmetric])
  ultimately have pb: "p div 4096 = b" "t = u"
    using run(1) alloc block_addr_div by auto
  have "0 \<notin> span b n" using run(3) by (simp add: span_def unat_eq_0)
  then show ?thesis
    using unset_span_loop [OF run(6), of b n] run(7,8) fr
    by (auto simp: pmm_free_blocks_def pb Let_def)
qed

subsection \<open>A full map\<close>

text \<open>With every block marked, no allocation can succeed.\<close>

lemma all_marked_no_alloc:
  assumes "\<forall>b < mem_blocks s. pmm_test_block b s"
  shows "pmm_alloc_block s = (0, s)" and "pmm_alloc_blocks n s = (0, s)"
proof -
  have "\<not> free_at s a" for a using assms by (auto elim: free_at_wordE)
  then have none: "\<not> free_run s a (unat m)" if "m \<noteq> 0" for a m
    using that unfolding free_run_def by (metis unat_eq_0 neq0_conv)
  then have "pmm_find_first_free_blocks m s = - 1" for m :: u32
    using find_first_fit [of m s]
    by (cases "m = 0") (auto simp: first_fit_def pmm_find_first_free_blocks_def)
  then show "pmm_alloc_block s = (0, s)" "pmm_alloc_blocks n s = (0, s)"
    by (simp_all add: pmm_alloc_block_def pmm_alloc_blocks_def)
qed

subsection \<open>A request fails only when no run fits\<close>

lemma card_span:
  assumes "unat b + unat n \<le> 2 ^ 32"
  shows "card (span b n) = unat n"
proof -
  have "k \<in> unat ` span b n" if "unat b \<le> k" "k < unat b + unat n" for k
  proof -
    have "unat (of_nat k :: u32) = k" using that assms by (simp add: unat_of_nat)
    then have "of_nat k \<in> span b n" using that by (simp add: span_def)
    then show ?thesis using \<open>unat (of_nat k :: u32) = k\<close> by (metis imageI)
  qed
  then have "unat ` span b n = {unat b ..< unat b + unat n}" by (auto simp: span_def)
  then have "card (unat ` span b n) = unat n" by simp
  moreover have "card (unat ` span b n) = card (span b n)"
    by (rule card_image) (simp add: inj_on_def unat_eq_iff32)
  ultimately show ?thesis by simp
qed

lemma free_run_room:
  fixes b n :: u32
  assumes inv: "pmm_inv s" and run: "free_run s (unat b) (unat n)" and "n \<noteq> 0"
  shows "mem_used_blocks s + n \<le> mem_blocks s"
proof -
  note fr = free_run_span [OF run \<open>n \<noteq> 0\<close>]
  have lim: "unat b + unat n \<le> 2 ^ 32"
    using fr(1) unsigned_less [of "mem_blocks s", where 'a = nat] by simp
  have "card (used_set s) + card (span b n) = card (used_set s \<union> span b n)"
    using fr(2) by (subst card_Un_disjoint) auto
  also have "\<dots> = card (used_set (for_lt 0 n (\<lambda>_ _. True) (\<lambda>i. pmm_set_block (b + i)) s))"
    using set_span_loop [OF inv run \<open>n \<noteq> 0\<close>] by simp
  also have "\<dots> \<le> unat (mem_blocks s)"
    using card_used_le set_span_loop [OF inv run \<open>n \<noteq> 0\<close>] by metis
  finally have "unat (mem_used_blocks s) + unat n \<le> unat (mem_blocks s)"
    using inv card_span [OF lim] by (simp add: pmm_inv_def)
  moreover from this have "unat (mem_used_blocks s + n) = unat (mem_used_blocks s) + unat n"
    using unsigned_less [of "mem_blocks s", where 'a = nat] by (simp add: unat_word_ariths(1))
  ultimately show ?thesis by (simp add: word_le_nat_alt)
qed

lemma free_run_wordE:
  fixes n :: u32
  assumes "free_run s a (unat n)" "n \<noteq> 0"
  obtains b :: u32 where "a = unat b"
proof -
  have "free_at s a"
    using assms unfolding free_run_def by (metis add.right_neutral unat_eq_0 neq0_conv)
  then show thesis using that by (auto elim: free_at_wordE)
qed

lemma pmm_alloc_blocks_finds:
  fixes n :: u32
  assumes inv: "pmm_inv s" and run: "free_run s a (unat n)" and n: "n \<noteq> 0"
  shows "fst (pmm_alloc_blocks n s) \<noteq> 0"
proof -
  obtain b :: u32 where a: "a = unat b" using free_run_wordE [OF run n] .
  let ?b = "pmm_find_first_free_blocks n s"
  have fit: "free_run s (unat ?b) (unat n)"
    using find_first_fit [OF n, of s] run by (auto simp: first_fit_def)
  have lt: "?b < mem_blocks s"
    using free_run_span(1) [OF fit n] n by (simp add: word_less_nat_alt unat_eq_0 [symmetric])
  then have "?b \<noteq> - 1"
    using word_order.extremum [of "mem_blocks s"] by (metis leD)
  moreover have "?b \<notin> used_set s"
    using free_run_span(2) [OF fit n] n by (auto simp: span_def unat_eq_0 [symmetric])
  then have "?b * 4096 \<noteq> 0"
    using inv block_addr_div [of s ?b] lt by (auto simp: pmm_inv_def)
  ultimately show ?thesis
    using free_run_room [OF inv run [unfolded a] n]
    by (simp add: pmm_alloc_blocks_def Let_def not_less)
qed

lemma unset_set_block:
  assumes "\<not> pmm_test_block b s"
  shows "pmm_unset_block b (pmm_set_block b s) = s"
proof -
  let ?w = "rd32 (bm_addr s b) s"
  have "\<not> bit ?w (unat (b mod 32))" using assms by (simp add: pmm_test_block_bit)
  then have "(?w OR bm_mask b) AND NOT (bm_mask b) = ?w"
    by (intro bit_word_eqI) (auto simp: bit_simps bit_bm_mask)
  then show ?thesis
    by (simp add: pmm_unset_block_def pmm_set_block_def rd32_def wr32_def bm_addr_def)
qed

subsection \<open>A small allocator state for the witnesses\<close>

text \<open>Eight blocks, the first four in use, the bitmap just above them.\<close>

definition sample_pmm :: pmm where
  "sample_pmm =
     \<lparr>mem = (\<lambda>a. if a = 0x8000 then 0xF else 0), klog = [], port_out = [],
      port_in = (\<lambda>_ _. 0), port_reads = (\<lambda>_. 0), interrupt_handlers = [], pmm_memory_map = 0x8000,
      pmm_memory_map_size = 1, mem_size = 0x8000, mem_blocks = 8, mem_used_blocks = 4,
      mem_max_addr = 0x8000\<rparr>"

lemma sample_blocks [simp]: "mem_blocks sample_pmm = 8"
  by (simp add: sample_pmm_def)

lemmas sample_eval = pmm_test_block_def bm_addr_def bm_mask_def rd32_def wr32_def
  pmm_set_block_def pmm_unset_block_def pmm_alloc_block_def pmm_alloc_blocks_def
  pmm_find_first_free_blocks_def find_single.simps find_run.simps sample_pmm_def

lemma word_below_8: "(b :: u32) < 8 \<Longrightarrow> b \<in> {0, 1, 2, 3, 4, 5, 6, 7}"
proof -
  assume "b < 8"
  then have "unat b < 8" by (simp add: word_less_nat_alt)
  then have "unat b \<in> {0, 1, 2, 3, 4, 5, 6, 7}" by auto
  then have "of_nat (unat b) \<in> (of_nat ` {0, 1, 2, 3, 4, 5, 6, 7} :: u32 set)" by blast
  then show ?thesis by simp
qed

lemma sample_used: "used_set sample_pmm = {0, 1, 2, 3}"
proof -
  have "pmm_test_block b sample_pmm \<longleftrightarrow> b = 0 \<or> b = 1 \<or> b = 2 \<or> b = 3" if "b < 8" for b
    using word_below_8 [OF that] by (elim insertE emptyE; simp add: sample_eval)
  then show ?thesis by (auto simp: used_set_def)
qed

lemma sample_inv: "pmm_inv sample_pmm"
  unfolding pmm_inv_def sample_used by (simp add: pmm_geom_def sample_pmm_def)

lemma sample_alloc: "fst (pmm_alloc_block sample_pmm) = 0x4000"
  by (simp add: sample_eval)

subsection \<open>Properties\<close>

text \<open>C1: \<open>pmm_alloc_block\<close> returns the lowest free block.  With an exact counter and block
  0 in use, a call either finds every block marked, returns \<open>NULL\<close> and changes nothing, or
  returns the address of the lowest unmarked block, marks exactly that block and keeps the
  invariant.\<close>

theorem pmm_alloc_block_first_fit:
  assumes "pmm_inv s" and "pmm_alloc_block s = (p, t)"
  shows "if \<forall>b < mem_blocks s. pmm_test_block b s then p = 0 \<and> t = s
    else \<exists>b. b < mem_blocks s \<and> \<not> pmm_test_block b s \<and> (\<forall>c < b. pmm_test_block c s)
           \<and> p = b * 4096 \<and> p \<noteq> 0 \<and> pmm_inv t
           \<and> mem_used_blocks t = mem_used_blocks s + 1
           \<and> (\<forall>c. pmm_test_block c t \<longleftrightarrow> c = b \<or> pmm_test_block c s)"
  using assms(1)
proof (cases rule: pmm_alloc_block_cases)
  case full
  then show ?thesis using assms(2) by (simp add: used_set_def)
next
  case (block b)
  have "pmm_geom s" using assms(1) by (simp add: pmm_inv_def)
  then have "b * 4096 \<noteq> 0" using block_addr_div [of s b] block by auto
  then show ?thesis
    using block assms(2) pmm_inv_set_block [OF assms(1) block(2,3)]
    by (auto simp: used_set_def intro!: exI [of _ b])
qed

theorem pmm_alloc_block_first_fit_witness:
  "\<exists>b. 0x4000 = b * (4096 :: u32) \<and> \<not> pmm_test_block b sample_pmm"
proof -
  have full: "\<not> (\<forall>b < mem_blocks sample_pmm. pmm_test_block b sample_pmm)"
  proof
    assume "\<forall>b < mem_blocks sample_pmm. pmm_test_block b sample_pmm"
    then have "pmm_test_block 7 sample_pmm" by simp
    then show False by (simp add: sample_eval)
  qed
  show ?thesis
    using pmm_alloc_block_first_fit
      [OF sample_inv prod.collapse [symmetric], unfolded if_not_P [OF full]] sample_alloc
    by metis
qed

text \<open>C2: \<open>pmm_alloc_blocks\<close> is a complete first-fit search for contiguous memory.  It
  returns \<open>NULL\<close> exactly when the request is empty or no run of \<open>n\<close> free blocks exists, and
  then changes nothing; otherwise it returns the lowest such run, marks exactly the run and
  keeps the invariant.\<close>

theorem pmm_alloc_blocks_contiguous:
  assumes inv: "pmm_inv s" and alloc: "pmm_alloc_blocks n s = (p, t)"
  shows "(p = 0 \<longleftrightarrow> n = 0 \<or> (\<forall>a. \<not> free_run s a (unat n))) \<and> (p = 0 \<longrightarrow> t = s)
    \<and> (p \<noteq> 0 \<longrightarrow> (\<exists>b. p = b * 4096 \<and> free_run s (unat b) (unat n)
          \<and> (\<forall>a < unat b. \<not> free_run s a (unat n))
          \<and> used_set t = used_set s \<union> span b n \<and> pmm_inv t))"
proof -
  have zero: "n = 0 \<Longrightarrow> p = 0"
    using alloc by (auto simp: pmm_alloc_blocks_def pmm_find_first_free_blocks_def split: if_splits)
  have found: "n \<noteq> 0 \<Longrightarrow> free_run s a (unat n) \<Longrightarrow> p \<noteq> 0" for a
    using pmm_alloc_blocks_finds [OF inv] alloc by (metis fst_conv)
  from inv show ?thesis
  proof (cases rule: pmm_alloc_blocks_cases [of s n])
    case null
    then show ?thesis using zero found alloc by auto
  next
    case (run b u)
    then have "p \<noteq> 0" using found by blast
    then show ?thesis using run alloc by auto
  qed
qed

theorem pmm_alloc_blocks_contiguous_witness:
  "\<exists>b. 0x4000 = b * (4096 :: u32) \<and> free_run sample_pmm (unat b) 2"
proof -
  have "fst (pmm_alloc_blocks 2 sample_pmm) = 0x4000" by (simp add: sample_eval Let_def)
  then show ?thesis
    using pmm_alloc_blocks_contiguous [OF sample_inv prod.collapse [symmetric], of 2] by auto
qed

text \<open>Freeing what was just allocated undoes the allocation.  The bitmap word, the
  counter and every other field are back to their values.\<close>

theorem pmm_free_undoes_alloc:
  assumes "pmm_inv s" and "pmm_alloc_block s = (p, t)" and "p \<noteq> 0"
  shows "pmm_free_block p t = s"
  using assms(1)
proof (cases rule: pmm_alloc_block_cases)
  case (block b)
  have "pmm_geom s" using assms(1) by (simp add: pmm_inv_def)
  then show ?thesis
    using block assms(2) block_addr_div [of s b] unset_set_block [of b s]
    by (auto simp: pmm_free_block_def used_set_def not_le)
qed (use assms in simp)

theorem pmm_free_undoes_alloc_witness:
  "pmm_free_block 0x4000 (snd (pmm_alloc_block sample_pmm)) = sample_pmm"
  using pmm_free_undoes_alloc [OF sample_inv prod.collapse [symmetric]] sample_alloc by simp

text \<open>\<open>pmm_free_blocks\<close> takes back exactly the run that \<open>pmm_alloc_blocks\<close> handed out, and
  the counter stays exact.\<close>

theorem pmm_free_blocks_undoes_alloc:
  assumes "pmm_inv s" and "pmm_alloc_blocks n s = (p, t)" and "p \<noteq> 0"
  shows "pmm_inv (pmm_free_blocks p n t) \<and> used_set (pmm_free_blocks p n t) = used_set s"
  using assms by (rule pmm_free_alloc_blocks)

theorem pmm_free_blocks_undoes_alloc_witness:
  "used_set (pmm_free_blocks 0x4000 2 (snd (pmm_alloc_blocks 2 sample_pmm))) = {0, 1, 2, 3}"
proof -
  have "fst (pmm_alloc_blocks 2 sample_pmm) = 0x4000" by (simp add: sample_eval Let_def)
  then show ?thesis
    using pmm_free_blocks_undoes_alloc [OF sample_inv prod.collapse [symmetric], of 2] sample_used
    by simp
qed

text \<open>Freeing a block that is not in use corrupts the accounting.  The bitmap does not
  change, but the counter goes down, so it no longer counts the used blocks: \<open>pmm_free_block\<close>
  has no guard against a double free.\<close>

theorem pmm_double_free_drifts:
  assumes "pmm_inv s" and "b < mem_blocks s" and "\<not> pmm_test_block b s"
  shows "used_set (pmm_free_block (b * 4096) s) = used_set s
    \<and> mem_used_blocks (pmm_free_block (b * 4096) s) = mem_used_blocks s - 1
    \<and> \<not> pmm_inv (pmm_free_block (b * 4096) s)"
proof -
  have "pmm_geom s" using assms(1) by (simp add: pmm_inv_def)
  then have eq: "pmm_free_block (b * 4096) s = pmm_unset_block b s"
    using assms(2) by (simp add: pmm_free_block_def block_addr_div not_le)
  have same: "used_set (pmm_unset_block b s) = used_set s"
    using assms(3) by (auto simp: used_set_def)
  have "mem_used_blocks s - 1 \<noteq> mem_used_blocks s" by simp
  then have "unat (mem_used_blocks s - 1) \<noteq> card (used_set s)"
    using assms(1) unfolding pmm_inv_def by (metis unat_eq_iff32)
  then show ?thesis using eq same by (simp add: pmm_inv_def)
qed

theorem pmm_double_free_drifts_witness:
  "\<not> pmm_inv (pmm_free_block 0x5000 sample_pmm)"
proof -
  have "\<not> pmm_test_block 5 sample_pmm" by (simp add: sample_eval)
  then show ?thesis using pmm_double_free_drifts [OF sample_inv, of 5] by simp
qed

end
