(* ===== verification/Page_Memory.thy ===== *)
theory Page_Memory
  imports Pmm
begin

text \<open>
  The bitmap allocator together with the kernel's own stores through the identity mapping
  is a \<open>page_memory\<close>: storing a word into a managed page, clearing it or copying into it
  changes that page only and never the bitmap.
\<close>

lemma alloc_with_room:
  assumes inv: "pmm_inv s" and less: "unat (mem_used_blocks s) < unat (mem_blocks s)"
  obtains p t where "pmm_alloc_block s = (p, t)" "p \<noteq> 0"
    "unat (mem_used_blocks t) = Suc (unat (mem_used_blocks s))" "mem_blocks t = mem_blocks s"
  using inv
proof (cases rule: pmm_alloc_block_cases)
  case full
  then show ?thesis using all_used_iff [OF inv] less by (simp add: word_less_nat_alt word_le_nat_alt)
next
  case (block b)
  have "b * 4096 \<noteq> 0" using block(1,2) block_addr_div [of s b] inv by (auto simp: pmm_inv_def)
  moreover have "unat (mem_used_blocks s + 1) = Suc (unat (mem_used_blocks s))"
    using less by (intro unat_Suc_less [of _ "mem_blocks s"]) (simp add: word_less_nat_alt)
  ultimately show ?thesis
    using that [of "b * 4096" "pmm_set_block b s"] block(5) by (simp add: pmm_set_block_def wr32_def)
qed

definition copy_page :: "u32 \<Rightarrow> (u32 \<Rightarrow> u32) \<Rightarrow> 'a machine_scheme \<Rightarrow> 'a machine_scheme" where
  "copy_page p src s = memcpy_from p src 4096 s"

lemma copy_page_word:
  assumes "page_aligned p" "page_aligned q" "i < 1024"
  shows "rd32 (slot q i) (copy_page p f s) = (if q = p then f (4 * i) else rd32 (slot q i) s)"
proof (cases "q = p")
  case True
  then show ?thesis
    using slot_in_page [OF assms(3), of p] by (simp add: copy_page_def memcpy_from_def rd32_def)
      (simp add: slot_def)
next
  case False
  then show ?thesis
    using page_dist [OF assms] by (simp add: copy_page_def memcpy_from_def rd32_def)
qed

interpretation pg: page_memory pmm_alloc_block pmm_free_block owned_pages pmm_inv rd32 managed_pages
  wr32 "\<lambda>p. memset0 p 4096" copy_page
proof unfold_locales
  fix s :: "'a pmm_scheme" and p q i v :: u32 and f :: "u32 \<Rightarrow> u32"
  assume inv: "pmm_inv s" and q: "q \<in> managed_pages s"
  note g = inv [unfolded pmm_inv_def, THEN conjunct1]
  show "pmm_inv (wr32 (slot q i) v s)" "owned_pages (wr32 (slot q i) v s) = owned_pages s"
    if "i < 1024"
  proof -
    have "((mem s)(slot q i := v)) a = mem s a" if "\<not> unat (a - q) < 4096" for a
      using that slot_in_page [OF \<open>i < 1024\<close>] by auto
    note w = wr_page_invariants [OF g q this]
    show "pmm_inv (wr32 (slot q i) v s)" "owned_pages (wr32 (slot q i) v s) = owned_pages s"
      unfolding wr32_def using w inv by (simp_all add: fun_upd_def)
  qed
  show "pmm_inv (memset0 q 4096 s)" "owned_pages (memset0 q 4096 s) = owned_pages s"
    unfolding memset0_def
    by (subst wr_page_invariants [OF g q]; (simp add: Let_def inv)?)+
  show "pmm_inv (copy_page q f s)" "owned_pages (copy_page q f s) = owned_pages s"
    unfolding copy_page_def memcpy_from_def
    by (subst wr_page_invariants [OF g q]; (simp add: inv)?)+
next
  fix s :: "'a pmm_scheme" and p q i a b v :: u32 and f :: "u32 \<Rightarrow> u32"
  show "rd32 a (wr32 b v s) = (if a = b then v else rd32 a s)" by (rule rd32_wr32)
  show "managed_pages (wr32 b v s) = managed_pages s"
    "managed_pages (memset0 p 4096 s) = managed_pages s"
    "managed_pages (copy_page p f s) = managed_pages s"
    by (simp_all add: managed_pages_def wr32_def memset0_def copy_page_def memcpy_from_def)
  assume a: "page_aligned p" "page_aligned q" "i < 1024"
  show "rd32 (slot q i) (memset0 p 4096 s) = (if q = p then 0 else rd32 (slot q i) s)"
    by (rule memset0_page_slot [OF a])
  show "rd32 (slot q i) (copy_page p f s) = (if q = p then f (4 * i) else rd32 (slot q i) s)"
    by (rule copy_page_word [OF a])
qed

end
