(* ===== verification/Buffers.thy ===== *)
theory Buffers
  imports Prelude
begin

text \<open>
  Byte buffers and packed little-endian fields.  A buffer is the function from the offset
  (from the pointer the code holds) to the byte there; \<open>put_at\<close> is \<open>memcpy\<close> into it and
  \<open>get_at\<close> reads a run of it.  What a buffer may hold is decided by its owner, so that a
  store past the end is visible as an offset beyond the allocated size.
\<close>

type_synonym buffer = "nat \<Rightarrow> u8"

definition put_at :: "nat \<Rightarrow> u8 list \<Rightarrow> buffer \<Rightarrow> buffer" where
  "put_at off bs b = (\<lambda>i. if off \<le> i \<and> i < off + length bs then bs ! (i - off) else b i)"

definition get_at :: "nat \<Rightarrow> nat \<Rightarrow> buffer \<Rightarrow> u8 list" where
  "get_at off n b = map b [off..<off + n]"

text \<open>\<open>memmove(p, p + k, n)\<close>\<close>

definition shift_down :: "nat \<Rightarrow> nat \<Rightarrow> buffer \<Rightarrow> buffer" where
  "shift_down k n b = put_at 0 (get_at k n b) b"

lemma length_get_at [simp]: "length (get_at off n b) = n"
  by (simp add: get_at_def)

lemma nth_get_at [simp]: "i < n \<Longrightarrow> get_at off n b ! i = b (off + i)"
  by (simp add: get_at_def)

lemma get_at_cong: "(\<And>i. off \<le> i \<Longrightarrow> i < off + n \<Longrightarrow> b i = c i) \<Longrightarrow> get_at off n b = get_at off n c"
  by (simp add: get_at_def)

lemma get_at_put_same [simp]: "length bs = n \<Longrightarrow> get_at off n (put_at off bs b) = bs"
  by (rule nth_equalityI) (simp_all add: put_at_def)

lemma get_at_put_apart:
  "off' + n \<le> off \<or> off + length bs \<le> off' \<Longrightarrow> get_at off' n (put_at off bs b) = get_at off' n b"
  by (rule get_at_cong) (auto simp: put_at_def)

lemma get_at_split: "get_at off (m + n) b = get_at off m b @ get_at (off + m) n b"
  unfolding get_at_def by (metis add.assoc le_add1 map_append upt_add_eq_append)

lemma get_at_0 [simp]: "get_at off 0 b = []"
  by (simp add: get_at_def)

lemma put_at_Nil [simp]: "put_at off [] b = b"
  by (auto simp: put_at_def fun_eq_iff)

lemma put_at_apply_outside [simp]: "i < off \<or> off + length bs \<le> i \<Longrightarrow> put_at off bs b i = b i"
  by (auto simp: put_at_def)

lemma get_at_append:
  assumes "length bs = n"
  shows "get_at off (k + n) (put_at (off + k) bs b) = get_at off k b @ bs"
  using assms by (simp add: get_at_split get_at_put_apart)

lemma get_at_shift_down:
  "get_at 0 n (shift_down k n b) = get_at k n b"
  by (simp add: shift_down_def)

lemma get_at_drop: "k \<le> n \<Longrightarrow> get_at (off + k) (n - k) b = drop k (get_at off n b)"
  by (simp add: get_at_def drop_map)

lemma get_at_take: "k \<le> n \<Longrightarrow> get_at off k b = take k (get_at off n b)"
  by (simp add: get_at_def take_map)

subsection \<open>Little-endian fields\<close>

definition bytes16 :: "u16 \<Rightarrow> u8 list" where
  "bytes16 w = [ucast w, ucast (drop_bit 8 w)]"

definition bytes32 :: "u32 \<Rightarrow> u8 list" where
  "bytes32 w = [ucast w, ucast (drop_bit 8 w), ucast (drop_bit 16 w), ucast (drop_bit 24 w)]"

definition word16 :: "u8 \<Rightarrow> u8 \<Rightarrow> u16" where
  "word16 lo hi = ucast lo OR push_bit 8 (ucast hi)"

definition word32 :: "u8 \<Rightarrow> u8 \<Rightarrow> u8 \<Rightarrow> u8 \<Rightarrow> u32" where
  "word32 a b c d = ucast a OR push_bit 8 (ucast b) OR push_bit 16 (ucast c) OR push_bit 24 (ucast d)"

definition get16 :: "nat \<Rightarrow> buffer \<Rightarrow> u16" where
  "get16 off b = word16 (b off) (b (off + 1))"

definition get32 :: "nat \<Rightarrow> buffer \<Rightarrow> u32" where
  "get32 off b = word32 (b off) (b (off + 1)) (b (off + 2)) (b (off + 3))"

lemma bit_u8_above: "8 \<le> n \<Longrightarrow> \<not> bit (w :: u8) n"
  by (auto dest: bit_imp_le_length)

lemma bytes16_word16 [simp]: "bytes16 (word16 lo hi) = [lo, hi]"
  unfolding bytes16_def word16_def
  by (auto intro!: bit_word_eqI simp: bit_simps bit_u8_above)

lemma word16_bytes [simp]: "word16 (ucast w) (ucast (drop_bit 8 w)) = w"
  unfolding word16_def
  by (rule bit_word_eqI) (auto simp: bit_simps)

lemma bytes32_word32 [simp]: "bytes32 (word32 a b c d) = [a, b, c, d]"
  unfolding bytes32_def word32_def
  by (auto intro!: bit_word_eqI simp: bit_simps bit_u8_above)

lemma word32_bytes [simp]:
  "word32 (ucast w) (ucast (drop_bit 8 w)) (ucast (drop_bit 16 w)) (ucast (drop_bit 24 w)) = w"
proof (rule bit_word_eqI)
  fix n
  assume "n < LENGTH(32)"
  then consider "n < 8" | "8 \<le> n" "n < 16" | "16 \<le> n" "n < 24" | "24 \<le> n" "n < 32"
    by fastforce
  then show "bit (word32 (ucast w) (ucast (drop_bit 8 w)) (ucast (drop_bit 16 w)) (ucast (drop_bit 24 w))) n
      = bit w n"
    by cases (auto simp: word32_def bit_simps)
qed

lemma length_bytes [simp]: "length (bytes16 w) = 2" "length (bytes32 v) = 4"
  by (simp_all add: bytes16_def bytes32_def)

lemma unat_word16: "unat (word16 lo hi) = unat lo + 256 * unat hi"
proof -
  have "ucast lo AND push_bit 8 (ucast hi :: u16) = (0 :: u16)"
    by (rule bit_word_eqI) (auto simp: bit_simps bit_u8_above)
  then have "word16 lo hi = ucast lo + push_bit 8 (ucast hi)"
    by (simp add: word16_def disjunctive_add_eq_or)
  moreover have "unat lo < 256" "unat hi < 256"
    using unsigned_less [of lo, where 'a = nat] unsigned_less [of hi, where 'a = nat] by simp_all
  ultimately show ?thesis
    by (simp add: push_bit_eq_mult unat_word_ariths unat_ucast_up)
qed

end
