(* ===== verification/Net.thy ===== *)
theory Net
  imports Page_Memory Buffers
begin

text \<open>
  The network core, net/net.c: the interface list, packet allocation, send and receive
  with their statistics, and the dispatch of received packets to protocol handlers.
  Interfaces and packets are structs other code holds pointers to, so they live in stores
  indexed by address (\<open>iface_at\<close>, \<open>packet_at\<close>); the blocks of packets come from the
  physical memory manager.  A fresh data buffer starts with what the flat memory holds at
  its address and is kept with its packet from then on.  Function pointers are addresses,
  0 being NULL; the functions of drivers and protocols behind them are the parameter \<open>d\<close>
  of type \<open>callees\<close>.  The loops over the interface list follow the \<open>next\<close> pointers and
  may not end: their result \<open>None\<close> is a kernel that hangs.
\<close>

subsection \<open>Data (net.h)\<close>

definition NET_MAX_PACKET_SIZE :: u32 where "NET_MAX_PACKET_SIZE = 1518"
definition NET_PROTO_NONE :: u32 where "NET_PROTO_NONE = 0"
definition NET_PROTO_ICMP :: u32 where "NET_PROTO_ICMP = 4"
definition NET_PROTO_TCP :: u32 where "NET_PROTO_TCP = 5"
definition NET_PROTO_UDP :: u32 where "NET_PROTO_UDP = 6"
definition NET_IF_TYPE_ETHERNET :: u32 where "NET_IF_TYPE_ETHERNET = 1"

datatype ipv4_addr = Addr (octet0: u8) (octet1: u8) (octet2: u8) (octet3: u8)

fun octets :: "ipv4_addr \<Rightarrow> u8 list" where
  "octets (Addr a b c e) = [a, b, c, e]"

lemma length_octets [simp]: "length (octets a) = 4"
  by (cases a) simp

text \<open>The last three fields are the ones ipv4.c, udp.c and tcp.c use; net.h does not
  declare them.\<close>

record net_packet =
  data_ptr :: u32
  pkt_data :: buffer
  pkt_length :: u32
  protocol :: u32
  priority :: u8
  private_data :: u32
  pkt_iface :: u32
  src_addr :: ipv4_addr
  dest_addr :: ipv4_addr

record net_stats =
  rx_packets :: u64
  tx_packets :: u64
  rx_bytes :: u64
  tx_bytes :: u64
  rx_errors :: u64
  tx_errors :: u64
  rx_dropped :: u64
  tx_dropped :: u64
  collisions :: u64

record net_interface =
  if_name :: string
  if_type :: u32
  if_flags :: u32
  if_mac :: "u8 list"
  mtu :: u32
  stats :: net_stats
  init_fn :: u32
  cleanup_fn :: u32
  start_fn :: u32
  stop_fn :: u32
  send_fn :: u32
  receive_fn :: u32
  set_mac_fn :: u32
  driver_data :: u32
  if_next :: u32

record net = pmm +
  interfaces :: u32
  interface_count :: u32
  protocol_handlers :: "u32 \<Rightarrow> u32"
  packet_pool :: u32
  packet_pool_size :: u32
  iface_at :: "u32 \<Rightarrow> net_interface"
  packet_at :: "u32 \<Rightarrow> net_packet"

record 's callees =
  call_init :: "u32 \<Rightarrow> u32 \<Rightarrow> 's \<Rightarrow> bool \<times> 's"
  call_cleanup :: "u32 \<Rightarrow> u32 \<Rightarrow> 's \<Rightarrow> 's"
  call_start :: "u32 \<Rightarrow> u32 \<Rightarrow> 's \<Rightarrow> bool \<times> 's"
  call_stop :: "u32 \<Rightarrow> u32 \<Rightarrow> 's \<Rightarrow> 's"
  call_send :: "u32 \<Rightarrow> u32 \<Rightarrow> u32 \<Rightarrow> 's \<Rightarrow> bool \<times> 's"
  call_receive :: "u32 \<Rightarrow> u32 \<Rightarrow> 's \<Rightarrow> u32 \<times> 's"
  call_set_mac :: "u32 \<Rightarrow> u32 \<Rightarrow> u8 list \<Rightarrow> 's \<Rightarrow> bool \<times> 's"
  call_handler :: "u32 \<Rightarrow> u32 \<Rightarrow> u32 \<Rightarrow> 's \<Rightarrow> 's"

definition set_iface :: "u32 \<Rightarrow> (net_interface \<Rightarrow> net_interface) \<Rightarrow> 'a net_scheme \<Rightarrow> 'a net_scheme" where
  "set_iface i f s = s\<lparr>iface_at := (iface_at s)(i := f (iface_at s i))\<rparr>"

definition set_packet :: "u32 \<Rightarrow> (net_packet \<Rightarrow> net_packet) \<Rightarrow> 'a net_scheme \<Rightarrow> 'a net_scheme" where
  "set_packet p f s = s\<lparr>packet_at := (packet_at s)(p := f (packet_at s p))\<rparr>"

definition upd_stats :: "(net_stats \<Rightarrow> net_stats) \<Rightarrow> net_interface \<Rightarrow> net_interface" where
  "upd_stats f i = i\<lparr>stats := f (stats i)\<rparr>"

subsection \<open>Start and end\<close>

definition clear_net_state :: "'a net_scheme \<Rightarrow> 'a net_scheme" where
  "clear_net_state s =
     s\<lparr>interfaces := 0, interface_count := 0, protocol_handlers := (\<lambda>_. 0), packet_pool := 0,
       packet_pool_size := 0\<rparr>"

definition net_init :: "'a net_scheme \<Rightarrow> 'a net_scheme" where
  "net_init s =
     (let s1 = (clear_net_state s)\<lparr>packet_pool_size := 65536\<rparr>;
          (pool, s2) = pmm_alloc_blocks (packet_pool_size s1 div 4096) s1;
          s3 = s2\<lparr>packet_pool := pool\<rparr>
      in if pool = 0 then kprint (Puts (''NET: Failed to allocate packet pool'' @ newline)) s3
         else kprint (Puts (''NET: Network subsystem initialized'' @ newline)) s3)"

partial_function (option) cleanup_ifaces ::
  "'a net_scheme callees \<Rightarrow> u32 \<Rightarrow> 'a net_scheme \<Rightarrow> 'a net_scheme option"
where
  "cleanup_ifaces d iface s =
     (if iface = 0 then Some s
      else let next = if_next (iface_at s iface);
               c = cleanup_fn (iface_at s iface)
           in cleanup_ifaces d next (if c \<noteq> 0 then call_cleanup d c iface s else s))"

definition net_cleanup :: "'a net_scheme callees \<Rightarrow> 'a net_scheme \<Rightarrow> 'a net_scheme option" where
  "net_cleanup d s =
     (case cleanup_ifaces d (interfaces s) s of
        None \<Rightarrow> None
      | Some s1 \<Rightarrow>
          let s2 = (if packet_pool s1 \<noteq> 0
                    then pmm_free_blocks (packet_pool s1) (packet_pool_size s1 div 4096) s1 else s1)
          in Some (clear_net_state s2))"

subsection \<open>The interface list\<close>

text \<open>\<open>while (last->next) last = last->next\<close>\<close>

partial_function (option) last_iface :: "u32 \<Rightarrow> 'a net_scheme \<Rightarrow> u32 option" where
  "last_iface i s = (if if_next (iface_at s i) \<noteq> 0 then last_iface (if_next (iface_at s i)) s else Some i)"

definition net_register_interface ::
  "'a net_scheme callees \<Rightarrow> u32 \<Rightarrow> 'a net_scheme \<Rightarrow> (bool \<times> 'a net_scheme) option"
where
  "net_register_interface d iface s =
     (let i = iface_at s iface in
      if iface = 0 \<or> init_fn i = 0 \<or> send_fn i = 0 \<or> receive_fn i = 0 then Some (False, s)
      else case call_init d (init_fn i) iface s of (ok, s1) \<Rightarrow>
        if \<not> ok then Some (False, s1)
        else
          let linked = (if interfaces s1 = 0 then Some (s1\<lparr>interfaces := iface\<rparr>)
                        else map_option (\<lambda>last. set_iface last (if_next_update (\<lambda>_. iface)) s1)
                               (last_iface (interfaces s1) s1))
          in map_option (\<lambda>s2.
               let s3 = s2\<lparr>interface_count := interface_count s2 + 1\<rparr>;
                   s4 = kprint (Puts ''NET: Registered interface '') s3;
                   s5 = kprint (Puts (if_name (iface_at s4 iface))) s4
               in (True, kprint (Puts newline) s5)) linked)"

text \<open>\<open>while (prev && prev->next != iface) prev = prev->next\<close>\<close>

partial_function (option) prev_iface :: "u32 \<Rightarrow> u32 \<Rightarrow> 'a net_scheme \<Rightarrow> u32 option" where
  "prev_iface prev iface s =
     (if prev \<noteq> 0 \<and> if_next (iface_at s prev) \<noteq> iface
      then prev_iface (if_next (iface_at s prev)) iface s else Some prev)"

definition net_unregister_interface ::
  "'a net_scheme callees \<Rightarrow> u32 \<Rightarrow> 'a net_scheme \<Rightarrow> 'a net_scheme option"
where
  "net_unregister_interface d iface s =
     (if iface = 0 then Some s
      else
        let unlinked =
              (if interfaces s = iface then Some (s\<lparr>interfaces := if_next (iface_at s iface)\<rparr>)
               else map_option (\<lambda>prev.
                      if prev \<noteq> 0
                      then set_iface prev (if_next_update (\<lambda>_. if_next (iface_at s iface))) s else s)
                    (prev_iface (interfaces s) iface s))
        in map_option (\<lambda>s1.
             let c = cleanup_fn (iface_at s1 iface);
                 s2 = (if c \<noteq> 0 then call_cleanup d c iface s1 else s1)
             in s2\<lparr>interface_count := interface_count s2 - 1\<rparr>) unlinked)"

partial_function (option) iface_by_name :: "u32 \<Rightarrow> string \<Rightarrow> 'a net_scheme \<Rightarrow> u32 option" where
  "iface_by_name iface name s =
     (if iface = 0 then Some 0
      else if if_name (iface_at s iface) = name then Some iface
      else iface_by_name (if_next (iface_at s iface)) name s)"

definition net_get_interface :: "string \<Rightarrow> 'a net_scheme \<Rightarrow> u32 option" where
  "net_get_interface name s = iface_by_name (interfaces s) name s"

text \<open>\<open>while (index-- > 0 && iface) iface = iface->next\<close>\<close>

fun iface_at_index :: "nat \<Rightarrow> u32 \<Rightarrow> 'a net_scheme \<Rightarrow> u32" where
  "iface_at_index 0 iface s = iface"
| "iface_at_index (Suc n) iface s =
     (if iface = 0 then iface else iface_at_index n (if_next (iface_at s iface)) s)"

definition net_get_interface_by_index :: "u32 \<Rightarrow> 'a net_scheme \<Rightarrow> u32" where
  "net_get_interface_by_index index s =
     (if interface_count s \<le> index then 0 else iface_at_index (unat index) (interfaces s) s)"

definition net_get_interface_count :: "'a net_scheme \<Rightarrow> u32" where
  "net_get_interface_count s = interface_count s"

subsection \<open>Packets\<close>

definition net_alloc_packet :: "u32 \<Rightarrow> 'a net_scheme \<Rightarrow> u32 \<times> 'a net_scheme" where
  "net_alloc_packet sz s =
     (if NET_MAX_PACKET_SIZE < sz then (0, s)
      else case pmm_alloc_block s of (packet, s1) \<Rightarrow>
        if packet = 0 then (0, s1)
        else case pmm_alloc_blocks ((sz + 4096 - 1) div 4096) s1 of (data, s2) \<Rightarrow>
          let s3 = set_packet packet (\<lambda>p. p\<lparr>data_ptr := data,
                     pkt_data := (\<lambda>i. get_byte (data + of_nat i) s2)\<rparr>) s2
          in if data = 0 then (0, pmm_free_block packet s3)
             else (packet, set_packet packet (\<lambda>p. p\<lparr>pkt_length := sz, protocol := NET_PROTO_NONE,
                     priority := 0, private_data := 0\<rparr>) s3))"

definition net_free_packet :: "u32 \<Rightarrow> 'a net_scheme \<Rightarrow> 'a net_scheme" where
  "net_free_packet packet s =
     (if packet = 0 then s
      else let p = packet_at s packet;
               s1 = (if data_ptr p \<noteq> 0
                     then pmm_free_blocks (data_ptr p) ((pkt_length p + 4096 - 1) div 4096) s else s)
           in pmm_free_block packet s1)"

definition net_send_packet ::
  "'a net_scheme callees \<Rightarrow> u32 \<Rightarrow> u32 \<Rightarrow> 'a net_scheme \<Rightarrow> bool \<times> 'a net_scheme"
where
  "net_send_packet d iface packet s =
     (if iface = 0 \<or> packet = 0 \<or> send_fn (iface_at s iface) = 0 then (False, s)
      else
        let s1 = set_iface iface (upd_stats (\<lambda>st. st\<lparr>tx_packets := tx_packets st + 1,
                   tx_bytes := tx_bytes st + ucast (pkt_length (packet_at s packet))\<rparr>)) s;
            (success, s2) = call_send d (send_fn (iface_at s1 iface)) iface packet s1
        in if success then (True, s2)
           else (False, set_iface iface (upd_stats (\<lambda>st. st\<lparr>tx_errors := tx_errors st + 1\<rparr>)) s2))"

definition net_receive_packet ::
  "'a net_scheme callees \<Rightarrow> u32 \<Rightarrow> 'a net_scheme \<Rightarrow> u32 \<times> 'a net_scheme"
where
  "net_receive_packet d iface s =
     (if iface = 0 \<or> receive_fn (iface_at s iface) = 0 then (0, s)
      else case call_receive d (receive_fn (iface_at s iface)) iface s of (packet, s1) \<Rightarrow>
        (packet,
         if packet \<noteq> 0
         then set_iface iface (upd_stats (\<lambda>st. st\<lparr>rx_packets := rx_packets st + 1,
                rx_bytes := rx_bytes st + ucast (pkt_length (packet_at s1 packet))\<rparr>)) s1
         else s1))"

subsection \<open>Protocol handlers\<close>

definition net_register_protocol_handler :: "u32 \<Rightarrow> u32 \<Rightarrow> 'a net_scheme \<Rightarrow> bool \<times> 'a net_scheme" where
  "net_register_protocol_handler proto handler s =
     (if 16 \<le> proto then (False, s)
      else (True, s\<lparr>protocol_handlers := (protocol_handlers s)(proto := handler)\<rparr>))"

definition net_unregister_protocol_handler :: "u32 \<Rightarrow> 'a net_scheme \<Rightarrow> 'a net_scheme" where
  "net_unregister_protocol_handler proto s =
     (if proto < 16 then s\<lparr>protocol_handlers := (protocol_handlers s)(proto := 0)\<rparr> else s)"

text \<open>One turn of the receive loop.\<close>

definition poll :: "'a net_scheme callees \<Rightarrow> u32 \<Rightarrow> 'a net_scheme \<Rightarrow> 'a net_scheme" where
  "poll d iface s =
     (case net_receive_packet d iface s of (packet, s1) \<Rightarrow>
        if packet = 0 then s1
        else let proto = protocol (packet_at s1 packet) in
          if proto < 16 \<and> protocol_handlers s1 proto \<noteq> 0
          then call_handler d (protocol_handlers s1 proto) iface packet s1
          else net_free_packet packet s1)"

partial_function (option) rx_loop ::
  "'a net_scheme callees \<Rightarrow> u32 \<Rightarrow> 'a net_scheme \<Rightarrow> 'a net_scheme option"
where
  "rx_loop d iface s =
     (if iface = 0 then Some s
      else let s1 = poll d iface s in rx_loop d (if_next (iface_at s1 iface)) s1)"

definition net_process_rx_queue :: "'a net_scheme callees \<Rightarrow> 'a net_scheme \<Rightarrow> 'a net_scheme option" where
  "net_process_rx_queue d s = rx_loop d (interfaces s) s"

definition net_process_tx_queue :: "'a net_scheme \<Rightarrow> 'a net_scheme" where
  "net_process_tx_queue s = s"

definition net_update :: "'a net_scheme callees \<Rightarrow> 'a net_scheme \<Rightarrow> 'a net_scheme option" where
  "net_update d s = map_option net_process_tx_queue (net_process_rx_queue d s)"

end
