(* ===== verification/Linked_List.thy ===== *)
theory Linked_List
  imports Prelude
begin

text \<open>
  Singly linked lists of structs: \<open>linked next p ps\<close> holds when following \<open>next\<close> from the
  pointer \<open>p\<close> meets exactly the addresses \<open>ps\<close> and ends in NULL.
\<close>

fun linked :: "(u32 \<Rightarrow> u32) \<Rightarrow> u32 \<Rightarrow> u32 list \<Rightarrow> bool" where
  "linked next p [] \<longleftrightarrow> p = 0"
| "linked next p (q # qs) \<longleftrightarrow> p = q \<and> q \<noteq> 0 \<and> linked next (next q) qs"

lemma linked_cong: "(\<And>q. q \<in> set ps \<Longrightarrow> f q = g q) \<Longrightarrow> linked f p ps = linked g p ps"
  by (induction ps arbitrary: p) auto

lemma linked_null [simp]: "linked next 0 ps \<longleftrightarrow> ps = []"
  by (cases ps) auto

lemma linked_nonzero: "linked next p ps \<Longrightarrow> 0 \<notin> set ps"
  by (induction ps arbitrary: p) auto

lemma linked_unique: "linked next p ps \<Longrightarrow> linked next p qs \<Longrightarrow> ps = qs"
proof (induction ps arbitrary: p qs)
  case (Cons a ps)
  then show ?case by (cases qs) auto
qed auto

lemma linked_suffix: "linked next p (xs @ q # ys) \<Longrightarrow> linked next q (q # ys)"
  by (induction xs arbitrary: p) auto

text \<open>No address occurs twice: the rest of the list is determined by its first address.\<close>

lemma linked_distinct: "linked next p ps \<Longrightarrow> distinct ps"
proof (induction ps arbitrary: p)
  case (Cons a ps)
  have "a \<notin> set ps"
  proof
    assume "a \<in> set ps"
    then obtain xs ys where ps: "ps = xs @ a # ys" by (meson split_list)
    have "linked next a (a # ps)" using Cons.prems by simp
    moreover have "linked next a (a # ys)"
      using Cons.prems ps linked_suffix [of "next" p "a # xs" a ys] by simp
    ultimately have "a # ps = a # ys" by (rule linked_unique)
    then show False using ps by simp
  qed
  then show ?case using Cons by auto
qed simp

lemma linked_last: "linked next p ps \<Longrightarrow> ps \<noteq> [] \<Longrightarrow> next (last ps) = 0"
  by (induction ps arbitrary: p) (auto split: if_splits)

text \<open>Linking a further struct behind the last one.\<close>

lemma linked_snoc:
  assumes "linked next p ps" "ps \<noteq> []" "i \<notin> set ps" "i \<noteq> 0" "next i = 0"
  shows "linked (next(last ps := i)) p (ps @ [i])"
  using assms linked_distinct [OF assms(1)]
proof (induction ps arbitrary: p)
  case (Cons a ps)
  then show ?case by (cases "ps = []") auto
qed simp

text \<open>Taking one out.\<close>

lemma linked_unlink:
  "linked next p (xs @ a # q # ys) \<Longrightarrow> linked (next(a := next q)) p (xs @ a # ys)"
proof (induction xs arbitrary: p)
  case Nil
  then have d: "a \<notin> set (q # ys)" using linked_distinct [OF Nil] by simp
  have "linked next (next q) ys" using Nil by simp
  moreover have "linked (next(a := next q)) (next q) ys = linked next (next q) ys"
    by (rule linked_cong) (use d in auto)
  ultimately show ?case using Nil d by (simp add: fun_upd_def)
next
  case (Cons b xs)
  have "b \<noteq> a" using linked_distinct [OF Cons.prems] by auto
  then show ?case using Cons by auto
qed

end
