(* ===== verification/Net_Dispatch.thy ===== *)
theory Net_Dispatch
  imports Net Linked_List
begin

text \<open>
  Properties of the network core: what the allocator calls of the packet functions leave
  alone, the interface list as a list of addresses, and the receive loop over it.
\<close>

subsection \<open>Allocator calls touch the memory and the block count only\<close>

definition mem_only :: "'a pmm_scheme \<Rightarrow> 'a pmm_scheme \<Rightarrow> bool" where
  "mem_only s t \<longleftrightarrow> (\<exists>m u. t = s\<lparr>mem := m, mem_used_blocks := u\<rparr>)"

lemma mem_only_refl [simp]: "mem_only s s"
  unfolding mem_only_def by (rule exI [of _ "mem s"], rule exI [of _ "mem_used_blocks s"]) simp

lemma mem_only_trans: "mem_only s t \<Longrightarrow> mem_only t u \<Longrightarrow> mem_only s u"
  by (clarsimp simp: mem_only_def) blast

lemma mem_only_blocks [simp]: "mem_only s (pmm_set_block b s)" "mem_only s (pmm_unset_block b s)"
  by (auto simp: mem_only_def pmm_set_block_def pmm_unset_block_def wr32_def Let_def)

lemma mem_only_loop:
  assumes "\<And>i t. mem_only t (body i t)"
  shows "mem_only s (for_lt i n g body s)"
proof (rule for_lt_invariant [where P = "mem_only s"])
  show "mem_only s (body j t)" if "mem_only s t" for j t
    by (rule mem_only_trans [OF that assms])
qed simp

lemma mem_only_pmm [simp]:
  "mem_only s (snd (pmm_alloc_block s))" "mem_only s (pmm_free_block p s)"
  "mem_only s (snd (pmm_alloc_blocks n s))" "mem_only s (pmm_free_blocks p n s)"
  by (simp_all add: pmm_alloc_block_def pmm_free_block_def pmm_alloc_blocks_def
      pmm_free_blocks_def mem_only_loop Let_def)

lemma mem_only_net:
  fixes s :: "'a net_scheme"
  assumes "mem_only s t"
  shows "iface_at t = iface_at s" "packet_at t = packet_at s" "interfaces t = interfaces s"
    and "interface_count t = interface_count s" "protocol_handlers t = protocol_handlers s"
    and "klog t = klog s"
  using assms by (auto simp: mem_only_def)

lemmas net_frame = mem_only_pmm [THEN mem_only_net(1)] mem_only_pmm [THEN mem_only_net(2)]
  mem_only_pmm [THEN mem_only_net(3)] mem_only_pmm [THEN mem_only_net(4)]
  mem_only_pmm [THEN mem_only_net(5)]

subsection \<open>The interface list\<close>

abbreviation next_of :: "'a net_scheme \<Rightarrow> u32 \<Rightarrow> u32" where
  "next_of s i \<equiv> if_next (iface_at s i)"

text \<open>Code of drivers and handlers that leaves the registered interfaces linked as they are.\<close>

definition links_kept :: "'a net_scheme \<Rightarrow> 'a net_scheme \<Rightarrow> bool" where
  "links_kept s t \<longleftrightarrow> interfaces t = interfaces s \<and> next_of t = next_of s"

definition polite :: "'a net_scheme callees \<Rightarrow> bool" where
  "polite d \<longleftrightarrow> (\<forall>f i s. links_kept s (snd (call_receive d f i s)))
     \<and> (\<forall>f i p s. links_kept s (call_handler d f i p s))"

lemma links_kept_refl [simp]: "links_kept s s"
  by (simp add: links_kept_def)

lemma links_kept_trans: "links_kept s t \<Longrightarrow> links_kept t u \<Longrightarrow> links_kept s u"
  by (simp add: links_kept_def)

lemma links_kept_stats [simp]: "links_kept s (set_iface i (upd_stats f) t) = links_kept s t"
proof -
  have "next_of (set_iface i (upd_stats f) t) = next_of t"
    by (simp add: set_iface_def upd_stats_def fun_eq_iff)
  then show ?thesis by (simp add: links_kept_def set_iface_def)
qed

lemma links_kept_free [simp]: "links_kept s (net_free_packet p s)"
  by (simp add: links_kept_def net_free_packet_def Let_def net_frame)

lemma links_kept_poll:
  assumes "polite d"
  shows "links_kept s (poll d i s)"
proof -
  obtain p t where r: "net_receive_packet d i s = (p, t)" by fastforce
  have "links_kept s (snd (net_receive_packet d i s))"
    using assms by (auto simp: net_receive_packet_def polite_def split: prod.split) (metis snd_conv)+
  then have t: "links_kept s t" using r by simp
  have "links_kept t (call_handler d f i p t)" for f using assms by (simp add: polite_def)
  then show ?thesis
    using links_kept_trans [OF t] t by (simp add: poll_def r Let_def)
qed

lemma rx_loop_linked:
  assumes "polite d" "links_kept s t" "linked (next_of s) i ps"
  shows "rx_loop d i t = Some (fold (poll d) ps t)"
  using assms(2,3)
proof (induction ps arbitrary: i t)
  case Nil
  then show ?case by (subst rx_loop.simps) simp
next
  case (Cons a ps)
  have k: "links_kept s (poll d a t)"
    using Cons.prems(1) links_kept_poll [OF assms(1)] links_kept_trans by blast
  then have "linked (next_of s) (next_of (poll d a t) a) ps"
    using Cons.prems(2) by (simp add: links_kept_def fun_eq_iff)
  with Cons.IH [OF k] show ?case
    using Cons.prems(2) by (subst rx_loop.simps) (simp add: Let_def)
qed

text \<open>On a struct that is its own successor the loop does not end.\<close>

lemma rx_loop_self:
  assumes "rx_loop d i t = Some u"
  shows "\<not> (polite d \<and> i \<noteq> 0 \<and> next_of t i = i)"
proof (rule rx_loop.raw_induct [where P = "\<lambda>d i t u. \<not> (polite d \<and> i \<noteq> 0 \<and> next_of t i = i)",
      OF _ assms])
  fix loop :: "'a net_scheme callees \<Rightarrow> u32 \<Rightarrow> 'a net_scheme \<Rightarrow> 'a net_scheme option" and d i t u
  assume 1: "\<And>d i t u. loop d i t = Some u \<Longrightarrow> \<not> (polite d \<and> i \<noteq> 0 \<and> next_of t i = i)"
    "(if i = 0 then Some t
      else let s1 = poll d i t in loop d (next_of s1 i) s1) = Some u"
  show "\<not> (polite d \<and> i \<noteq> 0 \<and> next_of t i = i)"
  proof
    assume a: "polite d \<and> i \<noteq> 0 \<and> next_of t i = i"
    then have n: "next_of (poll d i t) i = i"
      using links_kept_poll [of d t i] by (simp add: links_kept_def fun_eq_iff)
    then have "loop d i (poll d i t) = Some u" using 1(2) a by (simp add: Let_def)
    with 1(1) a n show False by blast
  qed
qed

lemma last_iface_linked:
  assumes "linked (next_of s) i ps" "ps \<noteq> []"
  shows "last_iface i s = Some (last ps)"
  using assms
proof (induction ps arbitrary: i)
  case (Cons a ps)
  then show ?case by (cases ps) (subst last_iface.simps, auto)+
qed simp

text \<open>What registering does once the driver's own initialisation has succeeded.\<close>

lemma register_success:
  fixes s :: "'a net_scheme"
  assumes "linked (next_of t) (interfaces t) ps" "ps \<noteq> []" "i \<noteq> 0"
    and "init_fn (iface_at s i) \<noteq> 0" "send_fn (iface_at s i) \<noteq> 0" "receive_fn (iface_at s i) \<noteq> 0"
    and "call_init d (init_fn (iface_at s i)) i s = (True, t)"
  obtains u where "net_register_interface d i s = Some (True, u)"
    and "next_of u = (next_of t)(last ps := i)" "interfaces u = interfaces t"
    and "interface_count u = interface_count t + 1"
proof -
  have "interfaces t \<noteq> 0" using assms(1,2) by (cases ps) auto
  then have "\<exists>u. net_register_interface d i s = Some (True, u)
      \<and> next_of u = (next_of t)(last ps := i) \<and> interfaces u = interfaces t
      \<and> interface_count u = interface_count t + 1"
    using assms(3-7) last_iface_linked [OF assms(1,2)]
    by (simp add: net_register_interface_def Let_def kprint_def set_iface_def fun_eq_iff)
  then show thesis using that by blast
qed

subsection \<open>A driver that accepts everything\<close>

definition sample_iface :: net_interface where
  "sample_iface = \<lparr>if_name = ''eth0'', if_type = NET_IF_TYPE_ETHERNET, if_flags = 0,
     if_mac = [2, 0, 0, 0, 0, 1], mtu = 1500,
     stats = \<lparr>rx_packets = 0, tx_packets = 0, rx_bytes = 0, tx_bytes = 0, rx_errors = 0,
       tx_errors = 0, rx_dropped = 0, tx_dropped = 0, collisions = 0\<rparr>,
     init_fn = 1, cleanup_fn = 0, start_fn = 0, stop_fn = 0, send_fn = 2, receive_fn = 3,
     set_mac_fn = 0, driver_data = 0, if_next = 0\<rparr>"

definition sample_callees :: "'s callees" where
  "sample_callees = \<lparr>call_init = (\<lambda>_ _ s. (True, s)), call_cleanup = (\<lambda>_ _ s. s),
     call_start = (\<lambda>_ _ s. (True, s)), call_stop = (\<lambda>_ _ s. s), call_send = (\<lambda>_ _ _ s. (True, s)),
     call_receive = (\<lambda>_ _ s. (0, s)), call_set_mac = (\<lambda>_ _ _ s. (True, s)),
     call_handler = (\<lambda>_ _ _ s. s)\<rparr>"

definition sample_packet :: net_packet where
  "sample_packet = \<lparr>data_ptr = 0, pkt_data = (\<lambda>_. 0), pkt_length = 0, protocol = 0, priority = 0,
     private_data = 0, pkt_iface = 0, src_addr = Addr 0 0 0 0, dest_addr = Addr 0 0 0 0\<rparr>"

text \<open>32 blocks, the first four in use, one interface at 0x100, and whatever a protocol
  adds to the state.\<close>

definition sample_state :: "'a \<Rightarrow> 'a net_scheme" where
  "sample_state x =
     \<lparr>mem = (\<lambda>a. if a = 0x20000 then 0xF else 0), klog = [], port_out = [],
      port_in = (\<lambda>_ _. 0), port_reads = (\<lambda>_. 0), interrupt_handlers = [], pmm_memory_map = 0x20000,
      pmm_memory_map_size = 1, mem_size = 0x20000, mem_blocks = 32, mem_used_blocks = 4,
      mem_max_addr = 0x20000, interfaces = 0x100, interface_count = 1, protocol_handlers = (\<lambda>_. 0),
      packet_pool = 0, packet_pool_size = 0, iface_at = (\<lambda>_. sample_iface),
      packet_at = (\<lambda>_. sample_packet), \<dots> = x\<rparr>"

lemma sample_state_test: "b < 32 \<Longrightarrow> pmm_test_block b (sample_state x) \<longleftrightarrow> b < 4"
proof -
  assume "b < 32"
  then have "b div 32 = 0" "unat (b mod 32) = unat b"
    by (simp_all add: word_less_nat_alt unat_mod flip: unat_eq_0 add: unat_div)
  moreover have "bit (0xF :: u32) n \<longleftrightarrow> n < 4" for n
    unfolding mask_consts(1) bit_mask_iff by auto
  ultimately show ?thesis
    unfolding pmm_test_block_bit
    by (simp add: bm_addr_def rd32_def sample_state_def word_less_nat_alt)
qed

lemma sample_state_used: "used_set (sample_state x) = {0, 1, 2, 3}"
proof -
  have "b < 4 \<longleftrightarrow> b \<in> {0, 1, 2, 3}" for b :: u32
  proof
    assume "b < 4"
    then have "unat b < 4" by (simp add: word_less_nat_alt)
    then have "unat b \<in> {0, 1, 2, 3}" by auto
    then have "(of_nat (unat b) :: u32) \<in> of_nat ` {0, 1, 2, 3}" by blast
    then show "b \<in> {0, 1, 2, 3}" by simp
  qed auto
  moreover have "b < 32" if "b < 4" for b :: u32 using that by (simp add: word_less_nat_alt)
  moreover have "mem_blocks (sample_state x) = 32" by (simp add: sample_state_def)
  ultimately show ?thesis using sample_state_test [of _ x] by (auto simp: used_set_def)
qed

lemma sample_state_inv: "pmm_inv (sample_state x)"
  unfolding pmm_inv_def sample_state_used by (simp add: pmm_geom_def sample_state_def)

definition sample_net :: net where
  "sample_net = sample_state ()"

lemma sample_net_fields [simp]:
  "interfaces sample_net = 0x100" "iface_at sample_net = (\<lambda>_. sample_iface)"
  by (simp_all add: sample_net_def sample_state_def)

lemma sample_polite: "polite sample_callees"
  by (simp add: polite_def sample_callees_def)

subsection \<open>Properties\<close>

text \<open>The receive loop polls every registered interface once, in list order.  When the
  drivers and protocol handlers leave the interface list as it is, processing the receive
  queue returns, and its effect is that of receiving and dispatching one packet per
  interface from the first to the last; the list is unchanged.\<close>

theorem net_rx_polls_each_interface:
  assumes "polite d" and "linked (\<lambda>i. if_next (iface_at s i)) (interfaces s) ps"
  shows "net_update d s = Some (fold (poll d) ps s)
    \<and> links_kept s (fold (poll d) ps s)"
proof -
  have "links_kept t (fold (poll d) qs t)" for t qs
  proof (induction qs arbitrary: t)
    case (Cons a qs)
    then show ?case using links_kept_poll [OF assms(1), of t a] links_kept_trans by (metis fold_simps(2))
  qed simp
  then show ?thesis
    using rx_loop_linked [OF assms(1) links_kept_refl assms(2)]
    by (simp add: net_update_def net_process_rx_queue_def net_process_tx_queue_def option.map_ident)
qed

theorem net_rx_polls_each_interface_witness:
  "net_update sample_callees sample_net = Some (poll sample_callees 0x100 sample_net)"
  using net_rx_polls_each_interface [OF sample_polite, where s = sample_net and ps = "[0x100]"]
  by (simp add: sample_iface_def)

text \<open>An interface registered again after it has become the last of the list makes the
  kernel hang.  The second registration succeeds and links the interface to itself; the
  next update of the network never returns, whatever the drivers and handlers do that
  keep the list.\<close>

theorem net_double_register_hangs:
  assumes "polite d" and "interfaces s = i" and "i \<noteq> 0" and "if_next (iface_at s i) = 0"
    and "init_fn (iface_at s i) \<noteq> 0" and "send_fn (iface_at s i) \<noteq> 0" and "receive_fn (iface_at s i) \<noteq> 0"
    and "call_init d (init_fn (iface_at s i)) i s = (True, t)" and "links_kept s t"
  shows "\<exists>u. net_register_interface d i s = Some (True, u)
    \<and> if_next (iface_at u i) = i \<and> net_update d u = None"
proof -
  have "linked (next_of t) (interfaces t) [i]"
    using assms by (simp add: links_kept_def fun_eq_iff)
  then obtain u where u: "net_register_interface d i s = Some (True, u)"
      "next_of u = (next_of t)(last [i] := i)" "interfaces u = interfaces t"
    using register_success assms by blast
  have "next_of u i = i" using u(2) by (simp add: fun_eq_iff)
  moreover have "interfaces u = i" using u(3) assms by (simp add: links_kept_def)
  ultimately have "rx_loop d (interfaces u) u = None"
    using rx_loop_self [of d i u] assms(1,3) by (metis not_None_eq)
  then show ?thesis
    using u \<open>next_of u i = i\<close> by (simp add: net_update_def net_process_rx_queue_def)
qed

theorem net_double_register_hangs_witness:
  "\<exists>u. net_register_interface sample_callees 0x100 sample_net = Some (True, u)
    \<and> net_update sample_callees u = None"
  using net_double_register_hangs [OF sample_polite, where s = sample_net and i = "0x100" and t = sample_net]
  by (auto simp: sample_iface_def sample_callees_def)

end
