(* ===== verification/Checksum.thy ===== *)
theory Checksum
  imports Buffers
begin

text \<open>
  The Internet checksum as the network code computes it in three places: \<open>ipv4_checksum\<close>
  and \<open>ipv4_pseudo_checksum\<close> (net/ipv4.c), \<open>tcp_checksum\<close> (net/tcp.c) and \<open>udp_checksum\<close>
  (net/udp.c).  Data is read as little-endian 16-bit words, an odd last byte is added as it
  is, and the 32-bit acc wraps around.
\<close>

subsection \<open>The code\<close>

text \<open>\<open>while (length > 1) sum += *ptr++\<close>, and the left-over byte.\<close>

fun sum_words :: "u32 \<Rightarrow> u8 list \<Rightarrow> u32" where
  "sum_words acc [] = acc"
| "sum_words acc [b] = acc + ucast b"
| "sum_words acc (lo # hi # rest) = sum_words (acc + ucast (word16 lo hi)) rest"

lemma fold_decreases:
  fixes s :: u32
  assumes "drop_bit 16 s \<noteq> 0"
  shows "unat ((s AND 0xFFFF) + drop_bit 16 s) < unat s"
    and "unat ((s AND 0xFFFF) + drop_bit 16 s) = unat s mod 65536 + unat s div 65536"
proof -
  have parts: "unat (s AND 0xFFFF) = unat s mod 65536" "unat (drop_bit 16 s) = unat s div 65536"
    by (simp_all add: mask_consts drop_bit_eq_div unat_div take_bit_eq_mod unat_mod
        flip: take_bit_eq_mask)
  moreover have "unat s < 2 ^ 32" using unsigned_less [of s, where 'a = nat] by simp
  ultimately show eq: "unat ((s AND 0xFFFF) + drop_bit 16 s) = unat s mod 65536 + unat s div 65536"
    by (subst unat_add_small) (simp_all, presburger?)
  have "unat s div 65536 \<noteq> 0" using assms parts(2) by (metis unat_eq_0)
  then have "unat s div 65536 < 65536 * (unat s div 65536)" by simp
  then have "unat s mod 65536 + unat s div 65536 < unat s mod 65536 + 65536 * (unat s div 65536)"
    by (rule add_strict_left_mono)
  then have "unat s mod 65536 + unat s div 65536 < unat s" by (simp only: mod_mult_div_eq)
  with eq show "unat ((s AND 0xFFFF) + drop_bit 16 s) < unat s" by simp
qed

text \<open>\<open>while (sum >> 16) sum = (sum & 0xFFFF) + (sum >> 16)\<close>\<close>

function fold_carries :: "u32 \<Rightarrow> u32" where
  "fold_carries acc =
     (if drop_bit 16 acc \<noteq> 0 then fold_carries ((acc AND 0xFFFF) + drop_bit 16 acc) else acc)"
  by pat_completeness auto
termination
  by (relation "measure unat") (use fold_decreases in auto)

declare fold_carries.simps [simp del]

definition ipv4_checksum :: "u8 list \<Rightarrow> u16" where
  "ipv4_checksum data = ucast (NOT (fold_carries (sum_words 0 data)))"

text \<open>The packed pseudo header; its length field is 16 bits wide.\<close>

record ipv4_pseudo_header =
  ph_src :: "u8 list"
  ph_dest :: "u8 list"
  ph_zero :: u8
  ph_protocol :: u8
  ph_length :: u16

definition pseudo_bytes :: "ipv4_pseudo_header \<Rightarrow> u8 list" where
  "pseudo_bytes h = ph_src h @ ph_dest h @ [ph_zero h, ph_protocol h] @ bytes16 (ph_length h)"

definition ipv4_pseudo_checksum :: "ipv4_pseudo_header \<Rightarrow> u8 list \<Rightarrow> u16" where
  "ipv4_pseudo_checksum h data =
     ucast (NOT (fold_carries (sum_words (sum_words 0 (pseudo_bytes h)) data)))"

text \<open>\<open>for (i = 0; i < words; i++) sum += ptr[i]\<close>\<close>

definition add_words :: "nat \<Rightarrow> u8 list \<Rightarrow> u32 \<Rightarrow> u32" where
  "add_words words data acc =
     fold (\<lambda>i acc. acc + ucast (word16 (data ! (2 * i)) (data ! (2 * i + 1)))) [0..<words] acc"

definition add_odd_byte :: "u8 list \<Rightarrow> u32 \<Rightarrow> u32" where
  "add_odd_byte data acc = (if odd (length data) then acc + ucast (data ! (length data - 1)) else acc)"

definition tcp_checksum :: "u8 list \<Rightarrow> u8 list \<Rightarrow> u8 list \<Rightarrow> u16" where
  "tcp_checksum src dest segment =
     (let ph = src @ dest @ [0, 6] @ bytes16 (of_nat (length segment));
          acc = add_words 6 ph 0;
          acc = add_words (length segment div 2) segment acc;
          acc = add_odd_byte segment acc
      in ucast (NOT (fold_carries acc)))"

definition udp_checksum :: "u8 list \<Rightarrow> u8 list \<Rightarrow> u8 list \<Rightarrow> u16" where
  "udp_checksum src dest datagram =
     (let ph = src @ dest @ [0, 17] @ bytes16 (of_nat (length datagram));
          acc = add_words 6 ph 0;
          acc = add_words (length datagram div 2) datagram acc;
          acc = add_odd_byte datagram acc
      in ucast (NOT (fold_carries acc)))"

subsection \<open>The ones' complement sum\<close>

text \<open>The sum of the words as a number, and its residue with \<open>0xFFFF\<close> as the non-zero
  representative of zero.\<close>

fun word_sum :: "u8 list \<Rightarrow> nat" where
  "word_sum [] = 0"
| "word_sum [b] = unat b"
| "word_sum (lo # hi # rest) = unat lo + 256 * unat hi + word_sum rest"

definition ones_sum :: "nat \<Rightarrow> nat" where
  "ones_sum n = (if n = 0 then 0 else (n - 1) mod 65535 + 1)"

lemma ones_sum_small: "n < 65536 \<Longrightarrow> ones_sum n = n"
  by (simp add: ones_sum_def)

lemma ones_sum_fold:
  assumes "n div 65536 \<noteq> 0"
  shows "ones_sum (n mod 65536 + n div 65536) = ones_sum n"
proof -
  let ?q = "n div 65536" and ?r = "n mod 65536"
  have "n = 65536 * ?q + ?r" by simp
  then have "n - 1 = (?r + ?q - 1) + 65535 * ?q" using assms by linarith
  then have "(n - 1) mod 65535 = (?r + ?q - 1) mod 65535" by (simp only: mod_mult_self2)
  moreover have "n \<noteq> 0" using assms by auto
  ultimately show ?thesis using assms by (simp add: ones_sum_def del: div_greater_zero_iff)
qed

lemma unat_fold_carries: "unat (fold_carries s) = ones_sum (unat s)"
proof (induction s rule: fold_carries.induct)
  case (1 s)
  show ?case
  proof (cases "drop_bit 16 s \<noteq> 0")
    case True
    have "unat s div 65536 \<noteq> 0"
      using True by (simp add: drop_bit_eq_div unat_div flip: unat_eq_0)
    then show ?thesis
      using "1.IH" [OF True] fold_decreases(2) [OF True] True ones_sum_fold
      by (subst fold_carries.simps) simp
  next
    case False
    then have "unat s div 65536 = 0" by (simp add: drop_bit_eq_div unat_div flip: unat_eq_0)
    then have "unat s < 65536" by (simp add: div_eq_0_iff)
    then show ?thesis using False by (subst fold_carries.simps) (simp add: ones_sum_small)
  qed
qed

lemma ones_sum_le: "ones_sum n \<le> 65535"
  by (simp add: ones_sum_def Suc_le_eq)

lemma word_sum_le: "word_sum bs \<le> 65535 * ((length bs + 1) div 2)"
proof (induction bs rule: word_sum.induct)
  case (2 b)
  show ?case using unsigned_less [of b, where 'a = nat] by simp
next
  case (3 lo hi rest)
  then show ?case
    using unsigned_less [of lo, where 'a = nat] unsigned_less [of hi, where 'a = nat] by simp
qed simp

lemma unat_sum_words:
  "unat acc + word_sum bs < 2 ^ 32 \<Longrightarrow> unat (sum_words acc bs) = unat acc + word_sum bs"
proof (induction acc bs rule: sum_words.induct)
  case (2 acc b)
  then show ?case by (simp add: unat_add_small unat_ucast_up)
next
  case (3 acc lo hi rest)
  have "unat (acc + ucast (word16 lo hi)) = unat acc + (unat lo + 256 * unat hi)"
    using "3.prems" by (simp add: unat_add_small unat_ucast_up unat_word16)
  then show ?case using 3 by simp
qed simp

lemma sum_words_add: "sum_words (a + b) bs = a + sum_words b bs"
  by (induction b bs rule: sum_words.induct) (simp_all add: add.assoc)

lemma sum_words_append:
  "even (length xs) \<Longrightarrow> sum_words acc (xs @ ys) = sum_words (sum_words acc xs) ys"
  by (induction acc xs rule: sum_words.induct) simp_all

lemma word_sum_append: "even (length xs) \<Longrightarrow> word_sum (xs @ ys) = word_sum xs + word_sum ys"
  by (induction xs rule: word_sum.induct) simp_all

lemma not_minus_1: "NOT w = - 1 - (w :: 'a::len word)"
  by (simp add: not_eq_complement)

lemma unat_not_ucast:
  fixes x :: u32
  assumes "unat x \<le> 65535"
  shows "unat (ucast (NOT x) :: u16) = 65535 - unat x"
proof -
  have "(ucast (NOT x) :: u16) = NOT (ucast x)"
    by (rule bit_word_eqI) (simp add: bit_simps)
  moreover have "unat (ucast x :: u16) = unat x"
    using assms by (simp add: unsigned_ucast_eq take_bit_nat_eq_self)
  ultimately show ?thesis
    using unat_sub_small [of "ucast x :: u16" "- 1"]
    by (simp add: not_minus_1 unsigned_minus_1_eq_mask mask_eq_exp_minus_1)
qed

lemma unat_ipv4_checksum:
  assumes "length bs \<le> 131070"
  shows "unat (ipv4_checksum bs) = 65535 - ones_sum (word_sum bs)"
proof -
  have "word_sum bs \<le> 65535 * 65535"
  proof (rule order.trans [OF word_sum_le mult_le_mono2])
    show "(length bs + 1) div 2 \<le> 65535" using assms by linarith
  qed
  then have "unat (sum_words 0 bs) = word_sum bs" by (simp add: unat_sum_words)
  then show ?thesis
    using ones_sum_le by (simp add: ipv4_checksum_def unat_not_ucast unat_fold_carries)
qed

lemma ones_sum_complement: "ones_sum (n + (65535 - ones_sum n)) = 65535"
proof (cases "n = 0")
  case False
  define k where "k = (n - 1) div 65535"
  have "n - 1 = 65535 * k + (n - 1) mod 65535" by (simp add: k_def)
  then have "n + (65535 - ones_sum n) = 65535 * k + 65535"
    using False ones_sum_le [of n] by (simp add: ones_sum_def)
  then have "n + (65535 - ones_sum n) - 1 = 65534 + 65535 * k" by simp
  then have "(n + (65535 - ones_sum n) - 1) mod 65535 = 65534" by (simp only: mod_mult_self2) simp
  then show ?thesis using False by (simp add: ones_sum_def)
qed (simp add: ones_sum_def)

lemma ones_sum_top: "ones_sum n = 65535 \<longleftrightarrow> n \<noteq> 0 \<and> 65535 dvd n"
proof (cases n)
  case (Suc m)
  have "m mod 65535 = 65534 \<longleftrightarrow> Suc m mod 65535 = 0" by (auto simp: mod_Suc)
  then show ?thesis using Suc by (auto simp: ones_sum_def mod_eq_0_iff_dvd)
qed (simp add: ones_sum_def)

lemma word_sum_bytes16 [simp]: "word_sum (bytes16 w @ ys) = unat w + word_sum ys"
  using unat_word16 [of "ucast w" "ucast (drop_bit 8 w)"] by (simp add: bytes16_def)

lemma add_words_take:
  "2 * n \<le> length data \<Longrightarrow> add_words n data acc = sum_words acc (take (2 * n) data)"
proof (induction n)
  case (Suc n)
  have "take (2 * Suc n) data = take (2 * n) data @ [data ! (2 * n), data ! (2 * n + 1)]"
    using Suc.prems by (simp add: take_Suc_conv_app_nth)
  moreover have "even (length (take (2 * n) data))" using Suc.prems by simp
  ultimately show ?case
    using Suc by (simp add: add_words_def sum_words_append)
qed (simp add: add_words_def)

lemma add_words_odd:
  "add_odd_byte data (add_words (length data div 2) data acc) = sum_words acc data"
proof (cases "odd (length data)")
  case True
  then obtain n where n: "length data = Suc (2 * n)" by (auto elim: oddE)
  then have "data = take (2 * n) data @ [data ! (2 * n)]"
    by (metis lessI order_refl take_Suc_conv_app_nth take_all)
  then have "sum_words acc data = sum_words acc (take (2 * n) data) + ucast (data ! (2 * n))"
    using sum_words_append [of "take (2 * n) data" acc "[data ! (2 * n)]"] n by simp
  then show ?thesis using True n add_words_take [of n data acc] by (simp add: add_odd_byte_def)
next
  case False
  then show ?thesis using add_words_take [of "length data div 2" data acc] by (simp add: add_odd_byte_def)
qed

subsection \<open>Properties\<close>

text \<open>C36: the header checksum is the complement of the ones' complement sum of the 16-bit
  words, whatever the 32-bit accumulation and the folding loop do in between, for every
  input whose sum cannot wrap the accumulator (up to 131070 bytes).  Consequently a block
  with the computed checksum stored at a word boundary always checks to zero, and any
  other value of that word, apart from the two representations of zero, does not.\<close>

theorem ipv4_checksum_ones_complement:
  assumes "even (length xs)" and "length xs + 2 + length ys \<le> 131070"
  shows "unat (ipv4_checksum (xs @ ys)) = 65535 - ones_sum (word_sum xs + word_sum ys)
    \<and> ipv4_checksum (xs @ bytes16 (ipv4_checksum (xs @ [0, 0] @ ys)) @ ys) = 0
    \<and> (ipv4_checksum (xs @ bytes16 w @ ys) = 0
         \<longleftrightarrow> word_sum xs + unat w + word_sum ys \<noteq> 0 \<and> 65535 dvd word_sum xs + unat w + word_sum ys)"
proof -
  have sums: "word_sum (xs @ ys) = word_sum xs + word_sum ys"
      "word_sum (xs @ [0, 0] @ ys) = word_sum xs + word_sum ys"
      "word_sum (xs @ bytes16 v @ ys) = word_sum xs + word_sum ys + unat v" for v
    using assms(1) by (simp_all add: word_sum_append)
  have chk: "unat (ipv4_checksum (xs @ bytes16 v @ ys)) = 65535 - ones_sum (word_sum xs + word_sum ys + unat v)" for v
    using assms(2) sums(3) by (subst unat_ipv4_checksum) simp_all
  have zero: "ipv4_checksum (xs @ bytes16 v @ ys) = 0
      \<longleftrightarrow> ones_sum (word_sum xs + word_sum ys + unat v) = 65535" for v
    using chk [of v] ones_sum_le [of "word_sum xs + word_sum ys + unat v"]
    by (metis diff_diff_cancel diff_self_eq_0 diff_zero unat_eq_0)
  have c: "unat (ipv4_checksum (xs @ [0, 0] @ ys)) = 65535 - ones_sum (word_sum xs + word_sum ys)"
    using assms(2) sums(2) by (subst unat_ipv4_checksum) simp_all
  have "ipv4_checksum (xs @ bytes16 (ipv4_checksum (xs @ [0, 0] @ ys)) @ ys) = 0"
    unfolding zero c by (rule ones_sum_complement)
  moreover have "ipv4_checksum (xs @ bytes16 w @ ys) = 0
      \<longleftrightarrow> word_sum xs + unat w + word_sum ys \<noteq> 0 \<and> 65535 dvd word_sum xs + unat w + word_sum ys"
    unfolding zero ones_sum_top by (simp add: ac_simps)
  ultimately show ?thesis
    using unat_ipv4_checksum [of "xs @ ys"] sums(1) assms(2) by simp
qed

theorem ipv4_checksum_ones_complement_witness:
  "unat (ipv4_checksum [0x45, 0, 0x54, 0, 0x12, 0x34]) = 0xCB54
    \<and> ipv4_checksum ([0x45, 0] @ bytes16 0xCBA8 @ [0x12, 0x34]) = 0"
  using ipv4_checksum_ones_complement [of "[0x45, 0]" "[0x54, 0, 0x12, 0x34]"]
    ipv4_checksum_ones_complement [of "[0x45, 0]" "[0x12, 0x34]" "0xCBA8"]
  by (simp add: ones_sum_def)

text \<open>The three checksum routines of the transport layers agree: \<open>tcp_checksum\<close> and
  \<open>udp_checksum\<close> on a segment compute what \<open>ipv4_pseudo_checksum\<close> computes on the pseudo
  header of that protocol and the segment, for every length, odd ones and ones beyond
  16 bits included.\<close>

theorem transport_checksums_agree:
  assumes "length src = 4" and "length dest = 4"
  shows "tcp_checksum src dest data = ipv4_pseudo_checksum
      \<lparr>ph_src = src, ph_dest = dest, ph_zero = 0, ph_protocol = 6, ph_length = of_nat (length data)\<rparr> data
    \<and> udp_checksum src dest data = ipv4_pseudo_checksum
      \<lparr>ph_src = src, ph_dest = dest, ph_zero = 0, ph_protocol = 17, ph_length = of_nat (length data)\<rparr> data"
proof -
  have "add_words 6 (src @ dest @ [0, p] @ bytes16 n) 0 = sum_words 0 (src @ dest @ [0, p] @ bytes16 n)"
    for p n using assms by (subst add_words_take) simp_all
  then show ?thesis
    by (simp add: tcp_checksum_def udp_checksum_def ipv4_pseudo_checksum_def pseudo_bytes_def
        Let_def add_words_odd)
qed

theorem transport_checksums_agree_witness:
  "tcp_checksum [10, 0, 0, 1] [10, 0, 0, 2] [1, 2, 3] = ipv4_pseudo_checksum
      \<lparr>ph_src = [10, 0, 0, 1], ph_dest = [10, 0, 0, 2], ph_zero = 0, ph_protocol = 6, ph_length = 3\<rparr> [1, 2, 3]"
  using transport_checksums_agree [of "[10, 0, 0, 1]" "[10, 0, 0, 2]" "[1, 2, 3]"] by simp

end
