(* ===== verification/Ipv4.thy ===== *)
theory Ipv4
  imports Net_Dispatch Checksum
begin

text \<open>
  IPv4, net/ipv4.c: routes, interface configuration, sending, fragmentation, reassembly,
  reception and forwarding.  Headers are records read from and written to the packed
  little-endian bytes of a packet; the code stores its multi-byte fields in host order.
  The routing table is the list of its nodes with their addresses.  Results of type
  \<open>option\<close>: \<open>None\<close> is a store outside an object, a division by zero or a loop that does
  not end, as said at each definition.
\<close>

subsection \<open>Data (ipv4.h)\<close>

definition IPV4_FLAG_DONT_FRAGMENT :: u16 where "IPV4_FLAG_DONT_FRAGMENT = 0x4000"
definition IPV4_FLAG_MORE_FRAGMENTS :: u16 where "IPV4_FLAG_MORE_FRAGMENTS = 0x2000"
definition IPV4_FRAGMENT_OFFSET_MASK :: u16 where "IPV4_FRAGMENT_OFFSET_MASK = 0x1FFF"
definition IPV4_TTL_DEFAULT :: u8 where "IPV4_TTL_DEFAULT = 64"
definition IPV4_HEADER_LEN :: u32 where "IPV4_HEADER_LEN = 20"
definition IPV4_PROTO_ICMP :: u8 where "IPV4_PROTO_ICMP = 1"
definition IPV4_PROTO_TCP :: u8 where "IPV4_PROTO_TCP = 6"
definition IPV4_PROTO_UDP :: u8 where "IPV4_PROTO_UDP = 17"
definition MAX_FRAGMENTS :: nat where "MAX_FRAGMENTS = 64"

record ipv4_header =
  version_ihl :: u8
  tos :: u8
  total_length :: u16
  hdr_id :: u16
  flags_offset :: u16
  ttl :: u8
  hdr_protocol :: u8
  hdr_checksum :: u16
  hdr_src :: ipv4_addr
  hdr_dest :: ipv4_addr

definition header_bytes :: "ipv4_header \<Rightarrow> u8 list" where
  "header_bytes h =
     [version_ihl h, tos h] @ bytes16 (total_length h) @ bytes16 (hdr_id h) @ bytes16 (flags_offset h)
     @ [ttl h, hdr_protocol h] @ bytes16 (hdr_checksum h) @ octets (hdr_src h) @ octets (hdr_dest h)"

definition get_addr :: "nat \<Rightarrow> buffer \<Rightarrow> ipv4_addr" where
  "get_addr off b = Addr (b off) (b (off + 1)) (b (off + 2)) (b (off + 3))"

definition get_header :: "buffer \<Rightarrow> ipv4_header" where
  "get_header b =
     \<lparr>version_ihl = b 0, tos = b 1, total_length = get16 2 b, hdr_id = get16 4 b,
      flags_offset = get16 6 b, ttl = b 8, hdr_protocol = b 9, hdr_checksum = get16 10 b,
      hdr_src = get_addr 12 b, hdr_dest = get_addr 16 b\<rparr>"

definition put_header :: "ipv4_header \<Rightarrow> buffer \<Rightarrow> buffer" where
  "put_header h b = put_at 0 (header_bytes h) b"

record ipv4_route =
  network :: ipv4_addr
  netmask :: ipv4_addr
  gateway :: ipv4_addr
  route_iface :: u32
  metric :: u32

record ipv4_config =
  cfg_addr :: ipv4_addr
  cfg_netmask :: ipv4_addr
  cfg_broadcast :: ipv4_addr
  cfg_gateway :: ipv4_addr
  dhcp_enabled :: bool
  dhcp_lease_time :: u32

record ipv4_stats =
  packets_received :: u64
  packets_sent :: u64
  bytes_received :: u64
  bytes_sent :: u64
  packets_forwarded :: u64
  packets_dropped :: u64
  fragments_received :: u64
  fragments_reassembled :: u64
  reassembly_failures :: u64
  fragments_sent :: u64
  fragmentation_failures :: u64

record reassembly_buffer =
  rb_id :: u16
  rb_src :: ipv4_addr
  rb_dest :: ipv4_addr
  rb_protocol :: u8
  timestamp :: u32
  rb_total_length :: u16
  rb_data :: u32
  rb_bytes :: buffer
  fragments :: "nat \<Rightarrow> bool"
  fragment_count :: u8

record ipv4 = net +
  routes :: "(u32 \<times> ipv4_route) list"
  ip_stats :: ipv4_stats
  ip_id :: u16
  reassembly_buffers :: "nat \<Rightarrow> reassembly_buffer"
  config_at :: "u32 \<Rightarrow> ipv4_config"

definition no_stats :: ipv4_stats where
  "no_stats = \<lparr>packets_received = 0, packets_sent = 0, bytes_received = 0, bytes_sent = 0,
     packets_forwarded = 0, packets_dropped = 0, fragments_received = 0, fragments_reassembled = 0,
     reassembly_failures = 0, fragments_sent = 0, fragmentation_failures = 0\<rparr>"

definition no_buffer :: reassembly_buffer where
  "no_buffer = \<lparr>rb_id = 0, rb_src = Addr 0 0 0 0, rb_dest = Addr 0 0 0 0, rb_protocol = 0,
     timestamp = 0, rb_total_length = 0, rb_data = 0, rb_bytes = (\<lambda>_. 0), fragments = (\<lambda>_. False),
     fragment_count = 0\<rparr>"

text \<open>The counters the code increments one at a time.\<close>

definition drop_packet :: "'a ipv4_scheme \<Rightarrow> 'a ipv4_scheme" where
  "drop_packet s = s\<lparr>ip_stats := (ip_stats s)\<lparr>packets_dropped := packets_dropped (ip_stats s) + 1\<rparr>\<rparr>"

definition reassembly_failed :: "'a ipv4_scheme \<Rightarrow> 'a ipv4_scheme" where
  "reassembly_failed s =
     s\<lparr>ip_stats := (ip_stats s)\<lparr>reassembly_failures := reassembly_failures (ip_stats s) + 1\<rparr>\<rparr>"

subsection \<open>Addresses\<close>

definition ipv4_addr_equals :: "ipv4_addr \<Rightarrow> ipv4_addr \<Rightarrow> bool" where
  "ipv4_addr_equals a b \<longleftrightarrow> octets a = octets b"

lemma octets_inj [simp]: "octets a = octets b \<longleftrightarrow> a = b"
  by (cases a; cases b) simp

lemma ipv4_addr_equals_eq [simp]: "ipv4_addr_equals a b \<longleftrightarrow> a = b"
  by (simp add: ipv4_addr_equals_def)

definition ipv4_addr_is_broadcast :: "ipv4_addr \<Rightarrow> ipv4_addr \<Rightarrow> bool" where
  "ipv4_addr_is_broadcast addr nmask \<longleftrightarrow>
     (\<forall>i \<in> {0..<4}. octets addr ! i AND octets nmask ! i = 0xFF AND NOT (octets nmask ! i))"

definition ipv4_addr_is_multicast :: "ipv4_addr \<Rightarrow> bool" where
  "ipv4_addr_is_multicast addr \<longleftrightarrow> 224 \<le> octet0 addr \<and> octet0 addr \<le> 239"

subsection \<open>Routes\<close>

definition route_matches :: "ipv4_addr \<Rightarrow> ipv4_route \<Rightarrow> bool" where
  "route_matches dest r \<longleftrightarrow>
     (\<forall>i \<in> {0..<4}. octets dest ! i AND octets (netmask r) ! i = octets (network r) ! i)"

text \<open>Walk past the nodes with a metric not above the new one, and link it there.\<close>

fun insert_route :: "u32 \<times> ipv4_route \<Rightarrow> (u32 \<times> ipv4_route) list \<Rightarrow> (u32 \<times> ipv4_route) list" where
  "insert_route n [] = [n]"
| "insert_route n (r # rs) =
     (if metric (snd r) \<le> metric (snd n) then r # insert_route n rs else n # r # rs)"

definition ipv4_add_route ::
  "ipv4_addr \<Rightarrow> ipv4_addr \<Rightarrow> ipv4_addr option \<Rightarrow> u32 \<Rightarrow> u32 \<Rightarrow> 'a ipv4_scheme \<Rightarrow> bool \<times> 'a ipv4_scheme"
where
  "ipv4_add_route net_addr nmask gw iface m s =
     (if iface = 0 then (False, s)
      else case pmm_alloc_blocks 1 s of (route, s1) \<Rightarrow>
        if route = 0 then (False, s1)
        else
          let r = \<lparr>network = net_addr, netmask = nmask,
                   gateway = (case gw of None \<Rightarrow> Addr 0 0 0 0 | Some g \<Rightarrow> g),
                   route_iface = iface, metric = m\<rparr>
          in (True, s1\<lparr>routes := insert_route (route, r) (routes s1)\<rparr>))"

text \<open>The first node with that network and mask, and the list without it.\<close>

fun take_route :: "ipv4_addr \<Rightarrow> ipv4_addr \<Rightarrow> (u32 \<times> ipv4_route) list
  \<Rightarrow> (u32 \<times> (u32 \<times> ipv4_route) list) option" where
  "take_route n m [] = None"
| "take_route n m ((p, r) # rs) =
     (if ipv4_addr_equals (network r) n \<and> ipv4_addr_equals (netmask r) m then Some (p, rs)
      else map_option (\<lambda>(q, rs'). (q, (p, r) # rs')) (take_route n m rs))"

definition ipv4_remove_route ::
  "ipv4_addr \<Rightarrow> ipv4_addr \<Rightarrow> 'a ipv4_scheme \<Rightarrow> bool \<times> 'a ipv4_scheme"
where
  "ipv4_remove_route n m s =
     (case take_route n m (routes s) of
        None \<Rightarrow> (False, s)
      | Some (p, rs) \<Rightarrow> (True, pmm_free_blocks p 1 (s\<lparr>routes := rs\<rparr>)))"

fun best_route ::
  "ipv4_addr \<Rightarrow> (u32 \<times> ipv4_route) option \<Rightarrow> (u32 \<times> ipv4_route) list \<Rightarrow> (u32 \<times> ipv4_route) option"
where
  "best_route dest best [] = best"
| "best_route dest best (r # rs) =
     best_route dest
       (if route_matches dest (snd r)
            \<and> (case best of None \<Rightarrow> True | Some b \<Rightarrow> metric (snd r) < metric (snd b))
        then Some r else best) rs"

definition ipv4_find_route :: "ipv4_addr \<Rightarrow> 'a ipv4_scheme \<Rightarrow> (u32 \<times> ipv4_route) option" where
  "ipv4_find_route dest s = best_route dest None (routes s)"

definition ipv4_flush_routes :: "'a ipv4_scheme \<Rightarrow> 'a ipv4_scheme" where
  "ipv4_flush_routes s =
     fold (\<lambda>(p, r) t. pmm_free_blocks p 1 (t\<lparr>routes := tl (routes t)\<rparr>)) (routes s) s"

subsection \<open>Interface configuration\<close>

definition ipv4_configure_interface ::
  "u32 \<Rightarrow> ipv4_config \<Rightarrow> 'a ipv4_scheme \<Rightarrow> bool \<times> 'a ipv4_scheme"
where
  "ipv4_configure_interface iface config s =
     (if iface = 0 then (False, s)
      else case pmm_alloc_blocks 1 s of (cfg, s1) \<Rightarrow>
        if cfg = 0 then (False, s1)
        else (True, set_iface iface (driver_data_update (\<lambda>_. cfg))
                      (s1\<lparr>config_at := (config_at s1)(cfg := config)\<rparr>)))"

definition ipv4_get_interface_config :: "u32 \<Rightarrow> 'a ipv4_scheme \<Rightarrow> ipv4_config option" where
  "ipv4_get_interface_config iface s =
     (if iface = 0 \<or> driver_data (iface_at s iface) = 0 then None
      else Some (config_at s (driver_data (iface_at s iface))))"

text \<open>\<open>None\<close>: the interface list has no end.\<close>

partial_function (option) local_loop :: "u32 \<Rightarrow> ipv4_addr \<Rightarrow> 'a ipv4_scheme \<Rightarrow> bool option" where
  "local_loop iface addr s =
     (if iface = 0 then Some False
      else if (case ipv4_get_interface_config iface s of
                 None \<Rightarrow> False | Some c \<Rightarrow> ipv4_addr_equals addr (cfg_addr c))
      then Some True
      else local_loop (if_next (iface_at s iface)) addr s)"

definition ipv4_addr_is_local :: "ipv4_addr \<Rightarrow> 'a ipv4_scheme \<Rightarrow> bool option" where
  "ipv4_addr_is_local addr s = local_loop (net_get_interface_by_index 0 s) addr s"

subsection \<open>Start and end\<close>

definition ipv4_init :: "'a ipv4_scheme \<Rightarrow> 'a ipv4_scheme" where
  "ipv4_init s =
     kprint (Puts (''IPv4: Protocol initialized'' @ newline))
       (s\<lparr>routes := [], ip_stats := no_stats, ip_id := 0, reassembly_buffers := (\<lambda>_. no_buffer)\<rparr>)"

definition ipv4_cleanup :: "'a ipv4_scheme \<Rightarrow> 'a ipv4_scheme" where
  "ipv4_cleanup s =
     fold (\<lambda>i t. let b = reassembly_buffers t i in
             if rb_data b \<noteq> 0
             then pmm_free_blocks (rb_data b) ((ucast (rb_total_length b) + 4096 - 1) div 4096) t
             else t)
       [0..<MAX_FRAGMENTS] (ipv4_flush_routes s)"

subsection \<open>Fragmentation\<close>

text \<open>The header of fragment \<open>i\<close> at byte \<open>offset\<close> of the data.\<close>

definition fragment_header :: "ipv4_header \<Rightarrow> bool \<Rightarrow> u16 \<Rightarrow> u16 \<Rightarrow> ipv4_header" where
  "fragment_header h mf offset frag_size =
     (let h1 = h\<lparr>flags_offset := (if mf then (offset div 8) OR IPV4_FLAG_MORE_FRAGMENTS else offset div 8)\<rparr>;
          h2 = h1\<lparr>total_length := 20 + frag_size, hdr_checksum := 0\<rparr>
      in h2\<lparr>hdr_checksum := ipv4_checksum (header_bytes h2)\<rparr>)"

function fragment_loop ::
  "'a ipv4_scheme callees \<Rightarrow> u32 \<Rightarrow> u16 \<Rightarrow> u16 \<Rightarrow> u16 \<Rightarrow> u16 \<Rightarrow> u16 \<Rightarrow> 'a ipv4_scheme
    \<Rightarrow> bool \<times> 'a ipv4_scheme"
where
  "fragment_loop d packet num max_data data_len i offset s =
     (if i < num
      then
        let frag_size = (if i = num - 1 then data_len - offset else max_data)
        in case net_alloc_packet (IPV4_HEADER_LEN + ucast frag_size) s of (frag, s1) \<Rightarrow>
          if frag = 0 then (False, s1)
          else
            let orig = pkt_data (packet_at s1 packet);
                h = fragment_header (get_header orig) (i < num - 1) offset frag_size;
                s2 = set_packet frag (\<lambda>p. p\<lparr>pkt_data := put_header h
                       (put_at 20 (get_at (20 + unat offset) (unat frag_size) orig) (pkt_data p))\<rparr>) s1
            in case net_send_packet d (pkt_iface (packet_at s2 packet)) frag s2 of (sent, s3) \<Rightarrow>
              if sent then fragment_loop d packet num max_data data_len (i + 1) (offset + frag_size) s3
              else (False, net_free_packet frag s3)
      else (True, s))"
  by pat_completeness auto
termination
  by (relation "measure (\<lambda>(d, packet, num, max_data, data_len, i, offset, s). unat num - unat i)")
    (auto intro: unat_diff_Suc_less)

declare fragment_loop.simps [simp del]

text \<open>\<open>None\<close>: the division by a \<open>max_data\<close> of zero.\<close>

definition ipv4_fragment_packet ::
  "'a ipv4_scheme callees \<Rightarrow> u32 \<Rightarrow> u16 \<Rightarrow> 'a ipv4_scheme \<Rightarrow> (bool \<times> 'a ipv4_scheme) option"
where
  "ipv4_fragment_packet d packet max_unit s =
     (let h = get_header (pkt_data (packet_at s packet)) in
      if flags_offset h AND IPV4_FLAG_DONT_FRAGMENT \<noteq> 0 then Some (False, s)
      else
        let max_data = ucast ((ucast max_unit - IPV4_HEADER_LEN) AND NOT 7) :: u16;
            data_len = ucast (pkt_length (packet_at s packet) - IPV4_HEADER_LEN) :: u16
        in if max_data = 0 then None
           else
             let num = ucast (((ucast data_len + ucast max_data - 1) :: u32) div ucast max_data) :: u16
             in Some (fragment_loop d packet num max_data data_len 0 0 s))"

subsection \<open>Reassembly\<close>

definition set_rb :: "nat \<Rightarrow> (reassembly_buffer \<Rightarrow> reassembly_buffer) \<Rightarrow> 'a ipv4_scheme \<Rightarrow> 'a ipv4_scheme" where
  "set_rb i f s = s\<lparr>reassembly_buffers := (reassembly_buffers s)(i := f (reassembly_buffers s i))\<rparr>"

definition rb_for :: "ipv4_header \<Rightarrow> 'a ipv4_scheme \<Rightarrow> nat option" where
  "rb_for h s = find (\<lambda>i. let b = reassembly_buffers s i in
       rb_data b \<noteq> 0 \<and> rb_id b = hdr_id h \<and> ipv4_addr_equals (rb_src b) (hdr_src h)
       \<and> ipv4_addr_equals (rb_dest b) (hdr_dest h)) [0..<MAX_FRAGMENTS]"

text \<open>The buffer of the datagram, taken and initialised if there is none; \<open>Inl\<close> is the
  early return without one.\<close>

definition rb_take :: "ipv4_header \<Rightarrow> 'a ipv4_scheme \<Rightarrow> 'a ipv4_scheme + nat \<times> 'a ipv4_scheme" where
  "rb_take h s =
     (case rb_for h s of
        Some i \<Rightarrow> Inr (i, s)
      | None \<Rightarrow>
          (case find (\<lambda>i. rb_data (reassembly_buffers s i) = 0) [0..<MAX_FRAGMENTS] of
             None \<Rightarrow> Inl (reassembly_failed s)
           | Some i \<Rightarrow>
               let s1 = set_rb i (\<lambda>b. b\<lparr>rb_id := hdr_id h, rb_src := hdr_src h, rb_dest := hdr_dest h,
                          rb_protocol := hdr_protocol h, timestamp := 0, rb_total_length := 0,
                          fragment_count := 0, fragments := (\<lambda>_. False)\<rparr>) s
               in case pmm_alloc_blocks 16 s1 of (p, s2) \<Rightarrow>
                 let s3 = set_rb i (\<lambda>b. b\<lparr>rb_data := p, rb_bytes := (\<lambda>k. get_byte (p + of_nat k) s2)\<rparr>) s2
                 in if p = 0 then Inl (reassembly_failed s3) else Inr (i, s3)))"

text \<open>The packet built when every unit has arrived.\<close>

definition rb_complete :: "nat \<Rightarrow> ipv4_header \<Rightarrow> 'a ipv4_scheme \<Rightarrow> u32 \<times> 'a ipv4_scheme" where
  "rb_complete i h s =
     (let b = reassembly_buffers s i;
          len = rb_total_length b
      in case net_alloc_packet (IPV4_HEADER_LEN + ucast len) s of (packet, s1) \<Rightarrow>
        if packet = 0 then (0, reassembly_failed s1)
        else
          let h1 = h\<lparr>flags_offset := 0, total_length := 20 + len, hdr_checksum := 0\<rparr>;
              h2 = h1\<lparr>hdr_checksum := ipv4_checksum (header_bytes h1)\<rparr>;
              s2 = set_packet packet (\<lambda>p. p\<lparr>pkt_data := put_header h2
                     (put_at 20 (get_at 0 (unat len) (rb_bytes b)) (pkt_data p))\<rparr>) s1;
              s3 = pmm_free_blocks (rb_data b) 16 s2
          in (packet, set_rb i (\<lambda>_. no_buffer) s3))"

text \<open>\<open>None\<close>: a store past the 65536 bytes of the buffer or the 64 entries of
  \<open>fragments\<close>, or a look at an entry beyond them.\<close>

definition ipv4_reassemble_packet :: "u32 \<Rightarrow> 'a ipv4_scheme \<Rightarrow> (u32 \<times> 'a ipv4_scheme) option" where
  "ipv4_reassemble_packet fragment s =
     (let h = get_header (pkt_data (packet_at s fragment));
          offset = (flags_offset h AND IPV4_FRAGMENT_OFFSET_MASK) * 8
      in case rb_take h s of
           Inl s1 \<Rightarrow> Some (0, s1)
         | Inr (i, s1) \<Rightarrow>
             let data_len = total_length h - 20
             in if 65536 < unat offset + unat data_len \<or> MAX_FRAGMENTS \<le> unat (offset div 8) then None
                else
                  let payload = get_at 20 (unat data_len) (pkt_data (packet_at s1 fragment));
                      s2 = set_rb i (\<lambda>b. b\<lparr>rb_bytes := put_at (unat offset) payload (rb_bytes b),
                             fragments := (fragments b)(unat (offset div 8) := True),
                             fragment_count := fragment_count b + 1\<rparr>) s1;
                      s3 = (if flags_offset h AND IPV4_FLAG_MORE_FRAGMENTS = 0
                            then set_rb i (rb_total_length_update (\<lambda>_. offset + data_len)) s2 else s2);
                      b = reassembly_buffers s3 i;
                      num = (unat (rb_total_length b) + 7) div 8
                  in if rb_total_length b = 0 then Some (0, s3)
                     else case find (\<lambda>u. MAX_FRAGMENTS \<le> u \<or> \<not> fragments b u) [0..<num] of
                       Some u \<Rightarrow> if MAX_FRAGMENTS \<le> u then None else Some (0, s3)
                     | None \<Rightarrow> Some (rb_complete i h s3))"

subsection \<open>Sending, forwarding, receiving\<close>

definition upd_header :: "u32 \<Rightarrow> (ipv4_header \<Rightarrow> ipv4_header) \<Rightarrow> 'a ipv4_scheme \<Rightarrow> 'a ipv4_scheme" where
  "upd_header packet f s =
     set_packet packet (\<lambda>p. p\<lparr>pkt_data := put_header (f (get_header (pkt_data p))) (pkt_data p)\<rparr>) s"

text \<open>\<open>header->checksum = 0; header->checksum = ipv4_checksum(header, 20)\<close>\<close>

definition checksum_header :: "ipv4_header \<Rightarrow> ipv4_header" where
  "checksum_header h =
     (let h0 = h\<lparr>hdr_checksum := 0\<rparr> in h0\<lparr>hdr_checksum := ipv4_checksum (header_bytes h0)\<rparr>)"

definition ipv4_send_packet ::
  "'a ipv4_scheme callees \<Rightarrow> u32 \<Rightarrow> ipv4_addr \<Rightarrow> u8 \<Rightarrow> u8 \<Rightarrow> 'a ipv4_scheme
    \<Rightarrow> (bool \<times> 'a ipv4_scheme) option"
where
  "ipv4_send_packet d packet dest proto t s =
     (if packet = 0 then Some (False, s)
      else case ipv4_find_route dest s of
        None \<Rightarrow> Some (False, drop_packet s)
      | Some (_, route) \<Rightarrow>
          (case ipv4_get_interface_config (route_iface route) s of
             None \<Rightarrow> Some (False, drop_packet s)
           | Some config \<Rightarrow>
               let h = checksum_header
                     \<lparr>version_ihl = 0x45, tos = 0,
                      total_length = ucast (IPV4_HEADER_LEN + pkt_length (packet_at s packet)),
                      hdr_id = ip_id s, flags_offset = 0,
                      ttl = (if t \<noteq> 0 then t else IPV4_TTL_DEFAULT), hdr_protocol = proto,
                      hdr_checksum = 0, hdr_src = cfg_addr config, hdr_dest = dest\<rparr>;
                   s1 = upd_header packet (\<lambda>_. h) (s\<lparr>ip_id := ip_id s + 1\<rparr>);
                   send = (\<lambda>s2.
                     let s3 = s2\<lparr>ip_stats := (ip_stats s2)\<lparr>packets_sent := packets_sent (ip_stats s2) + 1,
                                bytes_sent := bytes_sent (ip_stats s2) + ucast (pkt_length (packet_at s2 packet))\<rparr>\<rparr>
                     in net_send_packet d (route_iface route) packet s3);
                   unit = mtu (iface_at s1 (route_iface route))
               in if unit < ucast (total_length h)
                  then case ipv4_fragment_packet d packet (ucast unit) s1 of
                         None \<Rightarrow> None
                       | Some (False, s2) \<Rightarrow> Some (False, s2\<lparr>ip_stats := (ip_stats s2)\<lparr>fragmentation_failures :=
                             fragmentation_failures (ip_stats s2) + 1\<rparr>\<rparr>)
                       | Some (True, s2) \<Rightarrow> Some (send (s2\<lparr>ip_stats := (ip_stats s2)\<lparr>fragments_sent :=
                             fragments_sent (ip_stats s2) + 1\<rparr>\<rparr>))
                  else Some (send s1)))"

definition ipv4_forward_packet ::
  "'a ipv4_scheme callees \<Rightarrow> u32 \<Rightarrow> 'a ipv4_scheme \<Rightarrow> (bool \<times> 'a ipv4_scheme) option"
where
  "ipv4_forward_packet d packet s =
     (let h = get_header (pkt_data (packet_at s packet)) in
      if ttl h \<le> 1 then Some (False, s)
      else
        let s1 = upd_header packet (\<lambda>h. checksum_header (h\<lparr>ttl := ttl h - 1\<rparr>)) s
        in case ipv4_find_route (hdr_dest h) s1 of
             None \<Rightarrow> Some (False, s1)
           | Some (_, route) \<Rightarrow>
               let unit = mtu (iface_at s1 (route_iface route))
               in if unit < pkt_length (packet_at s1 packet)
                  then case ipv4_fragment_packet d packet (ucast unit) s1 of
                         None \<Rightarrow> None
                       | Some (False, s2) \<Rightarrow> Some (False, s2)
                       | Some (True, s2) \<Rightarrow> Some (net_send_packet d (route_iface route) packet s2)
                  else Some (net_send_packet d (route_iface route) packet s1))"

text \<open>The header pointer stays that of the packet received, also after reassembly.  The
  last call passes a second argument that \<open>net_receive_packet\<close> does not take.\<close>

definition ipv4_deliver ::
  "'a ipv4_scheme callees \<Rightarrow> u32 \<Rightarrow> ipv4_header \<Rightarrow> u32 \<Rightarrow> 'a ipv4_scheme \<Rightarrow> 'a ipv4_scheme option"
where
  "ipv4_deliver d iface h packet s =
     (case ipv4_addr_is_local (hdr_dest h) s of
        None \<Rightarrow> None
      | Some False \<Rightarrow>
          (case ipv4_forward_packet d packet s of
             None \<Rightarrow> None
           | Some (True, s1) \<Rightarrow> Some (s1\<lparr>ip_stats := (ip_stats s1)\<lparr>packets_forwarded :=
                 packets_forwarded (ip_stats s1) + 1\<rparr>\<rparr>)
           | Some (False, s1) \<Rightarrow> Some (drop_packet s1))
      | Some True \<Rightarrow>
          let proto = (if hdr_protocol h = IPV4_PROTO_ICMP then Some NET_PROTO_ICMP
                       else if hdr_protocol h = IPV4_PROTO_TCP then Some NET_PROTO_TCP
                       else if hdr_protocol h = IPV4_PROTO_UDP then Some NET_PROTO_UDP else None)
          in case proto of
               None \<Rightarrow> Some (drop_packet s)
             | Some pr \<Rightarrow> Some (snd (net_receive_packet d iface
                 (set_packet packet (\<lambda>p. p\<lparr>data_ptr := data_ptr p + 20,
                    pkt_data := (\<lambda>k. pkt_data p (k + 20)), pkt_length := pkt_length p - 20,
                    protocol := pr\<rparr>) s))))"

definition ipv4_receive_packet ::
  "'a ipv4_scheme callees \<Rightarrow> u32 \<Rightarrow> u32 \<Rightarrow> 'a ipv4_scheme \<Rightarrow> 'a ipv4_scheme option"
where
  "ipv4_receive_packet d iface packet s =
     (if iface = 0 \<or> packet = 0 \<or> pkt_length (packet_at s packet) < IPV4_HEADER_LEN
      then Some (drop_packet s)
      else
        let h = get_header (pkt_data (packet_at s packet))
        in if ipv4_checksum (header_bytes (h\<lparr>hdr_checksum := 0\<rparr>)) \<noteq> hdr_checksum h
           then Some (drop_packet (upd_header packet (hdr_checksum_update (\<lambda>_. 0)) s))
           else
             let s1 = s\<lparr>ip_stats := (ip_stats s)\<lparr>packets_received := packets_received (ip_stats s) + 1,
                        bytes_received := bytes_received (ip_stats s)
                          + ucast (pkt_length (packet_at s packet))\<rparr>\<rparr>
             in if flags_offset h AND (IPV4_FLAG_MORE_FRAGMENTS OR IPV4_FRAGMENT_OFFSET_MASK) \<noteq> 0
                then case ipv4_reassemble_packet packet s1 of
                       None \<Rightarrow> None
                     | Some (whole, s2) \<Rightarrow>
                         if whole = 0 then Some s2
                         else ipv4_deliver d iface h whole (s2\<lparr>ip_stats := (ip_stats s2)\<lparr>fragments_reassembled :=
                                fragments_reassembled (ip_stats s2) + 1\<rparr>\<rparr>)
                else ipv4_deliver d iface h packet s1)"

subsection \<open>Statistics\<close>

definition ipv4_get_stats :: "'a ipv4_scheme \<Rightarrow> ipv4_stats" where
  "ipv4_get_stats s = ip_stats s"

definition ipv4_reset_stats :: "'a ipv4_scheme \<Rightarrow> 'a ipv4_scheme" where
  "ipv4_reset_stats s = s\<lparr>ip_stats := no_stats\<rparr>"

end
