(* ===== verification/Packet_Alloc.thy ===== *)
theory Packet_Alloc
  imports Net_Dispatch
begin

text \<open>
  What \<open>net_alloc_packet\<close> does to the allocator: a fresh packet is new to every owner,
  nothing else changes, and two free blocks are enough for a frame.
\<close>

definition free_count :: "'a pmm_scheme \<Rightarrow> nat" where
  "free_count s = unat (mem_blocks s) - unat (mem_used_blocks s)"

lemma set_packet_pmm [simp]:
  "pmm_inv (set_packet p f s) = pmm_inv s" "owned_pages (set_packet p f s) = owned_pages s"
  "free_count (set_packet p f s) = free_count s" "iface_at (set_packet p f s) = iface_at s"
  "net.more (set_packet p f s) = net.more s"
  by (simp_all add: set_packet_def pmm_inv_def pmm_geom_def owned_pages_def used_set_def
      pmm_test_block_def bm_addr_def rd32_def free_count_def)

lemma packet_at_set [simp]:
  "packet_at (set_packet p f s) q = (if q = p then f (packet_at s p) else packet_at s q)"
  by (simp add: set_packet_def)

text \<open>For one block the two searches agree.\<close>

lemma pmm_alloc_blocks_1:
  assumes "pmm_inv s"
  shows "pmm_alloc_blocks 1 s = pmm_alloc_block s"
  using assms
proof (cases rule: pmm_alloc_block_cases)
  case full
  then have "\<forall>b < mem_blocks s. pmm_test_block b s" by (simp add: used_set_def)
  then show ?thesis by (simp add: all_marked_no_alloc)
next
  case (block b)
  have less: "mem_used_blocks s < mem_blocks s"
    using card_used_less [OF block(2,3)] assms by (simp add: pmm_inv_def word_less_nat_alt)
  then have "mem_used_blocks s + 1 \<le> mem_blocks s" by (rule word_Suc_le_of_less)
  moreover have "for_lt 0 1 (\<lambda>_ _. True) f s = f 0 s" for f :: "u32 \<Rightarrow> 'a pmm_scheme \<Rightarrow> 'a pmm_scheme"
    using for_lt_step [of 0 1 "\<lambda>_ _. True" s f] by simp
  ultimately show ?thesis
    using less by (simp add: pmm_alloc_blocks_def pmm_alloc_block_def Let_def not_less [symmetric])
qed

lemma alloc_block_room:
  assumes "pmm_inv s" and "pmm_alloc_block s = (p, t)"
  shows "(p \<noteq> 0 \<longrightarrow> free_count s = Suc (free_count t)) \<and> (0 < free_count s \<longrightarrow> p \<noteq> 0)"
proof (cases "0 < free_count s")
  case True
  then have less: "unat (mem_used_blocks s) < unat (mem_blocks s)" by (simp add: free_count_def)
  obtain q u where "pmm_alloc_block s = (q, u)" "q \<noteq> 0"
      "unat (mem_used_blocks u) = Suc (unat (mem_used_blocks s))" "mem_blocks u = mem_blocks s"
    by (rule alloc_with_room [OF assms(1) less])
  then show ?thesis using assms(2) less by (simp add: free_count_def)
next
  case False
  then have "mem_blocks s \<le> mem_used_blocks s" by (simp add: free_count_def word_le_nat_alt)
  then show ?thesis using assms(2) False by (auto simp: pmm_alloc_block_def)
qed

lemma mem_only_more: "mem_only s t \<Longrightarrow> net.more t = net.more (s :: 'a net_scheme)"
  by (auto simp: mem_only_def)

lemma net_more_free [simp]: "net.more (pmm_free_block p s) = net.more s"
  by (rule mem_only_more) simp

lemma mem_only_alloc: "pmm_alloc_block s = (p, t) \<Longrightarrow> mem_only s t"
  using mem_only_pmm(1) [of s] by simp

lemma one_block: "0 < (sz :: u32) \<Longrightarrow> sz \<le> NET_MAX_PACKET_SIZE \<Longrightarrow> (sz + 4096 - 1) div 4096 = 1"
proof -
  assume "0 < sz" "sz \<le> NET_MAX_PACKET_SIZE"
  then have n: "0 < unat sz" "unat sz \<le> 1518"
    by (simp_all add: NET_MAX_PACKET_SIZE_def word_less_nat_alt word_le_nat_alt)
  then have "unat (sz + 4095) = unat sz + 4095" by (simp add: unat_add_small)
  moreover have "(unat sz + 4095) div 4096 = 1" using n by simp
  ultimately have "unat ((sz + 4095) div 4096) = 1" by (simp add: unat_div)
  then show "(sz + 4096 - 1) div 4096 = 1"
    by (intro word_unat_eqI) (simp add: add.commute)
qed

text \<open>A packet handed out.\<close>

definition fresh_packet :: "u32 \<Rightarrow> u32 \<Rightarrow> 'a net_scheme \<Rightarrow> 'a net_scheme \<Rightarrow> bool" where
  "fresh_packet sz p s t \<longleftrightarrow> pmm_inv t \<and> p \<notin> owned_pages s \<and> owned_pages s \<subseteq> owned_pages t
     \<and> free_count s = free_count t + 2 \<and> pkt_length (packet_at t p) = sz
     \<and> (\<forall>q. q \<noteq> p \<longrightarrow> packet_at t q = packet_at s q)"

lemma net_alloc_packet_cases:
  assumes inv: "pmm_inv s" and sz: "0 < sz" "sz \<le> NET_MAX_PACKET_SIZE"
    and alloc: "net_alloc_packet sz s = (p, t)"
  shows "iface_at t = iface_at s \<and> net.more t = net.more s"
    and "p \<noteq> 0 \<Longrightarrow> fresh_packet sz p s t"
    and "2 \<le> free_count s \<Longrightarrow> p \<noteq> 0"
proof -
  obtain q s1 where q: "pmm_alloc_block s = (q, s1)" by fastforce
  note inv1 = pmm.alloc_inv [OF inv q]
  obtain r s2 where r: "pmm_alloc_block s1 = (r, s2)" by fastforce
  then have r': "pmm_alloc_blocks ((sz + 4096 - 1) div 4096) s1 = (r, s2)"
    using pmm_alloc_blocks_1 [OF inv1] one_block [OF sz] by simp
  note k = mem_only_alloc [OF q] mem_only_alloc [OF r]
  note n = k [THEN mem_only_net(1)] k [THEN mem_only_net(2)] k [THEN mem_only_more]
  have result: "(p, t) = (if q = 0 then (0, s1) else
      let s3 = set_packet q (\<lambda>p. p\<lparr>data_ptr := r, pkt_data := (\<lambda>i. get_byte (r + of_nat i) s2)\<rparr>) s2
      in if r = 0 then (0, pmm_free_block q s3)
         else (q, set_packet q (\<lambda>p. p\<lparr>pkt_length := sz, protocol := NET_PROTO_NONE, priority := 0,
                  private_data := 0\<rparr>) s3))"
    using alloc sz(2) unfolding net_alloc_packet_def q prod.case r' by (simp add: not_less [symmetric])
  show "iface_at t = iface_at s \<and> net.more t = net.more s"
    using result n
    by (auto simp: Let_def net_frame split: if_splits)
  show "fresh_packet sz p s t" if "p \<noteq> 0"
  proof -
    have z: "q \<noteq> 0" "r \<noteq> 0" "p = q" using result that by (auto simp: Let_def split: if_splits)
    note pq = pmm.alloc_page [OF inv q z(1)] and pr = pmm.alloc_page [OF inv1 r z(2)]
    then show ?thesis
      using result z n pmm.alloc_inv [OF inv1 r] alloc_block_room [OF inv q] alloc_block_room [OF inv1 r]
      by (auto simp: fresh_packet_def Let_def)
  qed
  show "p \<noteq> 0" if "2 \<le> free_count s"
  proof -
    have "q \<noteq> 0" using alloc_block_room [OF inv q] that by auto
    then have "r \<noteq> 0" using alloc_block_room [OF inv q] alloc_block_room [OF inv1 r] that by auto
    with \<open>q \<noteq> 0\<close> show ?thesis using result by (simp add: Let_def)
  qed
qed

end
