(* ===== verification/Ethernet.thy ===== *)
theory Ethernet
  imports Packet_Alloc
begin

text \<open>
  The Ethernet layer, net/ethernet.c: devices behind interfaces, frames, hardware addresses
  and the frame check sequence.  Device structures are kept in a store by address, like
  interfaces and packets; of their fields only the operations are used.  \<open>None\<close> is a call
  through a null pointer.  The library functions \<open>snprintf\<close> and \<open>sscanf\<close> are modelled for
  the formats used, after the C standard.
\<close>

subsection \<open>Data (ethernet.h)\<close>

definition ETH_MAX_DATA_SIZE :: u32 where "ETH_MAX_DATA_SIZE = 1500"
definition ETH_MIN_FRAME_SIZE :: u32 where "ETH_MIN_FRAME_SIZE = 14 + 46 + 4"
definition ETH_MAX_FRAME_SIZE :: u32 where "ETH_MAX_FRAME_SIZE = 14 + ETH_MAX_DATA_SIZE + 4"
definition ETH_ADDR_LEN :: nat where "ETH_ADDR_LEN = 6"

record eth_device =
  ops_init :: u32
  ops_cleanup :: u32
  ops_start :: u32
  ops_stop :: u32
  ops_send :: u32
  ops_receive :: u32
  ops_set_mac :: u32
  ops_get_stats :: u32
  ops_set_promiscuous :: u32
  ops_set_multicast :: u32

record ethernet = net +
  eth_at :: "u32 \<Rightarrow> eth_device"

text \<open>\<open>call_enable\<close> calls the two operations that switch a mode.\<close>

record 's eth_callees = "'s callees" +
  call_enable :: "u32 \<Rightarrow> u32 \<Rightarrow> bool \<Rightarrow> 's \<Rightarrow> bool \<times> 's"

subsection \<open>Devices\<close>

definition eth_init_device ::
  "('a ethernet_scheme, 'b) eth_callees_scheme \<Rightarrow> u32 \<Rightarrow> u32 \<Rightarrow> 'a ethernet_scheme \<Rightarrow> (bool \<times> 'a ethernet_scheme) option"
where
  "eth_init_device d iface dev s =
     (if iface = 0 \<or> dev = 0 then Some (False, s)
      else
        let e = eth_at s dev;
            s1 = set_iface iface (\<lambda>i. i\<lparr>init_fn := ops_init e, cleanup_fn := ops_cleanup e,
                   start_fn := ops_start e, stop_fn := ops_stop e, send_fn := ops_send e,
                   receive_fn := ops_receive e, set_mac_fn := ops_set_mac e,
                   if_type := NET_IF_TYPE_ETHERNET, mtu := ETH_MAX_DATA_SIZE, driver_data := dev\<rparr>) s
        in if ops_init e = 0 then None else Some (call_init d (ops_init e) iface s1))"

definition eth_cleanup_device ::
  "('a ethernet_scheme, 'b) eth_callees_scheme \<Rightarrow> u32 \<Rightarrow> 'a ethernet_scheme \<Rightarrow> 'a ethernet_scheme"
where
  "eth_cleanup_device d iface s =
     (if iface = 0 \<or> driver_data (iface_at s iface) = 0 then s
      else let f = ops_cleanup (eth_at s (driver_data (iface_at s iface)))
           in if f \<noteq> 0 then call_cleanup d f iface s else s)"

definition eth_start_device ::
  "('a ethernet_scheme, 'b) eth_callees_scheme \<Rightarrow> u32 \<Rightarrow> 'a ethernet_scheme \<Rightarrow> bool \<times> 'a ethernet_scheme"
where
  "eth_start_device d iface s =
     (if iface = 0 \<or> driver_data (iface_at s iface) = 0 then (False, s)
      else let f = ops_start (eth_at s (driver_data (iface_at s iface)))
           in if f = 0 then (False, s) else call_start d f iface s)"

definition eth_stop_device ::
  "('a ethernet_scheme, 'b) eth_callees_scheme \<Rightarrow> u32 \<Rightarrow> 'a ethernet_scheme \<Rightarrow> 'a ethernet_scheme"
where
  "eth_stop_device d iface s =
     (if iface = 0 \<or> driver_data (iface_at s iface) = 0 then s
      else let f = ops_stop (eth_at s (driver_data (iface_at s iface)))
           in if f \<noteq> 0 then call_stop d f iface s else s)"

definition eth_set_promiscuous ::
  "('a ethernet_scheme, 'b) eth_callees_scheme \<Rightarrow> u32 \<Rightarrow> bool \<Rightarrow> 'a ethernet_scheme \<Rightarrow> bool \<times> 'a ethernet_scheme"
where
  "eth_set_promiscuous d iface enable s =
     (if iface = 0 \<or> driver_data (iface_at s iface) = 0 then (False, s)
      else let f = ops_set_promiscuous (eth_at s (driver_data (iface_at s iface)))
           in if f = 0 then (False, s) else call_enable d f iface enable s)"

definition eth_set_multicast ::
  "('a ethernet_scheme, 'b) eth_callees_scheme \<Rightarrow> u32 \<Rightarrow> bool \<Rightarrow> 'a ethernet_scheme \<Rightarrow> bool \<times> 'a ethernet_scheme"
where
  "eth_set_multicast d iface enable s =
     (if iface = 0 \<or> driver_data (iface_at s iface) = 0 then (False, s)
      else let f = ops_set_multicast (eth_at s (driver_data (iface_at s iface)))
           in if f = 0 then (False, s) else call_enable d f iface enable s)"

subsection \<open>Frames\<close>

text \<open>The caller's buffer is given by its bytes, \<open>None\<close> being a null pointer.\<close>

definition eth_send_frame ::
  "'a net_scheme callees \<Rightarrow> u32 \<Rightarrow> buffer option \<Rightarrow> u32 \<Rightarrow> 'a net_scheme \<Rightarrow> bool \<times> 'a net_scheme"
where
  "eth_send_frame d iface data len s =
     (if iface = 0 \<or> data = None \<or> len < ETH_MIN_FRAME_SIZE \<or> ETH_MAX_FRAME_SIZE < len
      then (False, s)
      else case net_alloc_packet len s of (packet, s1) \<Rightarrow>
        if packet = 0 then (False, s1)
        else
          let s2 = set_packet packet (\<lambda>p. p\<lparr>pkt_data := put_at 0 (get_at 0 (unat len) (the data)) (pkt_data p),
                     pkt_length := len\<rparr>) s1
          in case net_send_packet d iface packet s2 of (success, s3) \<Rightarrow>
               (success, net_free_packet packet s3))"

text \<open>\<open>len\<close> is the variable behind the pointer; the bytes copied to the caller and their
  number are the result.\<close>

definition eth_receive_frame ::
  "'a net_scheme callees \<Rightarrow> u32 \<Rightarrow> u32 \<Rightarrow> u32 option \<Rightarrow> 'a net_scheme \<Rightarrow> u8 list option \<times> 'a net_scheme"
where
  "eth_receive_frame d iface data len s =
     (case len of None \<Rightarrow> (None, s) | Some n \<Rightarrow>
        if iface = 0 \<or> data = 0 \<or> n < ETH_MIN_FRAME_SIZE then (None, s)
        else case net_receive_packet d iface s of (packet, s1) \<Rightarrow>
          if packet = 0 then (None, s1)
          else let p = packet_at s1 packet in
            if n < pkt_length p then (None, net_free_packet packet s1)
            else (Some (get_at 0 (unat (pkt_length p)) (pkt_data p)), net_free_packet packet s1))"

subsection \<open>Hardware addresses\<close>

definition eth_is_valid_mac :: "u8 list option \<Rightarrow> bool" where
  "eth_is_valid_mac mac =
     (case mac of None \<Rightarrow> False | Some m \<Rightarrow>
        if \<forall>i \<in> set [0..<ETH_ADDR_LEN]. m ! i = 0 then False
        else if \<forall>i \<in> set [0..<ETH_ADDR_LEN]. m ! i = 0xFF then False
        else if m ! 0 AND 0x01 \<noteq> 0 then False
        else True)"

definition eth_set_mac_address ::
  "('a ethernet_scheme, 'b) eth_callees_scheme \<Rightarrow> u32 \<Rightarrow> u8 list option \<Rightarrow> 'a ethernet_scheme \<Rightarrow> bool \<times> 'a ethernet_scheme"
where
  "eth_set_mac_address d iface mac s =
     (if iface = 0 \<or> \<not> eth_is_valid_mac mac then (False, s)
      else
        let dev = driver_data (iface_at s iface); f = ops_set_mac (eth_at s dev)
        in if dev = 0 \<or> f = 0 then (False, s)
           else case call_set_mac d f iface (the mac) s of (ok, t) \<Rightarrow>
             if \<not> ok then (False, t)
             else (True, set_iface iface (\<lambda>i. i\<lparr>if_mac := take ETH_ADDR_LEN (the mac)\<rparr>) t))"

definition eth_get_mac_address :: "u32 \<Rightarrow> 'a net_scheme \<Rightarrow> u8 list option" where
  "eth_get_mac_address iface s =
     (if iface = 0 then None else Some (take ETH_ADDR_LEN (if_mac (iface_at s iface))))"

subsection \<open>Addresses as text\<close>

definition hex_char_lower :: "nat \<Rightarrow> char" where
  "hex_char_lower i = ''0123456789abcdef'' ! i"

text \<open>\<open>%02x\<close> of a byte.\<close>

definition hex_byte :: "u8 \<Rightarrow> string" where
  "hex_byte b = [hex_char_lower (unat b div 16), hex_char_lower (unat b mod 16)]"

definition eth_format_mac :: "u8 list \<Rightarrow> string" where
  "eth_format_mac mac =
     hex_byte (mac ! 0) @ '':'' @ hex_byte (mac ! 1) @ '':'' @ hex_byte (mac ! 2) @ '':''
     @ hex_byte (mac ! 3) @ '':'' @ hex_byte (mac ! 4) @ '':'' @ hex_byte (mac ! 5)"

text \<open>\<open>%x\<close> of \<open>sscanf\<close>: blanks, a sign, a prefix, digits.  A number that does not fit 32 bits
  is undefined.\<close>

datatype scanned = No_match | Overflow | Scanned u32 string

definition is_space :: "char \<Rightarrow> bool" where
  "is_space c \<longleftrightarrow> c \<in> set [CHR '' '', CHR 0x09, CHR 0x0A, CHR 0x0B, CHR 0x0C, CHR 0x0D]"

definition hex_value :: "char \<Rightarrow> nat option" where
  "hex_value c =
     (let n = of_char c :: nat in
      if 48 \<le> n \<and> n \<le> 57 then Some (n - 48)
      else if 65 \<le> n \<and> n \<le> 70 then Some (n - 55)
      else if 97 \<le> n \<and> n \<le> 102 then Some (n - 87)
      else None)"

definition scan_digits :: "bool \<Rightarrow> string \<Rightarrow> scanned" where
  "scan_digits neg str =
     (let digits = takeWhile (\<lambda>c. hex_value c \<noteq> None) str;
          n = foldl (\<lambda>n c. 16 * n + the (hex_value c)) 0 digits
      in if digits = [] then No_match
         else if 2 ^ 32 \<le> n then Overflow
         else Scanned (if neg then - of_nat n else of_nat n) (dropWhile (\<lambda>c. hex_value c \<noteq> None) str))"

definition scan_unsigned :: "bool \<Rightarrow> string \<Rightarrow> scanned" where
  "scan_unsigned neg str =
     (case str of a # b # rest \<Rightarrow>
        if a = CHR ''0'' \<and> (b = CHR ''x'' \<or> b = CHR ''X'') then scan_digits neg rest else scan_digits neg str
      | _ \<Rightarrow> scan_digits neg str)"

definition scan_hex :: "string \<Rightarrow> scanned" where
  "scan_hex str =
     (case dropWhile is_space str of [] \<Rightarrow> No_match
      | c # rest \<Rightarrow>
          if c = CHR ''-'' then scan_unsigned True rest
          else if c = CHR ''+'' then scan_unsigned False rest
          else scan_unsigned False (c # rest))"

text \<open>The values \<open>sscanf\<close> assigns for \<open>n\<close> conversions with colons between them.\<close>

fun scan_fields :: "nat \<Rightarrow> string \<Rightarrow> u32 list option" where
  "scan_fields 0 str = Some []"
| "scan_fields (Suc n) str =
     (case scan_hex str of
        Overflow \<Rightarrow> None
      | No_match \<Rightarrow> Some []
      | Scanned v rest \<Rightarrow>
          (if n \<noteq> 0 \<and> rest \<noteq> [] \<and> hd rest = CHR '':''
           then map_option ((#) v) (scan_fields n (tl rest)) else Some [v]))"

text \<open>The loop that checks and stores the values.\<close>

fun store_values :: "u32 list \<Rightarrow> nat \<Rightarrow> u8 list \<Rightarrow> bool \<times> u8 list" where
  "store_values [] i mac = (True, mac)"
| "store_values (v # vs) i mac =
     (if sint v < 0 \<or> 255 < sint v then (False, mac) else store_values vs (Suc i) (mac[i := ucast v]))"

definition eth_parse_mac :: "string \<Rightarrow> u8 list \<Rightarrow> (bool \<times> u8 list) option" where
  "eth_parse_mac str mac =
     (case scan_fields 6 str of None \<Rightarrow> None | Some values \<Rightarrow>
        if length values \<noteq> 6 then Some (False, mac)
        else case store_values values 0 mac of (ok, m) \<Rightarrow>
          if \<not> ok then Some (False, m) else Some (eth_is_valid_mac (Some m), m))"

subsection \<open>The frame check sequence\<close>

text \<open>The table has 256 entries and an initialiser of 16; the others are zero.\<close>

definition crc32_initialiser :: "u32 list" where
  "crc32_initialiser =
     [0x00000000, 0x77073096, 0xEE0E612C, 0x990951BA,
      0x076DC419, 0x706AF48F, 0xE963A535, 0x9E6495A3,
      0x0EDB8832, 0x79DCB8A4, 0xE0D5E91E, 0x97D2D988,
      0x09B64C2B, 0x7EB17CBD, 0xE7B82D07, 0x90BF1D91]"

definition crc32_table :: "nat \<Rightarrow> u32" where
  "crc32_table i = (if i < length crc32_initialiser then crc32_initialiser ! i else 0)"

definition crc_index :: "u32 \<Rightarrow> u8 \<Rightarrow> u32" where
  "crc_index crc b = (crc AND 0xFF) XOR ucast b"

definition crc_step :: "u32 \<Rightarrow> u8 \<Rightarrow> u32" where
  "crc_step crc b = drop_bit 8 crc XOR crc32_table (unat (crc_index crc b))"

definition eth_calculate_crc32 :: "u8 list \<Rightarrow> u32" where
  "eth_calculate_crc32 data = NOT (foldl crc_step 0xFFFFFFFF data)"

end
