(* ===== verification/Vga.thy ===== *)
theory Vga
  imports Isr
begin

text \<open>
  The text screen, drivers/vga.c: 80 by 25 cells of 16 bits, the cursor and the current
  colour.  The cells are indexed as in the code, by \<open>row * 80 + column\<close>; \<open>None\<close> is a store
  outside the 2000 cells, or a signed overflow.  A C string is given without its zero.
\<close>

subsection \<open>State\<close>

definition VGA_WIDTH :: int where "VGA_WIDTH = 80"
definition VGA_HEIGHT :: int where "VGA_HEIGHT = 25"
definition VGA_COLOR_BLACK :: u8 where "VGA_COLOR_BLACK = 0"
definition VGA_COLOR_LIGHT_GREY :: u8 where "VGA_COLOR_LIGHT_GREY = 7"

record vga = interrupts +
  vga_buffer :: "int \<Rightarrow> u16"
  vga_col :: int
  vga_row :: int
  vga_curr_color :: u8

definition vga_entry_color :: "u8 \<Rightarrow> u8 \<Rightarrow> u8" where
  "vga_entry_color fg bg = fg OR push_bit 4 bg"

definition vga_entry :: "u8 \<Rightarrow> u8 \<Rightarrow> u16" where
  "vga_entry uc color = ucast uc OR push_bit 8 (ucast color)"

abbreviation blank :: "'a vga_scheme \<Rightarrow> u16" where
  "blank s \<equiv> vga_entry (of_char CHR '' '') (vga_curr_color s)"

definition set_cell :: "int \<Rightarrow> u16 \<Rightarrow> 'a vga_scheme \<Rightarrow> 'a vga_scheme" where
  "set_cell i v s = s\<lparr>vga_buffer := (vga_buffer s)(i := v)\<rparr>"

text \<open>A loop \<open>for (int i = 0; i < n; i++)\<close>.\<close>

definition for_int :: "int \<Rightarrow> (int \<Rightarrow> 's \<Rightarrow> 's) \<Rightarrow> 's \<Rightarrow> 's" where
  "for_int n body = fold body (map int [0..<nat n])"

subsection \<open>Operations\<close>

definition vga_update_cursor :: "'a vga_scheme \<Rightarrow> 'a vga_scheme" where
  "vga_update_cursor s =
     (let pos = of_int (vga_row s * VGA_WIDTH + vga_col s) :: u16
      in outb 0x3D5 (ucast (drop_bit 8 pos AND 0xFF)) (outb 0x3D4 0x0E
           (outb 0x3D5 (ucast (pos AND 0xFF)) (outb 0x3D4 0x0F s))))"

definition vga_clear :: "'a vga_scheme \<Rightarrow> 'a vga_scheme" where
  "vga_clear s =
     (let s1 = for_int VGA_HEIGHT (\<lambda>y. for_int VGA_WIDTH (\<lambda>x t. set_cell (y * VGA_WIDTH + x) (blank t) t)) s
      in vga_update_cursor (s1\<lparr>vga_row := 0, vga_col := 0\<rparr>))"

definition vga_init :: "'a vga_scheme \<Rightarrow> 'a vga_scheme" where
  "vga_init s = vga_clear (s\<lparr>vga_row := 0, vga_col := 0,
     vga_curr_color := vga_entry_color VGA_COLOR_LIGHT_GREY VGA_COLOR_BLACK\<rparr>)"

definition vga_scroll :: "'a vga_scheme \<Rightarrow> 'a vga_scheme" where
  "vga_scroll s =
     (let s1 = for_int (VGA_HEIGHT - 1) (\<lambda>y. for_int VGA_WIDTH (\<lambda>x t.
                 set_cell (y * VGA_WIDTH + x) (vga_buffer t ((y + 1) * VGA_WIDTH + x)) t)) s;
          s2 = for_int VGA_WIDTH (\<lambda>x t. set_cell ((VGA_HEIGHT - 1) * VGA_WIDTH + x) (blank t) t) s1
      in s2\<lparr>vga_row := VGA_HEIGHT - 1\<rparr>)"

text \<open>\<open>vga_row++\<close>, with the scrolling it may need.\<close>

definition next_row :: "'a vga_scheme \<Rightarrow> 'a vga_scheme" where
  "next_row s =
     (let s1 = s\<lparr>vga_col := 0, vga_row := vga_row s + 1\<rparr>
      in if VGA_HEIGHT \<le> vga_row s1 then vga_scroll s1 else s1)"

definition vga_putchar :: "char \<Rightarrow> 'a vga_scheme \<Rightarrow> 'a vga_scheme option" where
  "vga_putchar c s =
     (if c = CHR 0x0A then Some (vga_update_cursor (next_row s))
      else if c = CHR 0x0D then Some (vga_update_cursor (s\<lparr>vga_col := 0\<rparr>))
      else if c = CHR 0x09 then
        let s1 = s\<lparr>vga_col := (vga_col s + 8) AND NOT 7\<rparr>
        in Some (vga_update_cursor (if VGA_WIDTH \<le> vga_col s1 then next_row s1 else s1))
      else
        let idx = vga_row s * VGA_WIDTH + vga_col s
        in if idx < 0 \<or> VGA_WIDTH * VGA_HEIGHT \<le> idx then None
           else
             let s1 = set_cell idx (vga_entry (of_char c) (vga_curr_color s)) s;
                 s2 = s1\<lparr>vga_col := vga_col s1 + 1\<rparr>
             in Some (vga_update_cursor (if VGA_WIDTH \<le> vga_col s2 then next_row s2 else s2)))"

fun vga_puts :: "string \<Rightarrow> 'a vga_scheme \<Rightarrow> 'a vga_scheme option" where
  "vga_puts [] s = Some s"
| "vga_puts (c # str) s = Option.bind (vga_putchar c s) (vga_puts str)"

definition vga_set_color :: "u8 \<Rightarrow> 'a vga_scheme \<Rightarrow> 'a vga_scheme" where
  "vga_set_color color s = s\<lparr>vga_curr_color := color\<rparr>"

definition vga_set_cursor :: "int \<Rightarrow> int \<Rightarrow> 'a vga_scheme \<Rightarrow> 'a vga_scheme" where
  "vga_set_cursor x y s =
     (if 0 \<le> x \<and> x < VGA_WIDTH \<and> 0 \<le> y \<and> y < VGA_HEIGHT
      then vga_update_cursor (s\<lparr>vga_col := x, vga_row := y\<rparr>) else s)"

subsection \<open>Numbers\<close>

text \<open>\<open>while (n != 0) { buf[i++] = n % b; n /= b; }\<close>: the digits, least significant first.\<close>

fun low_digits :: "nat \<Rightarrow> nat \<Rightarrow> nat list" where
  "low_digits b n = (if n = 0 \<or> b < 2 then [] else n mod b # low_digits b (n div b))"

declare low_digits.simps [simp del]

definition dec_char :: "nat \<Rightarrow> char" where
  "dec_char d = char_of (of_char CHR ''0'' + d)"

definition hex_char :: "nat \<Rightarrow> char" where
  "hex_char d = ''0123456789ABCDEF'' ! d"

text \<open>\<open>%d\<close> of a number that is not negative.\<close>

definition decimal :: "nat \<Rightarrow> string" where
  "decimal n = (if n = 0 then [CHR ''0''] else rev (map dec_char (low_digits 10 n)))"

text \<open>Negating the smallest integer overflows.\<close>

definition vga_putint :: "u32 \<Rightarrow> 'a vga_scheme \<Rightarrow> 'a vga_scheme option" where
  "vga_putint n s =
     (if n = 0 then vga_putchar CHR ''0'' s
      else if sint n = - (2 ^ 31) then None
      else
        let neg = sint n < 0; buf = map dec_char (low_digits 10 (nat \<bar>sint n\<bar>))
        in Option.bind (if neg then vga_putchar CHR ''-'' s else Some s) (vga_puts (rev buf)))"

definition vga_puthex :: "u32 \<Rightarrow> 'a vga_scheme \<Rightarrow> 'a vga_scheme option" where
  "vga_puthex n s = Option.bind (vga_puts ''0x'' s)
     (if n = 0 then vga_putchar CHR ''0'' else vga_puts (rev (map hex_char (low_digits 16 (unat n)))))"

subsection \<open>Cells and cursor\<close>

definition on_screen :: "'a vga_scheme \<Rightarrow> bool" where
  "on_screen s \<longleftrightarrow> 0 \<le> vga_col s \<and> vga_col s < VGA_WIDTH \<and> 0 \<le> vga_row s \<and> vga_row s < VGA_HEIGHT"

lemmas screen_consts = VGA_WIDTH_def VGA_HEIGHT_def

lemma update_cursor_fields [simp]:
  "vga_buffer (vga_update_cursor s) = vga_buffer s" "vga_col (vga_update_cursor s) = vga_col s"
  "vga_row (vga_update_cursor s) = vga_row s" "vga_curr_color (vga_update_cursor s) = vga_curr_color s"
  "vga.more (vga_update_cursor s) = vga.more s" "on_screen (vga_update_cursor s) = on_screen s"
  by (simp_all add: vga_update_cursor_def Let_def outb_def on_screen_def)

lemma set_cell_fields [simp]:
  "vga_buffer (set_cell i v s) = (vga_buffer s)(i := v)" "vga_col (set_cell i v s) = vga_col s"
  "vga_row (set_cell i v s) = vga_row s" "vga_curr_color (set_cell i v s) = vga_curr_color s"
  "vga.more (set_cell i v s) = vga.more s" "port_out (set_cell i v s) = port_out s"
  by (simp_all add: set_cell_def)

lemma for_int_0 [simp]: "for_int 0 body s = s"
  by (simp add: for_int_def)

lemma for_int_Suc: "0 \<le> n \<Longrightarrow> for_int (n + 1) body s = body n (for_int n body s)"
  by (simp add: for_int_def nat_add_distrib)

lemma for_int_induct:
  assumes "0 \<le> n" and "P 0 s" and "\<And>i t. 0 \<le> i \<Longrightarrow> i < n \<Longrightarrow> P i t \<Longrightarrow> P (i + 1) (body i t)"
  shows "P n (for_int n body s)"
proof -
  have "i \<le> n \<Longrightarrow> P i (for_int i body s)" if "0 \<le> i" for i
    using that
  proof (induction i rule: int_ge_induct)
    case (step i)
    then show ?case using assms(3) [of i "for_int i body s"] by (simp add: for_int_Suc)
  qed (use assms(2) in simp)
  then show ?thesis using assms(1) by simp
qed

end
