(* ===== verification/Vga_Screen.thy ===== *)
theory Vga_Screen
  imports Vga Buffers
begin

text \<open>
  Properties of the text screen: where it stores, what scrolling does, and how numbers are
  printed.
\<close>

subsection \<open>The loops over the cells\<close>

text \<open>\<open>t\<close> is \<open>s\<close> with the first \<open>n\<close> cells taken from one row further down.\<close>

definition shifted :: "'a vga_scheme \<Rightarrow> int \<Rightarrow> 'a vga_scheme \<Rightarrow> bool" where
  "shifted s n t \<longleftrightarrow> (\<exists>b. t = s\<lparr>vga_buffer := b\<rparr>
     \<and> (\<forall>j. b j = (if 0 \<le> j \<and> j < n then vga_buffer s (j + 80) else vga_buffer s j)))"

text \<open>\<open>t\<close> is \<open>s\<close> with blanks from cell \<open>a\<close> up to \<open>n\<close>.\<close>

definition blanked :: "'a vga_scheme \<Rightarrow> int \<Rightarrow> int \<Rightarrow> 'a vga_scheme \<Rightarrow> bool" where
  "blanked s a n t \<longleftrightarrow> (\<exists>b. t = s\<lparr>vga_buffer := b\<rparr>
     \<and> (\<forall>j. b j = (if a \<le> j \<and> j < n then blank s else vga_buffer s j)))"

lemma shifted_step: "0 \<le> n \<Longrightarrow> shifted s n t \<Longrightarrow> shifted s (n + 1) (set_cell n (vga_buffer t (n + 80)) t)"
  unfolding shifted_def set_cell_def
  by (elim exE conjE) (rule exI, rule conjI [rotated], auto)

lemma blanked_step: "a \<le> n \<Longrightarrow> blanked s a n t \<Longrightarrow> blanked s a (n + 1) (set_cell n (blank t) t)"
  unfolding blanked_def set_cell_def
  by (elim exE conjE) (rule exI, rule conjI [rotated], auto)

lemma shifted_0: "shifted s 0 s"
  unfolding shifted_def by (rule exI [of _ "vga_buffer s"]) auto

lemma blanked_0: "blanked s a a s"
  unfolding blanked_def by (rule exI [of _ "vga_buffer s"]) auto

lemma shift_loop:
  "shifted s 1920 (for_int 24 (\<lambda>y. for_int 80 (\<lambda>x t. set_cell (y * 80 + x) (vga_buffer t ((y + 1) * 80 + x)) t)) s)"
proof -
  let ?row = "\<lambda>y. for_int 80 (\<lambda>x t. set_cell (y * 80 + x) (vga_buffer t ((y + 1) * 80 + x)) t)"
  have row: "shifted s (y * 80 + 80) (?row y t)" if "0 \<le> y" "shifted s (y * 80) t" for y t
  proof (rule for_int_induct [where P = "\<lambda>x. shifted s (y * 80 + x)"])
    fix x u
    assume "0 \<le> x" "shifted s (y * 80 + x) u"
    then show "shifted s (y * 80 + (x + 1)) (set_cell (y * 80 + x) (vga_buffer u ((y + 1) * 80 + x)) u)"
      using shifted_step [of "y * 80 + x" s u] that(1) by (simp add: algebra_simps)
  qed (use that in simp_all)
  have "shifted s (24 * 80) (for_int 24 ?row s)"
  proof (rule for_int_induct [where P = "\<lambda>y. shifted s (y * 80)"])
    show "shifted s ((y + 1) * 80) (?row y t)" if "0 \<le> y" "shifted s (y * 80) t" for y t
      using row [OF that] by (simp add: algebra_simps)
  qed (simp_all add: shifted_0)
  then show ?thesis by simp
qed

lemma blank_loop: "blanked s a (a + 80) (for_int 80 (\<lambda>x t. set_cell (a + x) (blank t) t) s)"
proof (rule for_int_induct [where P = "\<lambda>x. blanked s a (a + x)"])
  show "blanked s a (a + (x + 1)) (set_cell (a + x) (blank t) t)" if "0 \<le> x" "blanked s a (a + x) t" for x t
    using blanked_step [of a "a + x" s t] that by (simp add: add.assoc)
qed (simp_all add: blanked_0)

text \<open>The cells after \<open>n\<close> rows have been scrolled up by one.\<close>

definition scrolled :: "(int \<Rightarrow> u16) \<Rightarrow> u16 \<Rightarrow> int \<Rightarrow> u16" where
  "scrolled b e i = (if 0 \<le> i \<and> i < 1920 then b (i + 80) else if 1920 \<le> i \<and> i < 2000 then e else b i)"

lemma scroll_effect: "vga_scroll s = s\<lparr>vga_buffer := scrolled (vga_buffer s) (blank s), vga_row := 24\<rparr>"
proof -
  define t where "t = for_int 24 (\<lambda>y. for_int 80 (\<lambda>x t. set_cell (y * 80 + x) (vga_buffer t ((y + 1) * 80 + x)) t)) s"
  define u where "u = for_int 80 (\<lambda>x t. set_cell (1920 + x) (blank t) t) t"
  obtain b where b: "t = s\<lparr>vga_buffer := b\<rparr>"
      "\<And>j. b j = (if 0 \<le> j \<and> j < 1920 then vga_buffer s (j + 80) else vga_buffer s j)"
    using shift_loop [of s] unfolding t_def [symmetric] shifted_def by blast
  obtain c where c: "u = t\<lparr>vga_buffer := c\<rparr>" "\<And>j. c j = (if 1920 \<le> j \<and> j < 2000 then blank t else vga_buffer t j)"
    using blank_loop [of t 1920] unfolding u_def [symmetric] blanked_def by auto
  have "c = scrolled (vga_buffer s) (blank s)"
    by (rule ext) (simp add: c(2) b scrolled_def)
  then have "u = s\<lparr>vga_buffer := scrolled (vga_buffer s) (blank s)\<rparr>" by (simp add: b(1) c(1))
  then show ?thesis by (simp add: vga_scroll_def screen_consts Let_def t_def u_def)
qed

subsection \<open>One character\<close>

text \<open>The cells outside the screen are untouched.\<close>

definition screen_only :: "'a vga_scheme \<Rightarrow> 'a vga_scheme \<Rightarrow> bool" where
  "screen_only s t \<longleftrightarrow> (\<forall>i. i < 0 \<or> 2000 \<le> i \<longrightarrow> vga_buffer t i = vga_buffer s i)
     \<and> vga_curr_color t = vga_curr_color s \<and> vga.more t = vga.more s"

lemma next_row_effect:
  assumes "vga_row s < 24 \<longrightarrow> 0 \<le> vga_row s + 1" "vga_row s \<le> 24"
  shows "on_screen (next_row s) \<and> screen_only s (next_row s)"
  using assms by (auto simp: next_row_def scroll_effect Let_def on_screen_def screen_only_def screen_consts scrolled_def)

lemma tab_bounds:
  fixes c :: int
  assumes "0 \<le> c"
  shows "0 \<le> (c + 8) AND NOT 7"
  using assms by simp

lemma putchar_effect:
  assumes s: "on_screen s"
  shows "\<exists>t. vga_putchar c s = Some t \<and> on_screen t \<and> screen_only s t"
proof -
  have idx: "0 \<le> vga_row s * 80 + vga_col s" "vga_row s * 80 + vga_col s < 2000"
    using s by (simp_all add: on_screen_def screen_consts)
  have row: "on_screen (next_row u) \<and> screen_only u (next_row u)" if "vga_row u = vga_row s" for u :: "'a vga_scheme"
    using that s by (intro next_row_effect) (simp_all add: on_screen_def screen_consts)
  have tab: "0 \<le> (vga_col s + 8) AND NOT 7" using s by (intro tab_bounds) (simp add: on_screen_def)
  consider "c = CHR 0x0A" | "c = CHR 0x0D" | "c = CHR 0x09" | "c \<notin> {CHR 0x0A, CHR 0x0D, CHR 0x09}" by blast
  then show ?thesis
  proof cases
    case 1
    then show ?thesis using row [of s] by (auto simp: vga_putchar_def screen_only_def)
  next
    case 2
    then show ?thesis using s by (auto simp: vga_putchar_def screen_only_def on_screen_def screen_consts)
  next
    case 3
    then show ?thesis
      using s tab row [of "s\<lparr>vga_col := (vga_col s + 8) AND NOT 7\<rparr>"]
      by (auto simp: vga_putchar_def Let_def screen_only_def on_screen_def screen_consts)
  next
    case 4
    let ?s = "(set_cell (vga_row s * 80 + vga_col s) (vga_entry (of_char c) (vga_curr_color s)) s)\<lparr>vga_col := vga_col s + 1\<rparr>"
    show ?thesis
      using 4 s idx row [of ?s]
      by (auto simp: vga_putchar_def Let_def screen_only_def on_screen_def screen_consts)
  qed
qed

lemma puts_effect: "on_screen s \<Longrightarrow> \<exists>t. vga_puts str s = Some t \<and> on_screen t \<and> screen_only s t"
proof (induction str arbitrary: s)
  case Nil
  then show ?case by (simp add: screen_only_def)
next
  case (Cons c str)
  obtain t where t: "vga_putchar c s = Some t" "on_screen t" "screen_only s t"
    using putchar_effect [OF Cons.prems] by blast
  then show ?case using Cons.IH [OF t(2)] by (auto simp: screen_only_def)
qed

subsection \<open>Printed numbers\<close>

fun digits_value :: "nat \<Rightarrow> nat list \<Rightarrow> nat" where
  "digits_value b [] = 0"
| "digits_value b (d # xs) = d + b * digits_value b xs"

lemma digits_value_low: "1 < b \<Longrightarrow> digits_value b (low_digits b n) = n"
proof (induction b n rule: low_digits.induct)
  case (1 b n)
  then show ?case by (subst low_digits.simps) simp
qed

lemma low_digits_less: "d \<in> set (low_digits b n) \<Longrightarrow> d < b"
proof (induction b n rule: low_digits.induct)
  case (1 b n)
  then show ?case by (subst (asm) low_digits.simps) (auto split: if_splits)
qed

lemma low_digits_length: "n < b ^ k \<Longrightarrow> length (low_digits b n) \<le> k"
proof (induction k arbitrary: n)
  case 0
  then show ?case by (simp add: low_digits.simps)
next
  case (Suc k)
  have "n div b < b ^ k" if "b \<noteq> 0" using Suc.prems that by (simp add: less_mult_imp_div_less mult.commute)
  then show ?case using Suc.IH by (subst low_digits.simps) simp
qed

lemma low_digits_nonempty: "n \<noteq> 0 \<Longrightarrow> 1 < b \<Longrightarrow> low_digits b n \<noteq> []"
  by (subst low_digits.simps) simp

text \<open>Reading a number back: an optional sign, then decimal digits; or \<open>0x\<close> and hexadecimal
  digits.\<close>

definition dec_digit :: "char \<Rightarrow> nat" where
  "dec_digit c = of_char c - 48"

definition hex_digit :: "char \<Rightarrow> nat" where
  "hex_digit c = (if of_char c \<le> (57 :: nat) then of_char c - 48 else of_char c - 55)"

definition read_int :: "string \<Rightarrow> int" where
  "read_int str = (if str \<noteq> [] \<and> hd str = CHR ''-''
     then - int (digits_value 10 (map dec_digit (rev (tl str))))
     else int (digits_value 10 (map dec_digit (rev str))))"

definition read_hex :: "string \<Rightarrow> nat" where
  "read_hex str = digits_value 16 (map hex_digit (rev (drop 2 str)))"

lemma dec_digit_char: "d < 10 \<Longrightarrow> dec_digit (dec_char d) = d \<and> dec_char d \<noteq> CHR ''-''"
proof -
  have "\<forall>d \<in> set [0..<10]. dec_digit (dec_char d) = d \<and> dec_char d \<noteq> CHR ''-''" by code_simp
  then show "d < 10 \<Longrightarrow> dec_digit (dec_char d) = d \<and> dec_char d \<noteq> CHR ''-''" by simp
qed

lemma hex_digit_char: "d < 16 \<Longrightarrow> hex_digit (hex_char d) = d"
proof -
  have "\<forall>d \<in> set [0..<16]. hex_digit (hex_char d) = d" by code_simp
  then show "d < 16 \<Longrightarrow> hex_digit (hex_char d) = d" by simp
qed

lemma dec_text:
  defines "str n \<equiv> rev (map dec_char (low_digits 10 n))"
  shows "digits_value 10 (map dec_digit (rev (str n))) = n" and "n \<noteq> 0 \<Longrightarrow> read_int (str n) = int n"
    and "read_int (CHR ''-'' # str n) = - int n"
proof -
  have "map dec_digit (rev (str n)) = low_digits 10 n"
    by (simp add: str_def) (rule map_idI, simp add: dec_digit_char low_digits_less)
  then show v: "digits_value 10 (map dec_digit (rev (str n))) = n" by (simp add: digits_value_low)
  show "read_int (CHR ''-'' # str n) = - int n" using v by (simp add: read_int_def)
  assume "n \<noteq> 0"
  then have ne: "str n \<noteq> []" using low_digits_nonempty [of n 10] by (simp add: str_def)
  then have "hd (str n) \<in> set (str n)" by simp
  then have "hd (str n) \<noteq> CHR ''-''"
    by (auto simp: str_def) (metis dec_digit_char low_digits_less)
  then show "read_int (str n) = int n" using v by (simp add: read_int_def)
qed

lemma puts_Nil [simp]: "vga_puts [] = Some"
  by (rule ext) simp

lemma puts_one: "vga_putchar c = vga_puts [c]"
  by (rule ext) simp

lemma puts_append: "vga_puts (xs @ ys) s = Option.bind (vga_puts xs s) (vga_puts ys)"
proof (induction xs arbitrary: s)
  case (Cons c xs)
  then show ?case by (cases "vga_putchar c s") simp_all
qed simp

lemma hex_text:
  "\<exists>str. vga_puthex m s = vga_puts (''0x'' @ str) s \<and> read_hex (''0x'' @ str) = unat m \<and> length str \<le> 8"
proof (cases "m = 0")
  case True
  then show ?thesis
    by (intro exI [of _ "[CHR ''0'']"])
      (simp add: vga_puthex_def puts_append [symmetric] puts_one read_hex_def hex_digit_def del: vga_puts.simps)
next
  case False
  let ?hex = "rev (map hex_char (low_digits 16 (unat m)))"
  have "unat m < 16 ^ 8" using unsigned_less [of m, where 'a = nat] by simp
  then have "length ?hex \<le> 8" using low_digits_length by simp
  moreover have "map hex_digit (map hex_char (low_digits 16 (unat m))) = low_digits 16 (unat m)"
    unfolding map_map by (rule map_idI) (simp add: hex_digit_char low_digits_less)
  then have "read_hex (''0x'' @ ?hex) = unat m" by (simp add: read_hex_def digits_value_low)
  ultimately show ?thesis using False
    by (intro exI [of _ ?hex]) (simp add: vga_puthex_def puts_append [symmetric] del: vga_puts.simps)
qed

lemma int_text:
  assumes "sint n \<noteq> - (2 ^ 31)"
  shows "\<exists>str. vga_putint n s = vga_puts str s \<and> read_int str = sint n \<and> length str \<le> 11"
proof -
  let ?a = "nat \<bar>sint n\<bar>"
  let ?str = "rev (map dec_char (low_digits 10 ?a))"
  have "?a < 10 ^ 10" using sint_ge [of n] sint_lt [of n] by simp
  then have len: "length ?str \<le> 10" using low_digits_length by simp
  show ?thesis
  proof (cases "n = 0")
    case True
    then show ?thesis
      by (intro exI [of _ "[CHR ''0'']"]) (simp add: vga_putint_def read_int_def dec_digit_def)
  next
    case False
    then have nz: "?a \<noteq> 0" by (simp add: signed_eq_0_iff)
    show ?thesis
    proof (cases "sint n < 0")
      case True
      then show ?thesis using False assms dec_text(3) [of ?a] len
        by (intro exI [of _ "CHR ''-'' # ?str"]) (simp add: vga_putint_def)
    next
      case pos: False
      then show ?thesis using False assms dec_text(2) [OF nz] len
        by (intro exI [of _ ?str]) (simp add: vga_putint_def)
    qed
  qed
qed

text \<open>The numbers on the screen are the numbers printed.  For every 32-bit integer except
  the smallest, \<open>vga_putint\<close> prints a text of at most 11 characters (what its buffer holds)
  that reads as that integer, and \<open>vga_puthex\<close> a text of at most 10 that reads as the
  unsigned value.\<close>

theorem vga_numbers_read_back:
  assumes "sint n \<noteq> - (2 ^ 31)"
  shows "(\<exists>str. vga_putint n s = vga_puts str s \<and> read_int str = sint n \<and> length str \<le> 11)
    \<and> (\<exists>str. vga_puthex m s = vga_puts str s \<and> read_hex str = unat m \<and> length str \<le> 10)"
proof
  show "\<exists>str. vga_putint n s = vga_puts str s \<and> read_int str = sint n \<and> length str \<le> 11"
    by (rule int_text [OF assms])
  show "\<exists>str. vga_puthex m s = vga_puts str s \<and> read_hex str = unat m \<and> length str \<le> 10"
    using hex_text [of m s] by fastforce
qed

theorem vga_numbers_read_back_witness:
  "sint (- 120 :: u32) \<noteq> - (2 ^ 31)
   \<and> (\<exists>str. vga_putint (- 120) (undefined :: vga) = vga_puts str undefined \<and> read_int str = - 120)"
proof -
  have m: "sint (- 120 :: u32) = - 120" by simp
  then have "sint (- 120 :: u32) \<noteq> - (2 ^ 31)" by simp
  then obtain str where "vga_putint (- 120) (undefined :: vga) = vga_puts str undefined"
      "read_int str = sint (- 120 :: u32)"
    using vga_numbers_read_back [of "- 120" "undefined :: vga" 0] by blast
  then show ?thesis using m by auto
qed

subsection \<open>Text\<close>

text \<open>The position the hardware was told last.\<close>

definition cursor_shown :: "'a vga_scheme \<Rightarrow> bool" where
  "cursor_shown s \<longleftrightarrow> (\<exists>log lo hi. port_out s = log @ [(0x3D4, 0x0F), (0x3D5, lo), (0x3D4, 0x0E), (0x3D5, hi)]
     \<and> int (unat lo + 256 * unat hi) = vga_row s * 80 + vga_col s)"

definition plain :: "char \<Rightarrow> bool" where
  "plain c \<longleftrightarrow> c \<notin> {CHR 0x0A, CHR 0x0D, CHR 0x09}"

lemma u16_of_int: "0 \<le> k \<Longrightarrow> k < 65536 \<Longrightarrow> int (unat (of_int k :: u16)) = k"
  by (simp add: unsigned_of_int take_bit_int_eq_self)

lemma update_cursor_shown:
  assumes "on_screen s"
  shows "cursor_shown (vga_update_cursor s)"
proof -
  let ?i = "vga_row s * 80 + vga_col s"
  define w :: u16 where "w = of_int ?i"
  have i: "0 \<le> ?i" "?i < 2000" using assms by (simp_all add: on_screen_def screen_consts)
  then have w: "int (unat w) = ?i" unfolding w_def by (intro u16_of_int) simp_all
  let ?lo = "ucast (w AND 0xFF) :: u8" and ?hi = "ucast (drop_bit 8 w AND 0xFF) :: u8"
  have b: "?lo = ucast w" "?hi = ucast (drop_bit 8 w)"
    by (rule bit_word_eqI, auto simp: bit_simps mask_consts simp flip: mask_eq_exp_minus_1)+
  have "unat ?lo + 256 * unat ?hi = unat w"
    using unat_word16 [of ?lo ?hi] by (simp add: b)
  then show ?thesis
    using w unfolding cursor_shown_def
    by (intro exI [of _ "port_out s"] exI [of _ ?lo] exI [of _ ?hi])
      (simp add: vga_update_cursor_def screen_consts Let_def outb_def w_def)
qed

lemma putchar_shown:
  assumes "on_screen s" and "vga_putchar c s = Some t"
  shows "cursor_shown t"
proof -
  obtain u where u: "t = vga_update_cursor u"
    using assms(2) by (auto simp: vga_putchar_def Let_def split: if_splits)
  moreover have "on_screen t" using putchar_effect [OF assms(1), of c] assms(2) by auto
  ultimately show ?thesis by (simp add: update_cursor_shown)
qed

lemma puts_shown: "on_screen s \<Longrightarrow> str \<noteq> [] \<Longrightarrow> vga_puts str s = Some t \<Longrightarrow> cursor_shown t"
proof (induction str arbitrary: s)
  case (Cons c str)
  obtain u where u: "vga_putchar c s = Some u" "on_screen u" "vga_puts str u = Some t"
    using putchar_effect [OF Cons.prems(1), of c] Cons.prems(3) by auto
  show ?case
  proof (cases "str = []")
    case True
    then show ?thesis using u putchar_shown [OF Cons.prems(1)] by simp
  qed (use Cons.IH u in blast)
qed simp

text \<open>Text without control characters that leaves the last column of its row free.\<close>

definition text_at :: "int \<Rightarrow> u8 \<Rightarrow> string \<Rightarrow> (int \<Rightarrow> u16) \<Rightarrow> int \<Rightarrow> u16" where
  "text_at p color str b i =
     (if p \<le> i \<and> i < p + int (length str) then vga_entry (of_char (str ! nat (i - p))) color else b i)"

lemma text_at_Cons:
  "text_at p color (c # str) b = text_at (p + 1) color str (b(p := vga_entry (of_char c) color))"
proof (rule ext)
  fix i
  show "text_at p color (c # str) b i = text_at (p + 1) color str (b(p := vga_entry (of_char c) color)) i"
  proof (cases "p < i")
    case True
    then have "nat (i - p) = Suc (nat (i - (p + 1)))" by simp
    then show ?thesis using True by (auto simp: text_at_def)
  next
    case False
    then show ?thesis by (auto simp: text_at_def)
  qed
qed

lemma puts_line:
  assumes "on_screen s" and "\<forall>c \<in> set str. plain c" and "vga_col s + int (length str) < 80"
  shows "\<exists>t. vga_puts str s = Some t \<and> vga_row t = vga_row s \<and> vga_col t = vga_col s + int (length str)
    \<and> vga_buffer t = text_at (vga_row s * 80 + vga_col s) (vga_curr_color s) str (vga_buffer s)"
  using assms
proof (induction str arbitrary: s)
  case Nil
  then show ?case by (auto simp: text_at_def fun_eq_iff)
next
  case (Cons c str)
  let ?i = "vga_row s * 80 + vga_col s"
  let ?u = "vga_update_cursor ((set_cell ?i (vga_entry (of_char c) (vga_curr_color s)) s)\<lparr>vga_col := vga_col s + 1\<rparr>)"
  have u: "vga_putchar c s = Some ?u"
    using Cons.prems by (simp add: vga_putchar_def plain_def Let_def on_screen_def screen_consts)
  have "on_screen ?u" using Cons.prems by (simp add: on_screen_def screen_consts)
  then obtain t where "vga_puts str ?u = Some t" "vga_row t = vga_row s"
      "vga_col t = vga_col s + 1 + int (length str)"
      "vga_buffer t = text_at (?i + 1) (vga_curr_color s) str ((vga_buffer s)(?i := vga_entry (of_char c) (vga_curr_color s)))"
    using Cons.IH [of ?u] Cons.prems by (auto simp: add.assoc fun_upd_def)
  then show ?case by (simp add: u text_at_Cons fun_upd_def)
qed

text \<open>C24: printing stays on the screen.  From a cursor on the screen every string is printed
  without a store outside the 2000 cells, with the cursor on the screen and shown by the
  hardware where the program keeps it; and a text without control characters that fits in its
  row appears at the cursor and changes no other cell.\<close>

theorem vga_puts_on_screen:
  assumes "on_screen s"
  shows "\<exists>t. vga_puts str s = Some t \<and> on_screen t \<and> screen_only s t \<and> (str = [] \<or> cursor_shown t)
    \<and> ((\<forall>c \<in> set str. plain c) \<and> vga_col s + int (length str) < 80 \<longrightarrow>
        vga_buffer t = text_at (vga_row s * 80 + vga_col s) (vga_curr_color s) str (vga_buffer s))"
proof -
  obtain t where "vga_puts str s = Some t" "on_screen t" "screen_only s t"
    using puts_effect [OF assms] by blast
  then show ?thesis using puts_shown [OF assms] puts_line [OF assms, of str] by auto
qed

definition sample_vga :: vga where
  "sample_vga = \<lparr>mem = (\<lambda>_. 0), klog = [], port_out = [], port_in = (\<lambda>_ _. 0), port_reads = (\<lambda>_. 0),
     interrupt_handlers = [], vga_buffer = (\<lambda>_. 0), vga_col = 0, vga_row = 24, vga_curr_color = 7\<rparr>"

theorem vga_puts_on_screen_witness:
  "\<exists>t. vga_puts ''REXUS'' sample_vga = Some t \<and> on_screen t \<and> vga_buffer t 1922 = vga_entry (of_char CHR ''X'') 7"
proof -
  have s: "on_screen sample_vga" by (simp add: on_screen_def sample_vga_def screen_consts)
  have "\<forall>c \<in> set ''REXUS''. plain c" by (simp add: plain_def)
  moreover have "vga_col sample_vga + int (length ''REXUS'') < 80" by (simp add: sample_vga_def)
  ultimately show ?thesis
    using vga_puts_on_screen [OF s, of "''REXUS''"] by (auto simp: text_at_def sample_vga_def)
qed

end
