(* ===== verification/Ipv4_Text.thy ===== *)
theory Ipv4_Text
  imports Ipv4 Ethernet Vga_Screen
begin

text \<open>
  Addresses as text, at the end of net/ipv4.c.  \<open>sprintf\<close> and \<open>sscanf\<close> are modelled for the
  format used, four decimal numbers with dots between them.
\<close>

subsection \<open>Printing and scanning\<close>

text \<open>A null pointer, for the address or the text, makes both return at once.\<close>

definition ipv4_addr_to_string :: "ipv4_addr option \<Rightarrow> string option \<Rightarrow> string option" where
  "ipv4_addr_to_string addr str =
     (case (addr, str) of
        (Some a, Some _) \<Rightarrow>
          Some (decimal (unat (octet0 a)) @ ''.'' @ decimal (unat (octet1 a)) @ ''.''
             @ decimal (unat (octet2 a)) @ ''.'' @ decimal (unat (octet3 a)))
      | _ \<Rightarrow> str)"

text \<open>\<open>%u\<close> of \<open>sscanf\<close>: blanks, a sign, decimal digits.  A number that does not fit 32 bits is
  undefined.\<close>

definition is_dec :: "char \<Rightarrow> bool" where
  "is_dec c \<longleftrightarrow> 48 \<le> (of_char c :: nat) \<and> (of_char c :: nat) \<le> 57"

definition scan_dec_digits :: "bool \<Rightarrow> string \<Rightarrow> scanned" where
  "scan_dec_digits neg str =
     (let digits = takeWhile is_dec str;
          n = foldl (\<lambda>n c. 10 * n + dec_digit c) 0 digits
      in if digits = [] then No_match
         else if 2 ^ 32 \<le> n then Overflow
         else Scanned (if neg then - of_nat n else of_nat n) (dropWhile is_dec str))"

definition scan_dec :: "string \<Rightarrow> scanned" where
  "scan_dec str =
     (case dropWhile is_space str of [] \<Rightarrow> No_match
      | c # rest \<Rightarrow>
          if c = CHR ''-'' then scan_dec_digits True rest
          else if c = CHR ''+'' then scan_dec_digits False rest
          else scan_dec_digits False (c # rest))"

text \<open>The values assigned for \<open>n\<close> conversions with dots between them.\<close>

fun scan_dotted :: "nat \<Rightarrow> string \<Rightarrow> u32 list option" where
  "scan_dotted 0 str = Some []"
| "scan_dotted (Suc n) str =
     (case scan_dec str of
        Overflow \<Rightarrow> None
      | No_match \<Rightarrow> Some []
      | Scanned v rest \<Rightarrow>
          (if n \<noteq> 0 \<and> rest \<noteq> [] \<and> hd rest = CHR ''.''
           then map_option ((#) v) (scan_dotted n (tl rest)) else Some [v]))"

definition ipv4_string_to_addr :: "string option \<Rightarrow> ipv4_addr option \<Rightarrow> (bool \<times> ipv4_addr option) option" where
  "ipv4_string_to_addr str addr =
     (case (str, addr) of
        (Some txt, Some _) \<Rightarrow>
          (case scan_dotted 4 txt of
             None \<Rightarrow> None
           | Some [a, b, c, d] \<Rightarrow>
               if 255 < a \<or> 255 < b \<or> 255 < c \<or> 255 < d then Some (False, addr)
               else Some (True, Some (Addr (ucast a) (ucast b) (ucast c) (ucast d)))
           | Some _ \<Rightarrow> Some (False, addr))
      | _ \<Rightarrow> Some (False, addr))"

subsection \<open>What is printed reads back\<close>

lemma dec_char_facts: "d < 10 \<Longrightarrow> is_dec (dec_char d) \<and> \<not> is_space (dec_char d) \<and> dec_char d \<noteq> CHR ''-'' \<and> dec_char d \<noteq> CHR ''+''"
proof -
  have "\<forall>d \<in> set [0..<10]. is_dec (dec_char d) \<and> \<not> is_space (dec_char d) \<and> dec_char d \<noteq> CHR ''-'' \<and> dec_char d \<noteq> CHR ''+''"
    by code_simp
  then show "d < 10 \<Longrightarrow> is_dec (dec_char d) \<and> \<not> is_space (dec_char d) \<and> dec_char d \<noteq> CHR ''-'' \<and> dec_char d \<noteq> CHR ''+''" by simp
qed

lemma foldl_digits_value:
  "foldl (\<lambda>n c. 10 * n + dec_digit c) 0 str = digits_value 10 (map dec_digit (rev str))"
proof -
  have "foldl (\<lambda>n c. 10 * n + dec_digit c) 0 (rev xs) = digits_value 10 (map dec_digit xs)" for xs
    by (induction xs) simp_all
  from this [of "rev str"] show ?thesis by simp
qed

lemma decimal_facts:
  "decimal n \<noteq> []" "c \<in> set (decimal n) \<Longrightarrow> is_dec c \<and> \<not> is_space c \<and> c \<noteq> CHR ''-'' \<and> c \<noteq> CHR ''+''"
  "digits_value 10 (map dec_digit (rev (decimal n))) = n"
proof -
  have zero: "[CHR ''0''] = [dec_char 0]" by code_simp
  show "decimal n \<noteq> []" using low_digits_nonempty [of n 10] by (simp add: decimal_def)
  show "is_dec c \<and> \<not> is_space c \<and> c \<noteq> CHR ''-'' \<and> c \<noteq> CHR ''+''" if "c \<in> set (decimal n)"
    using that low_digits_less [of _ 10 n] unfolding decimal_def zero
    by (auto simp: dec_char_facts split: if_splits)
  show "digits_value 10 (map dec_digit (rev (decimal n))) = n"
    using dec_text(1) [of n] dec_digit_char [of 0] unfolding decimal_def zero by auto
qed

lemma scan_decimal:
  assumes n: "n < 2 ^ 32" and rest: "rest = [] \<or> \<not> is_dec (hd rest)"
  shows "scan_dec (decimal n @ rest) = Scanned (of_nat n) rest"
proof -
  have all: "\<forall>c \<in> set (decimal n). is_dec c" using decimal_facts(2) by blast
  have "takeWhile is_dec rest = []" "dropWhile is_dec rest = rest" using rest by (cases rest; auto)+
  then have digits: "takeWhile is_dec (decimal n @ rest) = decimal n" "dropWhile is_dec (decimal n @ rest) = rest"
    using all by (simp_all add: takeWhile_append2 dropWhile_append2)
  obtain c str where c: "decimal n @ rest = c # str" "c \<in> set (decimal n)"
    using decimal_facts(1) [of n] by (cases "decimal n") auto
  have "scan_dec (decimal n @ rest) = scan_dec_digits False (decimal n @ rest)"
    using decimal_facts(2) [OF c(2)] unfolding c(1) by (simp add: scan_dec_def)
  also have "\<dots> = Scanned (of_nat n) rest"
    using n decimal_facts(1) unfolding scan_dec_digits_def digits foldl_digits_value Let_def decimal_facts(3) by simp
  finally show ?thesis .
qed

lemma scan_octet:
  assumes "rest = [] \<or> \<not> is_dec (hd rest)"
  shows "scan_dec (decimal (unat (b :: u8)) @ rest) = Scanned (ucast b) rest"
proof -
  have "unat b < 2 ^ 32" using unsigned_less [of b, where 'a = nat] by simp
  moreover have "of_nat (unat b) = (ucast b :: u32)"
    using calculation by (intro word_unat_eqI) (simp add: unat_ucast_up unat_of_nat take_bit_nat_eq_self)
  ultimately show ?thesis using scan_decimal assms by metis
qed

lemma dot_no_digit: "\<not> is_dec CHR ''.''"
  by (simp add: is_dec_def)

lemma octet_fits: "\<not> 255 < (ucast (b :: u8) :: u32)" "ucast (ucast b :: u32) = b"
proof -
  have "unat (ucast b :: u32) \<le> 255" using unsigned_less [of b, where 'a = nat] by (simp add: unat_ucast_up)
  then show "\<not> 255 < (ucast b :: u32)" by (simp add: word_less_nat_alt)
  show "ucast (ucast b :: u32) = b" by (rule bit_word_eqI) (simp add: bit_simps)
qed

text \<open>For every address the text that \<open>ipv4_addr_to_string\<close> stores is read back by
  \<open>ipv4_string_to_addr\<close> as the same address.\<close>

theorem ipv4_text_roundtrip:
  "ipv4_string_to_addr (ipv4_addr_to_string (Some addr) (Some buf)) (Some old) = Some (True, Some addr)"
proof (cases addr)
  case (Addr a b c d)
  have "scan_dotted 4 (decimal (unat a) @ ''.'' @ decimal (unat b) @ ''.'' @ decimal (unat c) @ ''.'' @ decimal (unat d))
      = Some [ucast a, ucast b, ucast c, ucast d]"
    using scan_octet [of "[]" d] by (simp add: scan_octet dot_no_digit eval_nat_numeral)
  then show ?thesis by (simp add: Addr ipv4_addr_to_string_def ipv4_string_to_addr_def octet_fits)
qed

end
