(* ===== verification/Pmm_Init.thy ===== *)
theory Pmm_Init
  imports Pmm
begin

text \<open>
  \<open>pmm_init\<close> of mem/pmm.c: the walk over the multiboot memory map, the placement of the
  bitmap, and what the allocator can do afterwards.
\<close>

subsection \<open>Initialisation from the multiboot memory map\<close>

text \<open>
  Field addresses of the packed structures \<open>multiboot_info_t\<close> (flags at 0, \<open>mmap_length\<close>
  at 44, \<open>mmap_addr\<close> at 48) and \<open>mmap_entry_t\<close> (size at 0, base at 4, length at 12, type
  at 20).  The walk over the entries is a loop whose step is read from memory, so it is a
  partial function: \<open>None\<close> means that it does not return.
\<close>

definition mb_flags :: "u32 \<Rightarrow> 'a pmm_scheme \<Rightarrow> u32" where
  "mb_flags mb s = rd32 mb s"

definition mb_mmap_length :: "u32 \<Rightarrow> 'a pmm_scheme \<Rightarrow> u32" where
  "mb_mmap_length mb s = rd32 (mb + 44) s"

definition mb_mmap_addr :: "u32 \<Rightarrow> 'a pmm_scheme \<Rightarrow> u32" where
  "mb_mmap_addr mb s = rd32 (mb + 48) s"

definition ent_size :: "u32 \<Rightarrow> 'a pmm_scheme \<Rightarrow> u32" where
  "ent_size a s = rd32 a s"

definition ent_base_addr :: "u32 \<Rightarrow> 'a pmm_scheme \<Rightarrow> u64" where
  "ent_base_addr a s = rd64 (a + 4) s"

definition ent_length :: "u32 \<Rightarrow> 'a pmm_scheme \<Rightarrow> u64" where
  "ent_length a s = rd64 (a + 12) s"

definition ent_type :: "u32 \<Rightarrow> 'a pmm_scheme \<Rightarrow> u32" where
  "ent_type a s = rd32 (a + 20) s"

definition scan_entry :: "u32 \<Rightarrow> 'a pmm_scheme \<Rightarrow> 'a pmm_scheme" where
  "scan_entry mmap s =
     (if ent_type mmap s = 1
      then let region_end = ucast (ent_base_addr mmap s + ent_length mmap s) in
        if mem_max_addr s < region_end then s\<lparr>mem_max_addr := region_end\<rparr> else s
      else s)"

definition reserve_entry :: "u32 \<Rightarrow> 'a pmm_scheme \<Rightarrow> 'a pmm_scheme" where
  "reserve_entry mmap s =
     (if ent_type mmap s \<noteq> 1
      then let block_start = ucast (ent_base_addr mmap s) div 4096;
               block_end = (ucast (ent_base_addr mmap s) + ucast (ent_length mmap s) + 4096 - 1) div 4096
           in for_lt block_start block_end (\<lambda>i t. i < mem_blocks t) pmm_set_block s
      else s)"

partial_function (option) mmap_walk ::
  "(u32 \<Rightarrow> 'a pmm_scheme \<Rightarrow> 'a pmm_scheme) \<Rightarrow> u32 \<Rightarrow> u32 \<Rightarrow> 'a pmm_scheme \<Rightarrow> 'a pmm_scheme option"
where
  "mmap_walk visit mmap mmap_end s =
     (if mmap < mmap_end
      then let t = visit mmap s in mmap_walk visit (mmap + ent_size mmap t + 4) mmap_end t
      else Some s)"

definition pmm_layout :: "'a pmm_scheme \<Rightarrow> 'a pmm_scheme" where
  "pmm_layout s =
     (let blocks = mem_max_addr s div 4096;
          bytes = (if blocks mod 8 \<noteq> 0 then blocks div 8 + 1 else blocks div 8)
      in s\<lparr>mem_size := mem_max_addr s, mem_blocks := blocks, pmm_memory_map_size := bytes,
           pmm_memory_map := (mem_max_addr s + 4096 - 1) AND NOT (4096 - 1)\<rparr>)"

definition pmm_mark_kernel :: "'a pmm_scheme \<Rightarrow> 'a pmm_scheme" where
  "pmm_mark_kernel s1 =
     (let s2 = pmm_layout s1;
          s3 = memset0 (pmm_memory_map s2) (pmm_memory_map_size s2) s2;
          kernel_end = pmm_memory_map s3 + pmm_memory_map_size s3
      in for_lt 0 (kernel_end div 4096) (\<lambda>_ _. True) pmm_set_block s3)"

definition pmm_report :: "'a pmm_scheme \<Rightarrow> 'a pmm_scheme" where
  "pmm_report s =
     (let s1 = kprint (Puts ''PMM: Initialized, '') s;
          s2 = kprint (Put_int (mem_size s1 div 1024 div 1024)) s1;
          s3 = kprint (Puts '' MB, '') s2;
          s4 = kprint (Put_int (mem_blocks s3)) s3;
          s5 = kprint (Puts '' blocks, '') s4;
          s6 = kprint (Put_int (mem_blocks s5 - mem_used_blocks s5)) s5
      in kprint (Puts ('' free'' @ newline)) s6)"

definition pmm_init :: "u32 \<Rightarrow> 'a pmm_scheme \<Rightarrow> 'a pmm_scheme option" where
  "pmm_init mboot_addr s =
     (if mb_flags mboot_addr s AND 0x40 = 0
      then Some (kprint (Puts (''PMM: No memory map provided by bootloader!'' @ newline)) s)
      else let mmap = mb_mmap_addr mboot_addr s;
               mmap_end = mb_mmap_addr mboot_addr s + mb_mmap_length mboot_addr s
        in case mmap_walk scan_entry mmap mmap_end s of
             None \<Rightarrow> None
           | Some s1 \<Rightarrow>
               let s4 = pmm_mark_kernel s1
               in map_option pmm_report
                    (mmap_walk reserve_entry (mb_mmap_addr mboot_addr s4) mmap_end s4))"

subsection \<open>The state \<open>pmm_init\<close> leaves\<close>

lemma kprint_pmm_fields [simp]:
  "mem_blocks (kprint d s) = mem_blocks s" "mem_used_blocks (kprint d s) = mem_used_blocks s"
  "pmm_memory_map (kprint d s) = pmm_memory_map s" "mem_max_addr (kprint d s) = mem_max_addr s"
  "pmm_memory_map_size (kprint d s) = pmm_memory_map_size s" "mem_size (kprint d s) = mem_size s"
  by (simp_all add: kprint_def)

lemma test_block_kprint [simp]: "pmm_test_block b (kprint d s) = pmm_test_block b s"
  by (simp add: pmm_test_block_def bm_addr_def)

lemma memset0_pmm_fields [simp]:
  "mem_blocks (memset0 p n s) = mem_blocks s" "pmm_memory_map (memset0 p n s) = pmm_memory_map s"
  "pmm_memory_map_size (memset0 p n s) = pmm_memory_map_size s"
  "mem_max_addr (memset0 p n s) = mem_max_addr s" "mem_used_blocks (memset0 p n s) = mem_used_blocks s"
  by (simp_all add: memset0_def)

lemma set_block_more_fields [simp]:
  "mem_max_addr (pmm_set_block b s) = mem_max_addr s"
  "pmm_memory_map_size (pmm_set_block b s) = pmm_memory_map_size s"
  "mem_size (pmm_set_block b s) = mem_size s"
  by (simp_all add: pmm_set_block_def wr32_def)

lemma mmap_walk_invariant:
  assumes "mmap_walk visit a e s = Some t" and "P s" and keep: "\<And>a u. P u \<Longrightarrow> P (visit a u)"
  shows "P t"
proof -
  have "(\<forall>a u. P u \<longrightarrow> P (visit a u)) \<longrightarrow> P s \<longrightarrow> P t"
  proof (rule mmap_walk.raw_induct
      [where P = "\<lambda>v a e s t. (\<forall>a u. P u \<longrightarrow> P (v a u)) \<longrightarrow> P s \<longrightarrow> P t", OF _ assms(1)])
    fix walk v a e s t
    assume IH: "\<And>v a e s t. walk v a e s = Some t \<Longrightarrow>
        (\<forall>a u. P u \<longrightarrow> P (v a u)) \<longrightarrow> P s \<longrightarrow> P t"
      and eq: "(if a < e then let t = v a s in walk v (a + ent_size a t + 4) e t else Some s) = Some t"
    show "(\<forall>a u. P u \<longrightarrow> P (v a u)) \<longrightarrow> P s \<longrightarrow> P t"
      using eq by (auto simp: Let_def split: if_splits dest!: IH)
  qed
  then show ?thesis using assms(2) keep by blast
qed

text \<open>Marking a range leaves every bit of it set, and no bit is ever cleared.\<close>

lemma set_loop_marks:
  assumes "j < n"
  shows "pmm_test_block j (for_lt 0 n (\<lambda>_ _. True) pmm_set_block s)"
proof -
  have "\<forall>j<n. pmm_test_block j (for_lt 0 n (\<lambda>_ _. True) pmm_set_block s)"
    by (rule for_lt_all [where P = "\<lambda>i t. \<forall>j<i. pmm_test_block j t"])
      (auto simp: word_less_Suc_iff)
  then show ?thesis using assms by blast
qed

lemma reserve_entry_keeps:
  "pmm_test_block b s \<Longrightarrow> pmm_test_block b (reserve_entry a s)"
  "mem_blocks (reserve_entry a s) = mem_blocks s"
  "mem_max_addr (reserve_entry a s) = mem_max_addr s"
  "pmm_memory_map (reserve_entry a s) = pmm_memory_map s"
  unfolding reserve_entry_def Let_def
  by (auto intro!: for_lt_invariant [where P = "pmm_test_block b"]
      for_lt_invariant [where P = "\<lambda>t. mem_blocks t = mem_blocks s"]
      for_lt_invariant [where P = "\<lambda>t. mem_max_addr t = mem_max_addr s"]
      for_lt_invariant [where P = "\<lambda>t. pmm_memory_map t = pmm_memory_map s"])

lemma set_loop_fields:
  "mem_blocks (for_lt 0 n (\<lambda>_ _. True) pmm_set_block s) = mem_blocks s"
  "mem_max_addr (for_lt 0 n (\<lambda>_ _. True) pmm_set_block s) = mem_max_addr s"
  "pmm_memory_map (for_lt 0 n (\<lambda>_ _. True) pmm_set_block s) = pmm_memory_map s"
  using for_lt_invariant [where P = "\<lambda>t. mem_blocks t = mem_blocks s" and s = s]
    for_lt_invariant [where P = "\<lambda>t. mem_max_addr t = mem_max_addr s" and s = s]
    for_lt_invariant [where P = "\<lambda>t. pmm_memory_map t = pmm_memory_map s" and s = s]
  by simp_all

lemma align_up_ge:
  assumes "unat M \<le> 0xFFFD0000"
  shows "unat M \<le> unat ((M + 4096 - 1) AND NOT (4096 - 1) :: u32)"
    and "unat ((M + 4096 - 1) AND NOT (4096 - 1) :: u32) \<le> unat M + 4095"
proof -
  have "unat (M + 4095) = unat M + 4095"
    using assms by (simp add: unat_word_ariths(1))
  then have "unat (page_base (M + 4095)) = (unat M + 4095) div 4096 * 4096"
    by (simp add: unat_page_base)
  moreover have "(M + 4096 - 1) AND NOT (4096 - 1) = page_base (M + 4095)"
    by (simp add: page_base_def add.commute)
  ultimately have eq: "unat ((M + 4096 - 1) AND NOT (4096 - 1)) = (unat M + 4095) div 4096 * 4096"
    by simp
  have "unat M + 4095 = (unat M + 4095) div 4096 * 4096 + (unat M + 4095) mod 4096"
    by simp
  moreover have "(unat M + 4095) mod 4096 < 4096" by simp
  ultimately show "unat M \<le> unat ((M + 4096 - 1) AND NOT (4096 - 1))"
    "unat ((M + 4096 - 1) AND NOT (4096 - 1)) \<le> unat M + 4095"
    unfolding eq by linarith+
qed

text \<open>The bitmap is placed at or above the end of memory, so marking everything up to its
  end marks every managed block.\<close>

lemma pmm_layout_kernel_end:
  assumes "unat (mem_max_addr s) \<le> 0xFFFD0000"
  defines "t \<equiv> pmm_layout s"
  shows "mem_blocks t \<le> (pmm_memory_map t + pmm_memory_map_size t) div 4096"
proof -
  let ?M = "mem_max_addr s"
  have M: "unat ?M div 4096 \<le> 1048528" using assms by simp
  have sz: "unat (pmm_memory_map_size t) \<le> 131067"
  proof -
    have "unat (?M div 4096 div 8) = unat ?M div 4096 div 8" by (simp add: unat_div)
    moreover have "unat ?M div 4096 div 8 \<le> 131066" using M by simp
    ultimately show ?thesis
      by (auto simp: t_def pmm_layout_def Let_def unat_word_ariths(1))
  qed
  have "unat (pmm_memory_map t) \<le> unat ?M + 4095" "unat ?M \<le> unat (pmm_memory_map t)"
    using align_up_ge [OF assms(1)] by (simp_all add: t_def pmm_layout_def Let_def)
  then have "unat ?M \<le> unat (pmm_memory_map t + pmm_memory_map_size t)"
    using sz assms(1) by (simp add: unat_word_ariths(1))
  then have "unat ?M div 4096 \<le> unat (pmm_memory_map t + pmm_memory_map_size t) div 4096"
    by (rule div_le_mono)
  then show ?thesis
    by (simp add: t_def pmm_layout_def Let_def word_le_nat_alt unat_div)
qed

lemma pmm_mark_kernel_fields:
  "mem_blocks (pmm_mark_kernel s) = mem_max_addr s div 4096"
  "mem_max_addr (pmm_mark_kernel s) = mem_max_addr s"
  "pmm_memory_map (pmm_mark_kernel s) = (mem_max_addr s + 4096 - 1) AND NOT (4096 - 1)"
  by (simp_all add: pmm_mark_kernel_def Let_def set_loop_fields) (simp_all add: pmm_layout_def Let_def)

lemma pmm_mark_kernel_marks:
  assumes "unat (mem_max_addr s) \<le> 0xFFFD0000" and "b < mem_blocks (pmm_mark_kernel s)"
  shows "pmm_test_block b (pmm_mark_kernel s)"
proof -
  have "mem_blocks (pmm_mark_kernel s) = mem_blocks (pmm_layout s)"
    by (simp add: pmm_mark_kernel_def Let_def set_loop_fields)
  then show ?thesis
    using assms pmm_layout_kernel_end [OF assms(1)]
    by (auto simp: pmm_mark_kernel_def Let_def intro!: set_loop_marks)
qed

lemma pmm_report_fields [simp]:
  "mem_blocks (pmm_report s) = mem_blocks s" "mem_max_addr (pmm_report s) = mem_max_addr s"
  "pmm_test_block b (pmm_report s) = pmm_test_block b s"
  by (simp_all add: pmm_report_def Let_def)

lemma pmm_init_marks_all:
  fixes s t :: "'a pmm_scheme"
  assumes "pmm_init mb s = Some t" and "mb_flags mb s AND 0x40 \<noteq> 0"
    and M: "unat (mem_max_addr t) \<le> 0xFFFD0000" and b: "b < mem_blocks t"
  shows "pmm_test_block b t"
proof -
  from assms(1,2) obtain s1 s5 :: "'a pmm_scheme" and a e where t: "t = pmm_report s5"
    and walk: "mmap_walk reserve_entry a e (pmm_mark_kernel s1) = Some s5"
    by (auto simp: pmm_init_def Let_def split: option.splits)
  have keep: "mem_blocks s5 = mem_blocks (pmm_mark_kernel s1)"
      "mem_max_addr s5 = mem_max_addr (pmm_mark_kernel s1)"
    using mmap_walk_invariant [OF walk, where P = "\<lambda>u. mem_blocks u = mem_blocks (pmm_mark_kernel s1)"]
      mmap_walk_invariant [OF walk, where P = "\<lambda>u. mem_max_addr u = mem_max_addr (pmm_mark_kernel s1)"]
    by (simp_all add: reserve_entry_keeps)
  then have "pmm_test_block b (pmm_mark_kernel s1)"
    using M b t by (auto simp: pmm_mark_kernel_fields(2) intro: pmm_mark_kernel_marks)
  then have "pmm_test_block b s5"
    using mmap_walk_invariant [OF walk, where P = "pmm_test_block b"]
    by (simp add: reserve_entry_keeps)
  then show ?thesis by (simp add: t)
qed

subsection \<open>Initialisation returns\<close>

text \<open>The positions the walk visits, and a map whose entries never step past the address
  space.\<close>

inductive mmap_pos :: "'a pmm_scheme \<Rightarrow> u32 \<Rightarrow> u32 \<Rightarrow> u32 \<Rightarrow> bool" for s e where
  pos_start: "mmap_pos s e a a"
| pos_next: "mmap_pos s e a b \<Longrightarrow> b < e \<Longrightarrow> mmap_pos s e a (b + ent_size b s + 4)"

definition mmap_ok :: "'a pmm_scheme \<Rightarrow> u32 \<Rightarrow> u32 \<Rightarrow> bool" where
  "mmap_ok s a e \<longleftrightarrow> (\<forall>b. mmap_pos s e a b \<and> b < e \<longrightarrow> unat b + unat (ent_size b s) + 4 < 2 ^ 32)"

lemma mmap_pos_trans:
  assumes "mmap_pos s e b c" "mmap_pos s e a b"
  shows "mmap_pos s e a c"
  using assms by (induction rule: mmap_pos.induct) (auto intro: mmap_pos.intros)

lemma mmap_ok_next: "mmap_ok s a e \<Longrightarrow> a < e \<Longrightarrow> mmap_ok s (a + ent_size a s + 4) e"
  unfolding mmap_ok_def by (meson mmap_pos_trans pos_next pos_start)

lemma mmap_walk_returns:
  fixes s t :: "'a pmm_scheme"
  assumes "mmap_ok s a e" and "keep t"
    and visit: "\<And>b u. keep u \<Longrightarrow> keep (visit b u)"
    and sizes: "\<And>b u. keep u \<Longrightarrow> b < e \<Longrightarrow> ent_size b u = ent_size b s"
  shows "\<exists>u. mmap_walk visit a e t = Some u \<and> keep u"
  using assms(1,2)
proof (induction "unat e - unat a" arbitrary: a t rule: less_induct)
  case less
  show ?case
  proof (cases "a < e")
    case False
    then show ?thesis using less.prems by (subst mmap_walk.simps) simp
  next
    case True
    let ?u = "visit a t" and ?b = "a + ent_size a s + 4"
    have k: "keep ?u" using less.prems visit by blast
    have "unat a + unat (ent_size a s) + 4 < 2 ^ 32"
      using less.prems(1) True by (auto simp: mmap_ok_def intro: pos_start)
    then have "unat ?b = unat a + unat (ent_size a s) + 4"
      by (simp add: unat_word_ariths(1))
    then have "unat e - unat ?b < unat e - unat a"
      using word_less_unat_mono [OF True] by simp
    from less.hyps [OF this mmap_ok_next [OF less.prems(1) True] k]
    show ?thesis
      using True sizes [OF k True] by (subst mmap_walk.simps) (simp add: Let_def)
  qed
qed

lemma bm_addr_ge:
  assumes "unat (pmm_memory_map s) \<le> 0xFFFDFFFF" "unat b \<le> 2 ^ 20"
  shows "unat (pmm_memory_map s) \<le> unat (bm_addr s b)"
proof -
  have "unat b div 32 \<le> 2 ^ 15" using assms(2) by simp
  then have "unat (4 * (b div 32)) = 4 * (unat b div 32)" "4 * (unat b div 32) \<le> 2 ^ 17"
    by (simp_all add: unat_word_ariths(2) unat_div)
  then show ?thesis
    using assms(1) unfolding bm_addr_def by (simp add: unat_word_ariths(1))
qed

lemma set_loop_below:
  assumes "unat (pmm_memory_map s) \<le> 0xFFFDFFFF" "unat n \<le> 2 ^ 20"
    and a: "unat a < unat (pmm_memory_map s)"
  shows "rd32 a (for_lt i n g pmm_set_block s) = rd32 a s"
proof -
  let ?P = "\<lambda>u. rd32 a u = rd32 a s \<and> pmm_memory_map u = pmm_memory_map s"
  have "?P (for_lt i n g pmm_set_block s)"
  proof (rule for_lt_invariant)
    show "?P s" by simp
    fix j u assume "j < n" and u: "?P u"
    then have "unat j \<le> 2 ^ 20" using assms(2) by (simp add: word_less_nat_alt)
    then have "unat (pmm_memory_map s) \<le> unat (bm_addr u j)"
      using bm_addr_ge [of u j] u assms(1) by simp
    then show "?P (pmm_set_block j u)" using u a by (auto simp: rd32_set_block)
  qed
  then show ?thesis ..
qed

lemma reserve_entry_below:
  assumes "unat (pmm_memory_map s) \<le> 0xFFFDFFFF" "unat (mem_blocks s) \<le> 2 ^ 20"
    and a: "unat a < unat (pmm_memory_map s)"
  shows "rd32 a (reserve_entry m s) = rd32 a s"
proof -
  let ?P = "\<lambda>u. rd32 a u = rd32 a s \<and> pmm_memory_map u = pmm_memory_map s
              \<and> mem_blocks u = mem_blocks s"
  have "?P (for_lt i n (\<lambda>i t. i < mem_blocks t) pmm_set_block s)" for i n
  proof (rule for_lt_invariant)
    show "?P s" by simp
    fix j u assume "j < mem_blocks u" and u: "?P u"
    then have "unat j \<le> 2 ^ 20" using assms(2) by (simp add: word_less_nat_alt)
    then have "unat (pmm_memory_map s) \<le> unat (bm_addr u j)"
      using bm_addr_ge [of u j] u assms(1) by simp
    then show "?P (pmm_set_block j u)" using u a by (auto simp: rd32_set_block)
  qed
  then show ?thesis by (auto simp: reserve_entry_def Let_def)
qed

lemma pmm_mark_kernel_below:
  assumes M: "unat (mem_max_addr s) \<le> 0xFFFD0000" and a: "unat a < unat (mem_max_addr s)"
  shows "rd32 a (pmm_mark_kernel s) = rd32 a s"
proof -
  let ?l = "pmm_layout s"
  let ?m = "memset0 (pmm_memory_map ?l) (pmm_memory_map_size ?l) ?l"
  have map: "unat (pmm_memory_map ?l) \<le> unat (mem_max_addr s) + 4095"
      "unat (mem_max_addr s) \<le> unat (pmm_memory_map ?l)"
    using align_up_ge [OF M] by (simp_all add: pmm_layout_def Let_def)
  have sz: "unat (pmm_memory_map_size ?l) \<le> 131067"
  proof -
    have "unat (mem_max_addr s div 4096 div 8) = unat (mem_max_addr s) div 4096 div 8"
      by (simp add: unat_div)
    moreover have "unat (mem_max_addr s) div 4096 div 8 \<le> 131066" using M by simp
    ultimately show ?thesis by (auto simp: pmm_layout_def Let_def unat_word_ariths(1))
  qed
  have "\<not> unat (a - pmm_memory_map ?l) < unat (pmm_memory_map_size ?l)"
  proof -
    have lt: "\<not> pmm_memory_map ?l \<le> a" using a map by (simp add: word_le_nat_alt)
    then have "unat (a - pmm_memory_map ?l) = unat a + 2 ^ 32 - unat (pmm_memory_map ?l)"
      by (simp add: unat_sub_if' word_le_nat_alt)
    then show ?thesis using map sz M by simp
  qed
  then have "rd32 a ?m = rd32 a ?l" by (simp add: rd32_def memset0_def Let_def)
  also have "\<dots> = rd32 a s" by (simp add: rd32_def pmm_layout_def Let_def)
  finally have m: "rd32 a ?m = rd32 a s" .
  have "unat ((pmm_memory_map ?l + pmm_memory_map_size ?l) div 4096) \<le> 2 ^ 20"
    using unsigned_less [of "pmm_memory_map ?l + pmm_memory_map_size ?l", where 'a = nat]
    by (simp add: unat_div)
  then show ?thesis
    using set_loop_below [of ?m _ a 0 "\<lambda>_ _. True"] map M a m
    by (simp add: pmm_mark_kernel_def Let_def)
qed

lemma scan_entry_mem: "rd32 a (scan_entry m s) = rd32 a s"
  by (simp add: scan_entry_def rd32_def Let_def)

lemma scan_returns:
  fixes s :: "'a pmm_scheme"
  assumes "mmap_ok s a e"
  shows "\<exists>u. mmap_walk scan_entry a e s = Some u \<and> (\<forall>a. rd32 a u = rd32 a s)"
  by (rule mmap_walk_returns [OF assms, where keep = "\<lambda>u. \<forall>a. rd32 a u = rd32 a s"])
    (simp_all add: scan_entry_mem ent_size_def)

lemma mmap_ok_cong:
  assumes "\<And>b. b < e \<Longrightarrow> ent_size b t = ent_size b s" and "mmap_ok s a e"
  shows "mmap_ok t a e"
proof -
  have "mmap_pos s e a b" if "mmap_pos t e a b" for b
    using that by (induction rule: mmap_pos.induct) (auto simp: assms(1) intro: mmap_pos.intros)
  then show ?thesis using assms by (auto simp: mmap_ok_def)
qed

lemma reserve_returns:
  fixes s :: "'a pmm_scheme"
  assumes ok: "mmap_ok s a e" and map: "unat (pmm_memory_map s) \<le> 0xFFFDFFFF"
    and e: "unat e \<le> unat (pmm_memory_map s)" and blocks: "unat (mem_blocks s) \<le> 2 ^ 20"
  shows "\<exists>u. mmap_walk reserve_entry a e s = Some u"
proof -
  let ?keep = "\<lambda>u. pmm_memory_map u = pmm_memory_map s \<and> mem_blocks u = mem_blocks s
                 \<and> (\<forall>b. unat b < unat (pmm_memory_map s) \<longrightarrow> rd32 b u = rd32 b s)"
  have "\<exists>u. mmap_walk reserve_entry a e s = Some u \<and> ?keep u"
  proof (rule mmap_walk_returns [OF ok])
    show "?keep (reserve_entry b u)" if "?keep u" for b u
      using that map blocks by (simp add: reserve_entry_below reserve_entry_keeps)
    show "ent_size b u = ent_size b s" if "?keep u" "b < e" for b u
      using that e by (simp add: ent_size_def word_less_nat_alt)
  qed simp
  then show ?thesis by blast
qed

text \<open>A map without available memory: nothing is stored.\<close>

lemma mark_nothing:
  assumes "mem_max_addr s = 0"
  shows "rd32 a (pmm_mark_kernel s) = rd32 a s" and "mem_blocks (pmm_mark_kernel s) = 0"
  using assms by (simp_all add: pmm_mark_kernel_def pmm_layout_def memset0_def rd32_def Let_def)

lemma reserve_nothing: "mem_blocks s = 0 \<Longrightarrow> reserve_entry a s = s"
  by (simp add: reserve_entry_def Let_def)

lemma reserve_returns_empty:
  fixes s :: "'a pmm_scheme"
  assumes "mmap_ok s a e" and "mem_blocks s = 0"
  shows "\<exists>u. mmap_walk reserve_entry a e s = Some u"
  using mmap_walk_returns [OF assms(1), where keep = "\<lambda>u. u = s"] assms(2) by (auto simp: reserve_nothing)

text \<open>Where the map and the information structure must be: in the memory the map describes,
  which ends below the last 192 KiB of the address space; nowhere in particular if it describes
  none.\<close>

definition boot_data_inside :: "u32 \<Rightarrow> u32 \<Rightarrow> u32 \<Rightarrow> bool" where
  "boot_data_inside mb e m \<longleftrightarrow>
     m = 0 \<or> unat m \<le> 0xFFFD0000 \<and> unat e \<le> unat m \<and> unat (mb + 48) < unat m"

lemma pmm_init_total:
  fixes s :: "'a pmm_scheme" and mb :: u32
  defines "a \<equiv> mb_mmap_addr mb s" and "e \<equiv> mb_mmap_addr mb s + mb_mmap_length mb s"
  assumes ok: "mmap_ok s a e"
    and top: "\<And>u. mmap_walk scan_entry a e s = Some u \<Longrightarrow> boot_data_inside mb e (mem_max_addr u)"
  shows "\<exists>t. pmm_init mb s = Some t"
proof -
  obtain u where u: "mmap_walk scan_entry a e s = Some u" "\<forall>a. rd32 a u = rd32 a s"
    using scan_returns [OF ok] by blast
  let ?k = "pmm_mark_kernel u"
  have run: "pmm_init mb s = (if mb_flags mb s AND 0x40 = 0
      then Some (kprint (Puts (''PMM: No memory map provided by bootloader!'' @ newline)) s)
      else map_option pmm_report (mmap_walk reserve_entry (mb_mmap_addr mb ?k) e ?k))"
    using u(1) by (simp add: pmm_init_def Let_def a_def e_def)
  show ?thesis
  proof (cases "mem_max_addr u = 0")
    case True
    have "mmap_ok ?k (mb_mmap_addr mb ?k) e"
      using mmap_ok_cong [OF _ ok, of ?k] u(2) by (simp add: ent_size_def mb_mmap_addr_def a_def mark_nothing(1) [OF True])
    then obtain v where "mmap_walk reserve_entry (mb_mmap_addr mb ?k) e ?k = Some v"
      using reserve_returns_empty mark_nothing(2) [OF True] by blast
    then show ?thesis by (simp add: run)
  next
    case False
    then have M: "unat (mem_max_addr u) \<le> 0xFFFD0000" "unat e \<le> unat (mem_max_addr u)"
        "unat (mb + 48) < unat (mem_max_addr u)"
      using top [OF u(1)] by (auto simp: boot_data_inside_def)
    have below: "rd32 b ?k = rd32 b s" if "unat b < unat (mem_max_addr u)" for b
      using pmm_mark_kernel_below [OF M(1) that] u(2) by simp
    have "mmap_ok ?k a e"
      by (rule mmap_ok_cong [OF _ ok]) (use M in \<open>auto simp: ent_size_def word_less_nat_alt below\<close>)
    moreover have "mb_mmap_addr mb ?k = a"
      using below M by (simp add: mb_mmap_addr_def a_def)
    ultimately have "mmap_ok ?k (mb_mmap_addr mb ?k) e" by simp
    then have "\<exists>v. mmap_walk reserve_entry (mb_mmap_addr mb ?k) e ?k = Some v"
      using align_up_ge [of "mem_max_addr u"] M
      by (intro reserve_returns) (auto simp: pmm_mark_kernel_fields unat_div)
    then show ?thesis by (auto simp: run)
  qed
qed

subsection \<open>A small memory map for the witnesses\<close>

text \<open>Multiboot information at \<open>0x1000\<close>, one entry at \<open>0x2000\<close>: 12 KiB of available memory
  from address 0.\<close>

definition sample_boot :: pmm where
  "sample_boot =
     \<lparr>mem = (\<lambda>a. if a = 0x1000 then 0x40 else if a = 0x102C then 24 else if a = 0x1030 then 0x2000
        else if a = 0x2000 then 20 else if a = 0x200C then 0x3000 else if a = 0x2014 then 1 else 0),
      klog = [], port_out = [], port_in = (\<lambda>_ _. 0), port_reads = (\<lambda>_. 0), interrupt_handlers = [], pmm_memory_map = 0,
      pmm_memory_map_size = 0, mem_size = 0, mem_blocks = 0, mem_used_blocks = 0,
      mem_max_addr = 0\<rparr>"

lemmas boot_eval = mb_flags_def mb_mmap_addr_def mb_mmap_length_def ent_size_def ent_type_def
  ent_base_addr_def ent_length_def rd64_def rd32_def scan_entry_def reserve_entry_def
  sample_boot_def

lemma sample_boot_fields:
  "mb_flags 0x1000 sample_boot AND 0x40 \<noteq> 0" "mb_mmap_addr 0x1000 sample_boot = 0x2000"
  "mb_mmap_length 0x1000 sample_boot = 24"
  by (simp_all add: boot_eval)

lemma sample_boot_scan:
  "mmap_walk scan_entry 0x2000 0x2018 sample_boot = Some (sample_boot\<lparr>mem_max_addr := 0x3000\<rparr>)"
  by (simp add: mmap_walk.simps Let_def boot_eval)

lemma sample_boot_entry: "ent_size 0x2000 sample_boot = 20"
  by (simp add: boot_eval)

lemma sample_boot_pos:
  "mmap_pos sample_boot 0x2018 a b \<Longrightarrow> a = 0x2000 \<Longrightarrow> b = 0x2000 \<or> b = 0x2018"
  by (induction rule: mmap_pos.induct) (auto simp: sample_boot_entry)

lemma sample_boot_ok: "mmap_ok sample_boot 0x2000 0x2018"
  unfolding mmap_ok_def
proof (intro allI impI)
  fix b
  assume b: "mmap_pos sample_boot 0x2018 0x2000 b \<and> b < 0x2018"
  have "b = 0x2000" using sample_boot_pos [OF conjunct1 [OF b] refl] conjunct2 [OF b] by auto
  then show "unat b + unat (ent_size b sample_boot) + 4 < 2 ^ 32"
    using sample_boot_entry by simp
qed

subsection \<open>Properties\<close>

text \<open>C32: initialisation returns.  \<open>pmm_init\<close> terminates when there is no memory map, and also
  when no entry of the map steps past the address space and the map and the information
  structure lie inside the memory the map describes, which ends below the last 192 KiB of the
  address space: the bitmap is stored behind that end, so that it does not overwrite what the second
  walk reads.  A map that describes no available memory needs only the first condition.\<close>

theorem pmm_init_returns:
  fixes s :: "'a pmm_scheme" and mb :: u32
  defines "a \<equiv> mb_mmap_addr mb s" and "e \<equiv> mb_mmap_addr mb s + mb_mmap_length mb s"
  assumes "mb_flags mb s AND 0x40 \<noteq> 0 \<Longrightarrow> mmap_ok s a e"
    and "\<And>u. mb_flags mb s AND 0x40 \<noteq> 0 \<Longrightarrow> mmap_walk scan_entry a e s = Some u
          \<Longrightarrow> boot_data_inside mb e (mem_max_addr u)"
  shows "\<exists>t. pmm_init mb s = Some t"
proof (cases "mb_flags mb s AND 0x40 = 0")
  case True
  then show ?thesis by (simp add: pmm_init_def)
next
  case False
  from pmm_init_total [OF assms(3) [OF False, unfolded a_def e_def] assms(4) [OF False, unfolded a_def e_def]]
  show ?thesis .
qed

theorem pmm_init_returns_witness: "\<exists>t. pmm_init 0x1000 sample_boot = Some t"
  by (rule pmm_init_returns)
    (simp_all add: sample_boot_fields sample_boot_ok sample_boot_scan boot_data_inside_def)

text \<open>C7: after initialisation no memory can be allocated.  The bitmap is placed above the end
  of memory and the range up to its end is marked as used by the kernel, so all managed
  blocks are marked: both allocators return \<open>NULL\<close>, whatever is asked.\<close>

theorem pmm_init_leaves_nothing:
  assumes "pmm_init mb s = Some t" and "mb_flags mb s AND 0x40 \<noteq> 0"
    and "unat (mem_max_addr t) \<le> 0xFFFD0000"
  shows "(\<forall>b < mem_blocks t. pmm_test_block b t)
    \<and> pmm_alloc_block t = (0, t) \<and> (\<forall>n. pmm_alloc_blocks n t = (0, t))"
proof -
  have all: "\<forall>b < mem_blocks t. pmm_test_block b t"
    using pmm_init_marks_all [OF assms] by blast
  then show ?thesis using all_marked_no_alloc [OF all] by blast
qed

theorem pmm_init_leaves_nothing_witness:
  "\<exists>t. pmm_init 0x1000 sample_boot = Some t \<and> mem_blocks t = 3 \<and> pmm_alloc_block t = (0, t)"
proof -
  have "map_option (\<lambda>t. (mem_max_addr t, mem_blocks t)) (pmm_init 0x1000 sample_boot)
      = Some (0x3000, 3)"
    by (simp add: pmm_init_def sample_boot_fields sample_boot_scan mmap_walk.simps Let_def
        pmm_mark_kernel_def pmm_layout_def pmm_report_def for_lt.simps boot_eval memset0_def
        pmm_set_block_def wr32_def bm_addr_def bm_mask_def)
  then obtain t where t: "pmm_init 0x1000 sample_boot = Some t" "mem_max_addr t = 0x3000"
      "mem_blocks t = 3"
    by auto
  then show ?thesis
    using pmm_init_leaves_nothing [OF t(1) sample_boot_fields(1)] by simp
qed

end
