(* ===== verification/Vmm.thy ===== *)
theory Vmm
  imports Page_Memory
begin

text \<open>
  The virtual memory manager, mem/vmm.c: two-level page tables in pages of the physical
  memory manager, accessed through the identity mapping, so a directory is the physical
  address of its page and entry \<open>i\<close> the word \<open>slot dir i\<close>; \<open>NULL\<close> is 0.  The first part
  translates the file, the second gives the meaning of a directory as a partial map from
  virtual pages to table entries and shows what each operation does to it.
\<close>

subsection \<open>State\<close>

record vmm = pmm +
  kernel_directory :: u32
  current_directory :: u32
  cr3 :: u32
  tlb_flushes :: "u32 list"

subsection \<open>Constants and address fields (vmm.h)\<close>

definition VMM_PRESENT :: u32 where "VMM_PRESENT = 0x01"
definition VMM_WRITABLE :: u32 where "VMM_WRITABLE = 0x02"
definition VMM_USER :: u32 where "VMM_USER = 0x04"

definition PAGE_DIR_INDEX :: "u32 \<Rightarrow> u32" where
  "PAGE_DIR_INDEX x = drop_bit 22 x AND 0x3FF"

definition PAGE_TABLE_INDEX :: "u32 \<Rightarrow> u32" where
  "PAGE_TABLE_INDEX x = drop_bit 12 x AND 0x3FF"

definition PAGE_OFFSET :: "u32 \<Rightarrow> u32" where
  "PAGE_OFFSET x = x AND 0xFFF"

definition entry_present :: "u32 \<Rightarrow> bool" where
  "entry_present e \<longleftrightarrow> e AND VMM_PRESENT \<noteq> 0"

subsection \<open>Operations\<close>

definition vmm_flush_tlb_entry :: "u32 \<Rightarrow> 'a vmm_scheme \<Rightarrow> 'a vmm_scheme" where
  "vmm_flush_tlb_entry addr s = s\<lparr>tlb_flushes := tlb_flushes s @ [addr]\<rparr>"

definition page_fault :: "u32 \<Rightarrow> registers \<Rightarrow> 'a vmm_scheme \<Rightarrow> 'a vmm_scheme outcome" where
  "page_fault cr2 regs s =
     (let present = (err_code regs AND 0x1 = 0);
          rw = (err_code regs AND 0x2 \<noteq> 0);
          us = (err_code regs AND 0x4 \<noteq> 0);
          reserved = (err_code regs AND 0x8 \<noteq> 0);
          s1 = kprint (Puts ''PAGE FAULT at 0x'') s;
          s2 = kprint (Put_hex cr2) s1;
          s3 = kprint (Puts '' ('') s2;
          s4 = (if present then kprint (Puts ''not-present '') s3 else s3);
          s5 = (if rw then kprint (Puts ''read-only '') s4 else s4);
          s6 = (if us then kprint (Puts ''user-mode '') s5 else s5);
          s7 = (if reserved then kprint (Puts ''reserved '') s6 else s6)
      in Halted (kprint (Puts ('')'' @ newline)) s7))"

definition vmm_get_page_table :: "u32 \<Rightarrow> u32 \<Rightarrow> bool \<Rightarrow> 'a vmm_scheme \<Rightarrow> u32 \<times> 'a vmm_scheme" where
  "vmm_get_page_table dir idx allocate s =
     (if 1024 \<le> idx then (0, s)
      else if entry_present (rd32 (slot dir idx) s)
      then (rd32 (slot dir idx) s AND NOT 0xFFF, s)
      else if allocate
      then case pmm_alloc_block s of (page_table, s1) \<Rightarrow>
             if page_table = 0 then (0, s1)
             else let s2 = memset0 page_table 4096 s1;
                      s3 = wr32 (slot dir idx)
                        (page_table OR VMM_PRESENT OR VMM_WRITABLE OR VMM_USER) s2
                  in (page_table, s3)
      else (0, s))"

definition vmm_create_directory :: "'a vmm_scheme \<Rightarrow> u32 \<times> 'a vmm_scheme" where
  "vmm_create_directory s =
     (case pmm_alloc_block s of (dir, s1) \<Rightarrow>
        if dir = 0 then (0, s1) else (dir, memset0 dir 4096 s1))"

definition vmm_map_page :: "u32 \<Rightarrow> u32 \<Rightarrow> u32 \<Rightarrow> u32 \<Rightarrow> 'a vmm_scheme \<Rightarrow> bool \<times> 'a vmm_scheme" where
  "vmm_map_page dir phys virt flags s =
     (let phys = phys AND NOT 0xFFF;
          virt = virt AND NOT 0xFFF;
          pdidx = PAGE_DIR_INDEX virt;
          ptidx = PAGE_TABLE_INDEX virt
      in case vmm_get_page_table dir pdidx True s of (table, s1) \<Rightarrow>
           if table = 0 then (False, s1)
           else let s2 = wr32 (slot table ptidx) (phys OR (flags AND 0xFFF)) s1;
                    s3 = (if dir = current_directory s2 then vmm_flush_tlb_entry virt s2 else s2)
                in (True, s3))"

definition vmm_unmap_page :: "u32 \<Rightarrow> u32 \<Rightarrow> 'a vmm_scheme \<Rightarrow> bool \<times> 'a vmm_scheme" where
  "vmm_unmap_page dir virt s =
     (let pdidx = PAGE_DIR_INDEX virt;
          ptidx = PAGE_TABLE_INDEX virt
      in case vmm_get_page_table dir pdidx False s of (table, s1) \<Rightarrow>
           if table = 0 then (False, s1)
           else let s2 = wr32 (slot table ptidx) 0 s1;
                    s3 = (if dir = current_directory s2 then vmm_flush_tlb_entry virt s2 else s2)
                in (True, s3))"

text \<open>\<open>vmm_get_mapping\<close> returns its \<open>bool\<close> and the value stored through \<open>phys\<close>: \<open>None\<close> is
  \<open>false\<close> with \<open>*phys\<close> not written.\<close>

definition vmm_get_mapping :: "u32 \<Rightarrow> u32 \<Rightarrow> 'a vmm_scheme \<Rightarrow> u32 option" where
  "vmm_get_mapping dir virt s =
     (let pdidx = PAGE_DIR_INDEX virt;
          ptidx = PAGE_TABLE_INDEX virt;
          offset = PAGE_OFFSET virt;
          table = fst (vmm_get_page_table dir pdidx False s)
      in if table = 0 then None
         else if \<not> entry_present (rd32 (slot table ptidx) s) then None
         else Some ((rd32 (slot table ptidx) s AND NOT 0xFFF) + offset))"

definition vmm_switch_page_directory :: "u32 \<Rightarrow> 'a vmm_scheme \<Rightarrow> 'a vmm_scheme" where
  "vmm_switch_page_directory dir s =
     (if dir = 0 then s else s\<lparr>current_directory := dir, cr3 := dir\<rparr>)"

definition vmm_get_current_directory :: "'a vmm_scheme \<Rightarrow> u32" where
  "vmm_get_current_directory s = current_directory s"

definition vmm_free_directory :: "u32 \<Rightarrow> 'a vmm_scheme \<Rightarrow> 'a vmm_scheme" where
  "vmm_free_directory dir s =
     (if dir = 0 then s
      else let s1 = for_lt 0 1024 (\<lambda>_ _. True)
                 (\<lambda>i t. if entry_present (rd32 (slot dir i) t)
                        then pmm_free_block (rd32 (slot dir i) t AND NOT 0xFFF) t else t) s
           in pmm_free_block dir s1)"

text \<open>
  \<open>for (addr = a; addr < e; addr += PAGE_SIZE)\<close>, counted in pages; for page-aligned bounds
  this is the loop of the source (\<open>for_pages_unfold\<close> below).
\<close>

definition for_pages :: "u32 \<Rightarrow> u32 \<Rightarrow> (u32 \<Rightarrow> 's \<Rightarrow> 's) \<Rightarrow> 's \<Rightarrow> 's" where
  "for_pages a e body = for_lt (a div 4096) (e div 4096) (\<lambda>_ _. True) (\<lambda>k. body (k * 4096))"

definition vmm_identity_map :: "u32 \<Rightarrow> u32 \<Rightarrow> u32 \<Rightarrow> u32 \<Rightarrow> 'a vmm_scheme \<Rightarrow> 'a vmm_scheme" where
  "vmm_identity_map dir start stop flags s =
     for_pages (start AND NOT 0xFFF) ((stop + 0xFFF) AND NOT 0xFFF)
       (\<lambda>addr t. snd (vmm_map_page dir addr addr flags t)) s"

definition vmm_init :: "'a vmm_scheme \<Rightarrow> 'a vmm_scheme" where
  "vmm_init s =
     (let s1 = isr_register_handler 14 Page_fault s in
      case vmm_create_directory s1 of (d, s2) \<Rightarrow>
        let s3 = s2\<lparr>kernel_directory := d\<rparr> in
        if d = 0 then kprint (Puts (''VMM: Failed to create kernel page directory'' @ newline)) s3
        else
          let s4 = vmm_identity_map d 0 (4 * 1024 * 1024) (VMM_PRESENT OR VMM_WRITABLE) s3;
              s5 = vmm_identity_map d (1 * 1024 * 1024) (10 * 1024 * 1024)
                     (VMM_PRESENT OR VMM_WRITABLE) s4;
              s6 = for_pages 0 (10 * 1024 * 1024)
                     (\<lambda>i t. snd (vmm_map_page d i (i + 0xC0000000) (VMM_PRESENT OR VMM_WRITABLE) t)) s5;
              s7 = vmm_switch_page_directory d s6
          in kprint (Puts (''VMM: Initialized virtual memory manager'' @ newline)) s7)"

text \<open>
  Cloning.  \<open>mmu v s\<close> is the word the processor loads from virtual address \<open>v\<close>: the copy of
  a writable page reads its source through the active mapping.  The loops carry a success
  flag; \<open>False\<close> is the early return.
\<close>

definition clone_pte ::
  "(u32 \<Rightarrow> 'a vmm_scheme \<Rightarrow> u32) \<Rightarrow> u32 \<Rightarrow> u32 \<Rightarrow> u32 \<Rightarrow> u32 \<Rightarrow> 'a vmm_scheme \<Rightarrow> bool \<times> 'a vmm_scheme"
where
  "clone_pte mmu src_table dest_table i j s =
     (let pte = rd32 (slot src_table j) s in
      if entry_present pte
      then if pte AND VMM_WRITABLE \<noteq> 0
           then case pmm_alloc_block s of (new_page, s1) \<Rightarrow>
                  if new_page = 0 then (False, s1)
                  else let virt = push_bit 22 i OR push_bit 12 j;
                           s2 = copy_page new_page (\<lambda>off. mmu (virt + off) s1) s1;
                           s3 = wr32 (slot dest_table j)
                             (new_page OR (rd32 (slot src_table j) s2 AND 0xFFF)) s2
                       in (True, s3)
           else (True, wr32 (slot dest_table j) (rd32 (slot src_table j) s) s)
      else (True, s))"

definition clone_pde ::
  "(u32 \<Rightarrow> 'a vmm_scheme \<Rightarrow> u32) \<Rightarrow> u32 \<Rightarrow> u32 \<Rightarrow> u32 \<Rightarrow> 'a vmm_scheme \<Rightarrow> bool \<times> 'a vmm_scheme"
where
  "clone_pde mmu src dest i s =
     (if entry_present (rd32 (slot src i) s)
      then if 768 \<le> i then (True, wr32 (slot dest i) (rd32 (slot src i) s) s)
           else let src_table = rd32 (slot src i) s AND NOT 0xFFF in
             case vmm_get_page_table dest i True s of (dest_table, s1) \<Rightarrow>
               if dest_table = 0 then (False, s1)
               else for_lt 0 1024 (\<lambda>_ (ok, _). ok)
                      (\<lambda>j (_, t). clone_pte mmu src_table dest_table i j t) (True, s1)
      else (True, s))"

definition vmm_clone_directory ::
  "(u32 \<Rightarrow> 'a vmm_scheme \<Rightarrow> u32) \<Rightarrow> u32 \<Rightarrow> 'a vmm_scheme \<Rightarrow> u32 \<times> 'a vmm_scheme"
where
  "vmm_clone_directory mmu src s =
     (case vmm_create_directory s of (dest, s1) \<Rightarrow>
        if dest = 0 then (0, s1)
        else case for_lt 0 1024 (\<lambda>_ (ok, _). ok)
                    (\<lambda>i (_, t). clone_pde mmu src dest i t) (True, s1) of (ok, s2) \<Rightarrow>
          if ok then (dest, s2) else (0, vmm_free_directory dest s2))"

subsection \<open>Address fields\<close>

lemma page_masks: "(0x3FF :: u32) = mask 10" "(0xFFF :: u32) = mask 12" "(1 :: u32) = mask 1"
  by (simp_all add: mask_eq_exp_minus_1)

lemma index_less [simp]: "PAGE_DIR_INDEX v < 1024" "PAGE_TABLE_INDEX v < 1024"
proof -
  have "x AND 0x3FF < 1024" for x :: u32
    using and_mask_less' [of 10 x] by (simp add: page_masks(1))
  then show "PAGE_DIR_INDEX v < 1024" "PAGE_TABLE_INDEX v < 1024"
    by (simp_all add: PAGE_DIR_INDEX_def PAGE_TABLE_INDEX_def)
qed

lemma entry_present_bit: "entry_present e \<longleftrightarrow> bit e 0"
  by (simp add: entry_present_def VMM_PRESENT_def and_one_eq bit_0 odd_iff_mod_2_eq_one)

lemma bit_page_base: "bit (page_base a) n \<longleftrightarrow> 12 \<le> n \<and> bit a n"
  using bit_imp_le_length [of a n] by (auto simp: page_base_def page_masks(2) bit_simps)

lemma index_page_base [simp]:
  "PAGE_DIR_INDEX (page_base v) = PAGE_DIR_INDEX v"
  "PAGE_TABLE_INDEX (page_base v) = PAGE_TABLE_INDEX v"
  by (auto simp: PAGE_DIR_INDEX_def PAGE_TABLE_INDEX_def page_masks bit_simps bit_page_base
      intro!: bit_word_eqI)

lemma index_eq_iff:
  "PAGE_DIR_INDEX v = PAGE_DIR_INDEX w \<and> PAGE_TABLE_INDEX v = PAGE_TABLE_INDEX w
   \<longleftrightarrow> page_base v = page_base w"
proof
  assume eq: "PAGE_DIR_INDEX v = PAGE_DIR_INDEX w \<and> PAGE_TABLE_INDEX v = PAGE_TABLE_INDEX w"
  have bits: "bit (PAGE_DIR_INDEX x) n \<longleftrightarrow> n < 10 \<and> bit x (22 + n)"
    "bit (PAGE_TABLE_INDEX x) n \<longleftrightarrow> n < 10 \<and> bit x (12 + n)" for x n
    by (auto simp: PAGE_DIR_INDEX_def PAGE_TABLE_INDEX_def page_masks bit_simps)
  show "page_base v = page_base w"
  proof (rule bit_word_eqI)
    fix n
    assume "n < LENGTH(32)"
    then consider "n < 12" | "12 \<le> n" "n < 22" | "22 \<le> n" "n < 32" by fastforce
    then show "bit (page_base v) n = bit (page_base w) n"
    proof cases
      case 2
      then have "n - 12 < 10" "12 + (n - 12) = n" by auto
      then show ?thesis using bits(2) [of _ "n - 12"] eq 2 by (metis bit_page_base)
    next
      case 3
      then have "n - 22 < 10" "22 + (n - 22) = n" "12 \<le> n" by auto
      then show ?thesis using bits(1) [of _ "n - 22"] eq by (metis bit_page_base)
    qed (simp add: bit_page_base)
  qed
next
  assume "page_base v = page_base w"
  then show "PAGE_DIR_INDEX v = PAGE_DIR_INDEX w \<and> PAGE_TABLE_INDEX v = PAGE_TABLE_INDEX w"
    by (metis index_page_base)
qed

lemma aligned_bits: "page_aligned p \<Longrightarrow> n < 12 \<Longrightarrow> \<not> bit p n"
  using bit_page_base [of p n] by simp

lemma entry_fields:
  assumes "page_aligned p"
  shows "page_base (p OR (f AND 0xFFF)) = p" and "entry_present (p OR (f AND 0xFFF)) = entry_present f"
proof -
  show "page_base (p OR (f AND 0xFFF)) = p"
    using aligned_bits [OF assms]
    by (intro bit_word_eqI) (auto simp: bit_page_base bit_simps page_masks(2) simp flip: not_less)
  show "entry_present (p OR (f AND 0xFFF)) = entry_present f"
    using aligned_bits [OF assms, of 0] by (simp add: entry_present_bit bit_simps page_masks(2))
qed

lemma table_entry:
  assumes "page_aligned p"
  shows "page_base (p OR VMM_PRESENT OR VMM_WRITABLE OR VMM_USER) = p"
    and "entry_present (p OR VMM_PRESENT OR VMM_WRITABLE OR VMM_USER)"
  using entry_fields [OF assms, of 7]
  by (simp_all add: VMM_PRESENT_def VMM_WRITABLE_def VMM_USER_def or.assoc entry_present_def)

lemma page_offset_add: "page_aligned p \<Longrightarrow> page_base (p + PAGE_OFFSET v) = p"
proof -
  assume p: "page_aligned p"
  have "PAGE_OFFSET v = of_nat (unat v mod 4096)"
    using page_offset_and [of v] by (metis PAGE_OFFSET_def of_nat_unat ucast_id)
  then show ?thesis using page_base_offset [OF p, of "unat v mod 4096"] by simp
qed

subsection \<open>Fields the lower layers leave alone\<close>

lemma vmm_fields_pmm [simp]:
  fixes s :: "'a vmm_scheme"
  shows "current_directory (pmm_set_block b s) = current_directory s"
    "current_directory (pmm_unset_block b s) = current_directory s"
    "current_directory (wr32 a v s) = current_directory s"
    "current_directory (memset0 p n s) = current_directory s"
    "current_directory (copy_page p f s) = current_directory s"
  by (simp_all add: pmm_set_block_def pmm_unset_block_def wr32_def memset0_def copy_page_def
      memcpy_from_def)

lemma current_directory_alloc [simp]:
  "pmm_alloc_block s = (p, t) \<Longrightarrow> current_directory t = current_directory (s :: 'a vmm_scheme)"
  by (auto simp: pmm_alloc_block_def Let_def split: if_splits)

lemma vmm_only_fields [simp]:
  fixes s :: "'a vmm_scheme"
  shows "pmm_inv (s\<lparr>tlb_flushes := x\<rparr>) = pmm_inv s"
    "owned_pages (s\<lparr>tlb_flushes := x\<rparr>) = owned_pages s"
    "rd32 a (s\<lparr>tlb_flushes := x\<rparr>) = rd32 a s"
    "pmm_test_block b (s\<lparr>tlb_flushes := x\<rparr>) = pmm_test_block b s"
    "current_directory (s\<lparr>tlb_flushes := x\<rparr>) = current_directory s"
  by (auto simp: pmm_inv_def pmm_geom_def used_set_def owned_pages_def pmm_test_block_def
      bm_addr_def rd32_def)

subsection \<open>The map a directory stands for\<close>

definition table_at :: "u32 \<Rightarrow> u32 \<Rightarrow> 'a machine_scheme \<Rightarrow> u32" where
  "table_at d i s = page_base (rd32 (slot d i) s)"

definition has_table :: "u32 \<Rightarrow> u32 \<Rightarrow> 'a machine_scheme \<Rightarrow> bool" where
  "has_table d i s \<longleftrightarrow> i < 1024 \<and> entry_present (rd32 (slot d i) s)"

definition walk :: "u32 \<Rightarrow> 'a machine_scheme \<Rightarrow> u32 \<Rightarrow> u32 option" where
  "walk d s v =
     (if has_table d (PAGE_DIR_INDEX v) s
      then let pte = rd32 (slot (table_at d (PAGE_DIR_INDEX v) s) (PAGE_TABLE_INDEX v)) s
           in if entry_present pte then Some pte else None
      else None)"

text \<open>A well-formed directory: its page and its tables are pages the allocator has handed
  out, and no two of them are the same page.\<close>

definition wf_dir :: "u32 \<Rightarrow> 'a vmm_scheme \<Rightarrow> bool" where
  "wf_dir d s \<longleftrightarrow> pmm_inv s \<and> d \<in> owned_pages s
     \<and> (\<forall>i. has_table d i s \<longrightarrow> table_at d i s \<in> owned_pages s \<and> table_at d i s \<noteq> d)
     \<and> (\<forall>i j. has_table d i s \<and> has_table d j s \<and> table_at d i s = table_at d j s \<longrightarrow> i = j)"

lemma wf_dirD:
  assumes "wf_dir d s"
  shows "pmm_inv s" "d \<in> owned_pages s" "d \<noteq> 0" "page_aligned d"
    and "has_table d i s \<Longrightarrow> table_at d i s \<in> owned_pages s"
    and "has_table d i s \<Longrightarrow> table_at d i s \<noteq> d"
    and "has_table d i s \<Longrightarrow> table_at d i s \<noteq> 0"
    and "has_table d i s \<Longrightarrow> has_table d j s \<Longrightarrow> table_at d i s = table_at d j s \<Longrightarrow> i = j"
  using assms pmm.owned_page [of s] unfolding wf_dir_def by blast+

lemma wf_dir_tlb [simp]:
  "wf_dir d (s\<lparr>tlb_flushes := x\<rparr>) = wf_dir d s" "walk d (s\<lparr>tlb_flushes := x\<rparr>) = walk d s"
  by (auto simp: wf_dir_def has_table_def table_at_def walk_def fun_eq_iff)

lemma has_tableE: "has_table d i s \<Longrightarrow> i < 1024"
  by (simp add: has_table_def)

text \<open>The words of a directory and of its tables determine the map.\<close>

lemma walk_cong:
  assumes "\<And>i. i < 1024 \<Longrightarrow> rd32 (slot d i) t = rd32 (slot d i) s"
    and "\<And>i j. has_table d i s \<Longrightarrow> j < 1024 \<Longrightarrow>
          rd32 (slot (table_at d i s) j) t = rd32 (slot (table_at d i s) j) s"
  shows "walk d t = walk d s" and "has_table d i t = has_table d i s"
    and "has_table d i s \<Longrightarrow> table_at d i t = table_at d i s"
proof -
  show h: "has_table d i t = has_table d i s" for i
    using assms(1) by (auto simp: has_table_def)
  show a: "has_table d i s \<Longrightarrow> table_at d i t = table_at d i s" for i
    using assms(1) by (simp add: has_table_def table_at_def)
  show "walk d t = walk d s"
    using assms(2) h a by (auto simp: walk_def fun_eq_iff Let_def)
qed

text \<open>A store into an entry of one of the tables.\<close>

lemma put_pte:
  fixes s :: "'a vmm_scheme" and v :: u32
  assumes wf: "wf_dir d s" and i: "has_table d i s" and j: "j < 1024"
  defines "t \<equiv> wr32 (slot (table_at d i s) j) v s"
  shows "wf_dir d t"
    and "walk d t w = (if PAGE_DIR_INDEX w = i \<and> PAGE_TABLE_INDEX w = j
            then if entry_present v then Some v else None else walk d s w)"
proof -
  note T = wf_dirD(5,6) [OF wf i]
  note inv = wf_dirD(1,2) [OF wf]
  have word: "rd32 (slot q k) t = (if q = table_at d i s \<and> k = j then v else rd32 (slot q k) s)"
    if "q \<in> owned_pages s" "k < 1024" for q k
    unfolding t_def using pg.put_page_word [OF inv(1) T(1) that(1) j that(2)] .
  have dir: "rd32 (slot d k) t = rd32 (slot d k) s" if "k < 1024" for k
    using word [OF inv(2) that] T(2) by simp
  then have tabs: "has_table d k t = has_table d k s" "has_table d k s \<Longrightarrow> table_at d k t = table_at d k s" for k
    by (auto simp: has_table_def table_at_def)
  show "wf_dir d t"
    using wf tabs pg.put_page [OF inv(1) T(1) j, of v] unfolding wf_dir_def t_def by metis
  have same: "table_at d k s = table_at d i s \<longleftrightarrow> k = i" if "has_table d k s" for k
    using wf_dirD(8) [OF wf that i] by blast
  show "walk d t w = (if PAGE_DIR_INDEX w = i \<and> PAGE_TABLE_INDEX w = j
            then if entry_present v then Some v else None else walk d s w)"
  proof (cases "has_table d (PAGE_DIR_INDEX w) s")
    case True
    then show ?thesis
      using word [OF wf_dirD(5) [OF wf True] index_less(2) [of w]] tabs same [OF True] i
      by (cases "PAGE_DIR_INDEX w = i \<and> PAGE_TABLE_INDEX w = j") (auto simp: walk_def Let_def)
  next
    case False
    then show ?thesis using i tabs by (auto simp: walk_def)
  qed
qed

text \<open>Adding a fresh, cleared table for an index that has none does not change the map.\<close>

definition add_table :: "u32 \<Rightarrow> u32 \<Rightarrow> u32 \<Rightarrow> 'a vmm_scheme \<Rightarrow> 'a vmm_scheme" where
  "add_table d i p s1 =
     wr32 (slot d i) (p OR VMM_PRESENT OR VMM_WRITABLE OR VMM_USER) (memset0 p 4096 s1)"

lemma add_table_pages:
  fixes s s1 :: "'a vmm_scheme" and d i p :: u32
  assumes wf: "wf_dir d s" and i: "i < 1024" "\<not> has_table d i s"
    and p: "pmm_alloc_block s = (p, s1)" "p \<noteq> 0"
  shows "pmm_inv (add_table d i p s1)" "owned_pages (add_table d i p s1) = insert p (owned_pages s)"
    and "p \<notin> owned_pages s" "page_aligned p"
proof -
  note f = pg.fresh_cleared(1-4) [OF wf_dirD(1) [OF wf] p]
  have d: "d \<in> owned_pages (memset0 p 4096 s1)" using f(2) wf_dirD(2) [OF wf] by simp
  show "pmm_inv (add_table d i p s1)" "owned_pages (add_table d i p s1) = insert p (owned_pages s)"
    "p \<notin> owned_pages s" "page_aligned p"
    unfolding add_table_def using pg.put_page [OF f(1) d i(1)] f by simp_all
qed

lemma add_table_word:
  fixes s s1 :: "'a vmm_scheme" and d i p :: u32
  assumes wf: "wf_dir d s" and i: "i < 1024" "\<not> has_table d i s"
    and p: "pmm_alloc_block s = (p, s1)" "p \<noteq> 0"
    and qk: "q \<in> insert p (owned_pages s)" "k < 1024"
  shows "rd32 (slot q k) (add_table d i p s1) =
    (if q = d \<and> k = i then p OR VMM_PRESENT OR VMM_WRITABLE OR VMM_USER
     else if q = p then 0 else rd32 (slot q k) s)"
proof -
  note f = pg.fresh_cleared [OF wf_dirD(1) [OF wf] p]
  have d: "d \<in> owned_pages (memset0 p 4096 s1)" "q \<in> owned_pages (memset0 p 4096 s1)"
    using f(2) qk wf_dirD(2) [OF wf] by auto
  show ?thesis
    unfolding add_table_def pg.put_page_word [OF f(1) d i(1) qk(2)]
    using f(5,6) qk by auto
qed

lemma add_table_wf:
  fixes s s1 :: "'a vmm_scheme" and d i p :: u32
  assumes wf: "wf_dir d s" and i: "i < 1024" "\<not> has_table d i s"
    and p: "pmm_alloc_block s = (p, s1)" "p \<noteq> 0"
  shows "wf_dir d (add_table d i p s1)" and "has_table d i (add_table d i p s1)"
    and "table_at d i (add_table d i p s1) = p"
    and "walk d (add_table d i p s1) = walk d s"
proof -
  let ?t = "add_table d i p s1"
  note own = add_table_pages [OF wf i p]
  have pd: "p \<noteq> d" using own(3) wf_dirD(2) [OF wf] by blast
  have dir: "rd32 (slot d k) ?t = (if k = i then p OR VMM_PRESENT OR VMM_WRITABLE OR VMM_USER
      else rd32 (slot d k) s)" if "k < 1024" for k
    using add_table_word [OF wf i p, of d k] that wf_dirD(2) [OF wf] pd by auto
  show ti: "table_at d i ?t = p" and hi: "has_table d i ?t"
    using dir [OF i(1)] table_entry [OF own(4)] i(1) by (simp_all add: table_at_def has_table_def)
  have tab: "has_table d k ?t \<longleftrightarrow> k = i \<or> has_table d k s" for k
    using dir [of k] hi i by (auto simp: has_table_def)
  have at: "table_at d k ?t = table_at d k s" if "has_table d k s" for k
    using dir [of k] that i by (auto simp: table_at_def has_table_def)
  show "wf_dir d ?t"
    unfolding wf_dir_def own tab
    using own(1,3) ti at pd wf_dirD [OF wf] by (metis insert_iff)
  have old: "rd32 (slot (table_at d k s) j) ?t = rd32 (slot (table_at d k s) j) s"
    if "has_table d k s" "j < 1024" for k j
    using add_table_word [OF wf i p, of "table_at d k s" j] wf_dirD(5,6) [OF wf that(1)] that(2) own(3) by auto
  have new: "rd32 (slot p j) ?t = 0" if "j < 1024" for j
    using add_table_word [OF wf i p, of p j] that pd by simp
  show "walk d ?t = walk d s"
  proof
    fix v
    show "walk d ?t v = walk d s v"
      using tab [of "PAGE_DIR_INDEX v"] at [of "PAGE_DIR_INDEX v"] ti i(2)
        old [of "PAGE_DIR_INDEX v" "PAGE_TABLE_INDEX v"] new [of "PAGE_TABLE_INDEX v"]
      by (cases "PAGE_DIR_INDEX v = i") (auto simp: walk_def Let_def entry_present_def)
  qed
qed

text \<open>The three outcomes of \<open>vmm_get_page_table\<close> on a well-formed directory.\<close>

lemma get_page_table_cases:
  assumes wf: "wf_dir d s" and i: "i < 1024"
  obtains (found) "has_table d i s" "vmm_get_page_table d i allocate s = (table_at d i s, s)"
  | (absent) "\<not> has_table d i s" "vmm_get_page_table d i allocate s = (0, s)"
      "allocate \<Longrightarrow> \<forall>b < mem_blocks s. pmm_test_block b s"
  | (fresh) p s1 where "\<not> has_table d i s" "allocate" "pmm_alloc_block s = (p, s1)" "p \<noteq> 0"
      "vmm_get_page_table d i allocate s = (p, add_table d i p s1)"
proof (cases "has_table d i s")
  case True
  then show thesis
    by (intro found) (auto simp: vmm_get_page_table_def has_table_def table_at_def page_base_def)
next
  case False
  then have none: "\<not> entry_present (rd32 (slot d i) s)" using i by (simp add: has_table_def)
  have nle: "\<not> 1024 \<le> i" using i by simp
  show thesis
  proof (cases allocate)
    case True
    show thesis
      using wf_dirD(1) [OF wf]
    proof (cases rule: pmm_alloc_block_cases)
      case full
      then show thesis
        using none i True False by (intro absent) (auto simp: vmm_get_page_table_def used_set_def)
    next
      case (block b)
      have "b * 4096 \<noteq> 0"
        using block(1,2) block_addr_div [of s b] wf_dirD(1) [OF wf] by (auto simp: pmm_inv_def)
      then obtain p s1 where p: "pmm_alloc_block s = (p, s1)" "p \<noteq> 0" using block(5) by blast
      have "vmm_get_page_table d i allocate s = (p, add_table d i p s1)"
        unfolding vmm_get_page_table_def add_table_def p(1) Let_def
        by (simp only: none nle p(2) True if_True if_False prod.case simp_thms)
      then show thesis using fresh False True p by blast
    qed
  next
    case False
    then show thesis
      using none i \<open>\<not> has_table d i s\<close> by (intro absent) (simp_all add: vmm_get_page_table_def)
  qed
qed

subsection \<open>Mapping, unmapping, looking up\<close>

definition pte_option :: "u32 \<Rightarrow> u32 option" where
  "pte_option e = (if entry_present e then Some e else None)"

text \<open>The specification of a page-table update: one virtual page changes its entry.\<close>

definition upd_page :: "(u32 \<Rightarrow> u32 option) \<Rightarrow> u32 \<Rightarrow> u32 \<Rightarrow> u32 \<Rightarrow> u32 option" where
  "upd_page m virt e = (\<lambda>w. if page_base w = page_base virt then pte_option e else m w)"

definition store_pte :: "u32 \<Rightarrow> u32 \<Rightarrow> u32 \<Rightarrow> u32 \<Rightarrow> 'a vmm_scheme \<Rightarrow> 'a vmm_scheme" where
  "store_pte dir table virt e s =
     (let s2 = wr32 (slot table (PAGE_TABLE_INDEX virt)) e s
      in if dir = current_directory s2 then vmm_flush_tlb_entry virt s2 else s2)"

lemma store_pte_map:
  assumes "wf_dir d s" "has_table d (PAGE_DIR_INDEX virt) s"
    and T: "T = table_at d (PAGE_DIR_INDEX virt) s"
  shows "wf_dir d (store_pte d T virt e s)"
    and "walk d (store_pte d T virt e s) = upd_page (walk d s) virt e"
    and "owned_pages (store_pte d T virt e s) = owned_pages s"
    and "q \<in> owned_pages s \<Longrightarrow> q \<noteq> T \<Longrightarrow> k < 1024
      \<Longrightarrow> rd32 (slot q k) (store_pte d T virt e s) = rd32 (slot q k) s"
    and "current_directory (store_pte d T virt e s) = current_directory s"
proof -
  let ?s2 = "wr32 (slot (table_at d (PAGE_DIR_INDEX virt) s) (PAGE_TABLE_INDEX virt)) e s"
  note put = put_pte [OF assms(1,2) index_less(2) [of virt], of e]
  note pg = pg.put_page [OF wf_dirD(1) [OF assms(1)] wf_dirD(5) [OF assms(1,2)] index_less(2) [of virt], of e]
  have walk2: "walk d ?s2 = upd_page (walk d s) virt e"
    unfolding fun_eq_iff put(2) upd_page_def pte_option_def index_eq_iff [symmetric] by auto
  show "wf_dir d (store_pte d T virt e s)" "walk d (store_pte d T virt e s) = upd_page (walk d s) virt e"
    "owned_pages (store_pte d T virt e s) = owned_pages s"
    "current_directory (store_pte d T virt e s) = current_directory s"
    using walk2 put(1) pg
    by (auto simp: store_pte_def Let_def vmm_flush_tlb_entry_def T)
  show "q \<in> owned_pages s \<Longrightarrow> q \<noteq> T \<Longrightarrow> k < 1024
      \<Longrightarrow> rd32 (slot q k) (store_pte d T virt e s) = rd32 (slot q k) s"
    using pg.put_page_word [OF wf_dirD(1) [OF assms(1)] wf_dirD(5) [OF assms(1,2)] _ index_less(2)
      [of virt], of q k e]
    by (auto simp: store_pte_def Let_def vmm_flush_tlb_entry_def T)
qed

lemma map_page_store:
  "vmm_map_page d phys virt flags s =
     (case vmm_get_page_table d (PAGE_DIR_INDEX virt) True s of (T, s1) \<Rightarrow>
        if T = 0 then (False, s1)
        else (True, store_pte d T (page_base virt) (page_base phys OR (flags AND 0xFFF)) s1))"
  unfolding vmm_map_page_def store_pte_def Let_def page_base_def [symmetric] index_page_base ..

lemma unmap_page_store:
  "vmm_unmap_page d virt s =
     (case vmm_get_page_table d (PAGE_DIR_INDEX virt) False s of (T, s1) \<Rightarrow>
        if T = 0 then (False, s1) else (True, store_pte d T virt 0 s1))"
  unfolding vmm_unmap_page_def store_pte_def Let_def ..

lemma upd_page_base [simp]: "upd_page m (page_base v) e = upd_page m v e"
  by (simp add: upd_page_def)

text \<open>The pages a directory uses: its own and its tables.\<close>

definition dir_pages :: "u32 \<Rightarrow> 'a machine_scheme \<Rightarrow> u32 set" where
  "dir_pages d s = insert d {table_at d i s | i. has_table d i s}"

lemma dir_pages_owned: "wf_dir d s \<Longrightarrow> dir_pages d s \<subseteq> owned_pages s"
  using wf_dirD by (auto simp: dir_pages_def)

lemma table_in_dir_pages: "has_table d i s \<Longrightarrow> table_at d i s \<in> dir_pages d s"
  by (auto simp: dir_pages_def)

lemma map_page_effect:
  assumes wf: "wf_dir d s" and m: "vmm_map_page d phys virt flags s = (ok, t)"
  shows "wf_dir d t"
    and "ok \<Longrightarrow> walk d t = upd_page (walk d s) virt (page_base phys OR (flags AND 0xFFF))"
    and "\<not> ok \<Longrightarrow> t = s \<and> (\<forall>b < mem_blocks s. pmm_test_block b s)"
    and "owned_pages s \<subseteq> owned_pages t"
    and "q \<in> owned_pages s - dir_pages d s \<Longrightarrow> k < 1024 \<Longrightarrow> rd32 (slot q k) t = rd32 (slot q k) s"
    and "current_directory t = current_directory s"
proof -
  note i = index_less(1) [of virt]
  have "wf_dir d t \<and> (ok \<longrightarrow> walk d t = upd_page (walk d s) virt (page_base phys OR (flags AND 0xFFF)))
    \<and> (\<not> ok \<longrightarrow> t = s \<and> (\<forall>b < mem_blocks s. pmm_test_block b s)) \<and> owned_pages s \<subseteq> owned_pages t
    \<and> (\<forall>q \<in> owned_pages s - dir_pages d s. \<forall>k < 1024. rd32 (slot q k) t = rd32 (slot q k) s)
    \<and> current_directory t = current_directory s"
    using wf i
  proof (cases rule: get_page_table_cases [where allocate = True])
    case found
    note st = store_pte_map [OF wf, of "page_base virt", unfolded index_page_base, OF found(1) refl]
    have "ok" "t = store_pte d (table_at d (PAGE_DIR_INDEX virt) s) (page_base virt)
        (page_base phys OR (flags AND 0xFFF)) s"
      using m wf_dirD(7) [OF wf found(1)] by (simp_all add: map_page_store found)
    moreover have "q \<noteq> table_at d (PAGE_DIR_INDEX virt) s" if "q \<notin> dir_pages d s" for q
      using that table_in_dir_pages [OF found(1)] by blast
    ultimately show ?thesis using st by auto
  next
    case absent
    then show ?thesis using m wf by (auto simp: map_page_store)
  next
    case (fresh p s1)
    note add = add_table_wf [OF wf i fresh(1,3,4)] add_table_pages [OF wf i fresh(1,3,4)]
    note st = store_pte_map [OF add(1), of "page_base virt", unfolded index_page_base,
        OF add(2) add(3) [symmetric]]
    have t: "ok" "t = store_pte d p (page_base virt) (page_base phys OR (flags AND 0xFFF))
        (add_table d (PAGE_DIR_INDEX virt) p s1)"
      using m fresh(4) by (simp_all add: map_page_store fresh(5))
    have "rd32 (slot q k) t = rd32 (slot q k) s"
      if "q \<in> owned_pages s - dir_pages d s" "k < 1024" for q k
      using that st(4) [of q k] add_table_word [OF wf i fresh(1,3,4), of q k] add(6,7) t(2)
      by (auto simp: dir_pages_def)
    moreover have "current_directory (add_table d (PAGE_DIR_INDEX virt) p s1) = current_directory s"
      using current_directory_alloc [OF fresh(3)] by (simp add: add_table_def)
    ultimately show ?thesis using t st add by auto
  qed
  then show "wf_dir d t"
    "ok \<Longrightarrow> walk d t = upd_page (walk d s) virt (page_base phys OR (flags AND 0xFFF))"
    "\<not> ok \<Longrightarrow> t = s \<and> (\<forall>b < mem_blocks s. pmm_test_block b s)" "owned_pages s \<subseteq> owned_pages t"
    "q \<in> owned_pages s - dir_pages d s \<Longrightarrow> k < 1024 \<Longrightarrow> rd32 (slot q k) t = rd32 (slot q k) s"
    "current_directory t = current_directory s"
    by blast+
qed

lemma unmap_page_effect:
  assumes wf: "wf_dir d s" and m: "vmm_unmap_page d virt s = (ok, t)"
  shows "wf_dir d t" and "ok \<longleftrightarrow> has_table d (PAGE_DIR_INDEX virt) s"
    and "ok \<Longrightarrow> walk d t = upd_page (walk d s) virt 0" and "\<not> ok \<Longrightarrow> t = s"
    and "owned_pages t = owned_pages s"
proof -
  have "wf_dir d t \<and> ok = has_table d (PAGE_DIR_INDEX virt) s
    \<and> (ok \<longrightarrow> walk d t = upd_page (walk d s) virt 0) \<and> (\<not> ok \<longrightarrow> t = s)
    \<and> owned_pages t = owned_pages s"
    using wf index_less(1) [of virt]
  proof (cases rule: get_page_table_cases [where allocate = False])
    case found
    note st = store_pte_map [OF wf found(1) refl]
    have "ok" "t = store_pte d (table_at d (PAGE_DIR_INDEX virt) s) virt 0 s"
      using m wf_dirD(7) [OF wf found(1)] by (simp_all add: unmap_page_store found)
    then show ?thesis using st found(1) by auto
  next
    case absent
    then show ?thesis using m wf by (auto simp: unmap_page_store)
  qed simp
  then show "wf_dir d t" "ok \<longleftrightarrow> has_table d (PAGE_DIR_INDEX virt) s"
    "ok \<Longrightarrow> walk d t = upd_page (walk d s) virt 0" "\<not> ok \<Longrightarrow> t = s" "owned_pages t = owned_pages s"
    by blast+
qed

lemma get_mapping_walk:
  assumes "wf_dir d s"
  shows "vmm_get_mapping d virt s = map_option (\<lambda>e. page_base e + PAGE_OFFSET virt) (walk d s virt)"
  using assms index_less(1) [of virt]
proof (cases rule: get_page_table_cases [where allocate = False])
  case found
  then show ?thesis
    using wf_dirD(7) [OF assms found(1)]
    by (simp add: vmm_get_mapping_def walk_def Let_def page_base_def)
next
  case absent
  then show ?thesis by (simp add: vmm_get_mapping_def walk_def Let_def)
qed simp

subsection \<open>Other directories\<close>

text \<open>An operation on one directory that leaves the words of foreign pages alone keeps the
  directories made of such pages.\<close>

lemma foreign_dir:
  assumes e: "wf_dir e s" and t: "pmm_inv t" "owned_pages s \<subseteq> owned_pages t"
    and same: "\<And>q k. q \<in> dir_pages e s \<Longrightarrow> k < 1024 \<Longrightarrow> rd32 (slot q k) t = rd32 (slot q k) s"
  shows "wf_dir e t" and "walk e t = walk e s" and "dir_pages e t = dir_pages e s"
proof -
  have dir: "rd32 (slot e i) t = rd32 (slot e i) s" if "i < 1024" for i
    using same [of e i] that by (simp add: dir_pages_def)
  have tab: "rd32 (slot (table_at e i s) j) t = rd32 (slot (table_at e i s) j) s"
    if "has_table e i s" "j < 1024" for i j
    using same that table_in_dir_pages by blast
  have h: "has_table e i t = has_table e i s" for i
    by (rule walk_cong(2) [OF dir tab])
  have at: "table_at e i t = table_at e i s" if "has_table e i s" for i
    by (rule walk_cong(3) [OF dir tab that])
  show "walk e t = walk e s" by (rule walk_cong(1) [OF dir tab])
  show "dir_pages e t = dir_pages e s" unfolding dir_pages_def h using at by metis
  show "wf_dir e t"
    unfolding wf_dir_def h using t wf_dirD(2,5,6) [OF e]
    by (auto simp: at dest: wf_dirD(8) [OF e])
qed

subsection \<open>Releasing a directory\<close>

definition free_tables :: "u32 \<Rightarrow> u32 \<Rightarrow> 'a machine_scheme \<Rightarrow> u32 set" where
  "free_tables d n s = {table_at d k s | k. k < n \<and> has_table d k s}"

lemma free_tables_loop:
  fixes s :: "'a vmm_scheme"
  assumes wf: "wf_dir d s"
  defines "body \<equiv> \<lambda>i (t :: 'a vmm_scheme). if entry_present (rd32 (slot d i) t)
                        then pmm_free_block (rd32 (slot d i) t AND NOT 0xFFF) t else t"
  defines "u \<equiv> for_lt 0 1024 (\<lambda>_ _. True) body s"
  shows "pmm_inv u" "owned_pages u = owned_pages s - free_tables d 1024 s"
    and "managed_pages u = managed_pages s"
    and "q \<in> managed_pages s \<Longrightarrow> k < 1024 \<Longrightarrow> rd32 (slot q k) u = rd32 (slot q k) s"
proof -
  let ?P = "\<lambda>i (t :: 'a vmm_scheme). pmm_inv t \<and> owned_pages t = owned_pages s - free_tables d i s
    \<and> managed_pages t = managed_pages s
    \<and> (\<forall>q \<in> managed_pages s. \<forall>k < 1024. rd32 (slot q k) t = rd32 (slot q k) s)"
  note inv = wf_dirD(1) [OF wf]
  have dm: "d \<in> managed_pages s" using pmm.owned_managed [OF inv] wf_dirD(2) [OF wf] by blast
  have "?P 1024 u"
    unfolding u_def
  proof (rule for_lt_all [where P = ?P])
    show "?P 0 s" using inv by (simp add: free_tables_def)
    fix i and t :: "'a vmm_scheme"
    assume i: "i < (1024 :: u32)" and P: "?P i t"
    have next_: "free_tables d (i + 1) s = (if has_table d i s then insert (table_at d i s) (free_tables d i s)
        else free_tables d i s)"
      using word_less_Suc_iff [OF i] by (auto simp: free_tables_def)
    have same: "rd32 (slot d i) t = rd32 (slot d i) s" using P i dm by blast
    show "?P (i + 1) (body i t)"
    proof (cases "has_table d i s")
      case True
      let ?T = "table_at d i s"
      have "?T \<notin> free_tables d i s"
        using wf_dirD(8) [OF wf True] by (auto simp: free_tables_def)
      then have T: "?T \<in> owned_pages t" using P wf_dirD(5) [OF wf True] by blast
      have b: "body i t = pmm_free_block ?T t"
        using True same by (simp add: body_def has_table_def table_at_def page_base_def)
      show ?thesis
        unfolding b next_
        using P T True pmm.free_owned [OF _ T] pmm.free_inv [OF _ T] pmm.free_managed [of ?T t]
          pmm.free_word [of t _ _ ?T] by auto
    next
      case False
      then have "body i t = t" using same i by (simp add: body_def has_table_def)
      then show ?thesis using P False by (simp add: next_)
    qed
  qed simp
  then show "pmm_inv u" "owned_pages u = owned_pages s - free_tables d 1024 s"
    "managed_pages u = managed_pages s"
    "q \<in> managed_pages s \<Longrightarrow> k < 1024 \<Longrightarrow> rd32 (slot q k) u = rd32 (slot q k) s"
    by blast+
qed

lemma free_directory_effect:
  fixes s :: "'a vmm_scheme"
  assumes wf: "wf_dir d s"
  shows "pmm_inv (vmm_free_directory d s)"
    and "owned_pages (vmm_free_directory d s) = owned_pages s - dir_pages d s"
    and "q \<in> owned_pages s \<Longrightarrow> k < 1024 \<Longrightarrow> rd32 (slot q k) (vmm_free_directory d s) = rd32 (slot q k) s"
proof -
  define u where "u = for_lt 0 1024 (\<lambda>_ _. True) (\<lambda>i t. if entry_present (rd32 (slot d i) t)
                        then pmm_free_block (rd32 (slot d i) t AND NOT 0xFFF) t else t) s"
  note l = free_tables_loop [OF wf, folded u_def]
  have free: "vmm_free_directory d s = pmm_free_block d u"
    using wf_dirD(3) [OF wf] by (simp add: vmm_free_directory_def u_def)
  have pages: "dir_pages d s = insert d (free_tables d 1024 s)"
    using has_tableE [of d _ s] by (auto simp: dir_pages_def free_tables_def)
  have "d \<notin> free_tables d 1024 s"
  proof
    assume "d \<in> free_tables d 1024 s"
    then obtain k where k: "d = table_at d k s" "has_table d k s"
      unfolding free_tables_def by blast
    from wf_dirD(6) [OF wf k(2)] k(1) [symmetric] show False by (rule notE)
  qed
  then have d: "d \<in> owned_pages u" using wf_dirD(2) [OF wf] l(2) by blast
  show "pmm_inv (vmm_free_directory d s)"
    "owned_pages (vmm_free_directory d s) = owned_pages s - dir_pages d s"
    unfolding free pages using pmm.free_owned [OF l(1) d] pmm.free_inv [OF l(1) d] l(2) by auto
  show "rd32 (slot q k) (vmm_free_directory d s) = rd32 (slot q k) s"
    if "q \<in> owned_pages s" "k < 1024"
  proof -
    have "q \<in> managed_pages s" using pmm.owned_managed [OF wf_dirD(1) [OF wf]] that(1) by blast
    then show ?thesis
      unfolding free using l(3,4) pmm.free_word [OF l(1), of q k d] that(2) by simp
  qed
qed

subsection \<open>A small directory for the witnesses\<close>

text \<open>Sixteen blocks, seven in use: a directory in block 4, with a table for index 0 in
  block 5 that maps virtual page 1 to physical page 2, and an empty directory in block 6.\<close>

definition sample_vmm :: vmm where
  "sample_vmm =
     \<lparr>mem = (\<lambda>a. if a = 0x10000 then 0x7F else if a = 0x4000 then 0x5007
                 else if a = 0x5004 then 0x2003 else 0),
      klog = [], port_out = [], port_in = (\<lambda>_ _. 0), port_reads = (\<lambda>_. 0),
      interrupt_handlers = replicate 256 None, pmm_memory_map = 0x10000, pmm_memory_map_size = 2,
      mem_size = 0x10000, mem_blocks = 16, mem_used_blocks = 7, mem_max_addr = 0x10000,
      kernel_directory = 0x4000, current_directory = 0x4000, cr3 = 0x4000, tlb_flushes = []\<rparr>"

lemma sample_vmm_used: "used_set sample_vmm = {0, 1, 2, 3, 4, 5, 6}"
proof -
  have "pmm_test_block b sample_vmm \<longleftrightarrow> b \<in> {0, 1, 2, 3, 4, 5, 6}" if "b < 16" for b
  proof -
    have "b \<in> of_nat ` {0..<16}" using that by (intro word_below) (simp add: word_less_nat_alt)
    then have "b \<in> {15, 14, 13, 12, 11, 10, 9, 8, 7, 6, 5, 4, 3, 2, 1, 0}"
      by (simp add: atLeastLessThan_nat_numeral)
    then show ?thesis
      by (elim insertE emptyE; simp add: pmm_test_block_def bm_addr_def bm_mask_def
          rd32_def sample_vmm_def)
  qed
  moreover have "mem_blocks sample_vmm = 16" by (simp add: sample_vmm_def)
  ultimately show ?thesis by (auto simp: used_set_def)
qed

lemma sample_vmm_pmm: "pmm_inv sample_vmm"
  unfolding pmm_inv_def sample_vmm_used by (simp add: pmm_geom_def sample_vmm_def)

lemma sample_vmm_owned: "0x4000 \<in> owned_pages sample_vmm" "0x5000 \<in> owned_pages sample_vmm"
  "0x6000 \<in> owned_pages sample_vmm"
  unfolding owned_pages_def sample_vmm_used by (simp_all add: page_aligned_def)

lemma sample_vmm_dir:
  assumes "i < 1024"
  shows "rd32 (slot 0x4000 i) sample_vmm = (if i = 0 then 0x5007 else 0)"
proof -
  have u: "unat (slot 0x4000 i) = 0x4000 + 4 * unat i"
    using unat_slot [of "0x4000" i] assms by (simp add: page_aligned_def)
  then have "slot 0x4000 i \<noteq> 0x10000" "slot 0x4000 i \<noteq> 0x5004"
    using unat_1024 [OF assms] by auto
  moreover have "slot 0x4000 i = 0x4000 \<longleftrightarrow> i = 0"
    using unat_4_mult [OF assms] by (simp add: slot_def flip: unat_eq_0)
  ultimately show ?thesis by (simp add: rd32_def sample_vmm_def)
qed

lemma sample_vmm_table: "has_table 0x4000 i sample_vmm \<longleftrightarrow> i = 0" "table_at 0x4000 0 sample_vmm = 0x5000"
proof -
  show "has_table 0x4000 i sample_vmm \<longleftrightarrow> i = 0"
    by (cases "i < 1024"; cases "i = 0")
      (simp_all add: has_table_def sample_vmm_dir entry_present_def VMM_PRESENT_def)
  show "table_at 0x4000 0 sample_vmm = 0x5000"
    by (simp add: table_at_def sample_vmm_dir page_base_def)
qed

lemma sample_vmm_empty: "\<not> has_table 0x6000 i sample_vmm"
proof (cases "i < 1024")
  case True
  then have u: "unat (slot 0x6000 i) = 0x6000 + 4 * unat i"
    using unat_slot [of "0x6000" i] by (simp add: page_aligned_def)
  then have "slot 0x6000 i \<noteq> 0x10000" "slot 0x6000 i \<noteq> 0x5004" "slot 0x6000 i \<noteq> 0x4000"
    using unat_1024 [OF True] by auto
  then show ?thesis by (simp add: has_table_def entry_present_def rd32_def sample_vmm_def)
qed (simp add: has_table_def)

lemma sample_vmm_wf: "wf_dir 0x4000 sample_vmm"
  unfolding wf_dir_def using sample_vmm_pmm sample_vmm_owned sample_vmm_table by auto

subsection \<open>Properties\<close>

text \<open>C3: mapping a page refines a one-point update of the directory's map.  On a well-formed
  directory a successful \<open>vmm_map_page\<close> makes the virtual page (any address in it) map to the
  physical page with the given flags, and every other virtual page keeps its entry; it fails
  only when no block is free, and then changes nothing.  Either way the directory stays well
  formed and the allocator keeps every page handed out before.\<close>

theorem vmm_map_page_refines:
  assumes "wf_dir d s" and "vmm_map_page d phys virt flags s = (ok, t)"
  shows "wf_dir d t \<and> owned_pages s \<subseteq> owned_pages t
    \<and> (if ok then walk d t = upd_page (walk d s) virt (page_base phys OR (flags AND 0xFFF))
       else t = s \<and> (\<forall>b < mem_blocks s. pmm_test_block b s))"
  using map_page_effect [OF assms] by simp

theorem vmm_map_page_refines_witness:
  "let t = snd (vmm_map_page 0x4000 0x7000 0x3000 3 sample_vmm) in
   wf_dir 0x4000 t \<and> owned_pages sample_vmm \<subseteq> owned_pages t"
  using vmm_map_page_refines [OF sample_vmm_wf surjective_pairing, of "0x7000" "0x3000" 3]
  by (simp add: Let_def)

text \<open>C5: what was mapped is what is looked up.  After a successful \<open>vmm_map_page\<close> with the
  present flag, \<open>vmm_get_mapping\<close> of any address of the page gives the same offset in the
  physical page; of an address of another page it gives what it gave before.\<close>

theorem vmm_mapping_roundtrip:
  assumes "wf_dir d s" and "vmm_map_page d phys virt flags s = (True, t)" and "entry_present flags"
  shows "vmm_get_mapping d v t = (if page_base v = page_base virt
      then Some (page_base phys + PAGE_OFFSET v) else vmm_get_mapping d v s)"
  using map_page_effect(1,2) [OF assms(1,2)] assms(1,3)
  by (simp add: get_mapping_walk upd_page_def pte_option_def entry_fields)

theorem vmm_mapping_roundtrip_witness:
  "\<exists>t. vmm_map_page 0x4000 0x7000 0x3000 3 sample_vmm = (True, t)
     \<and> vmm_get_mapping 0x4000 0x3ABC t = Some 0x7ABC"
proof -
  have "fst (vmm_map_page 0x4000 0x7000 0x3000 3 sample_vmm)"
    using sample_vmm_dir [of 0]
    by (simp add: vmm_map_page_def vmm_get_page_table_def Let_def PAGE_DIR_INDEX_def
        entry_present_def VMM_PRESENT_def)
  then obtain t where t: "vmm_map_page 0x4000 0x7000 0x3000 3 sample_vmm = (True, t)"
    by (metis (full_types) prod.collapse)
  then show ?thesis
    using vmm_mapping_roundtrip [OF sample_vmm_wf t, of "0x3ABC"]
    by (simp add: entry_present_def VMM_PRESENT_def page_base_def PAGE_OFFSET_def)
qed

text \<open>C13: unmapping removes one page.  On a well-formed directory \<open>vmm_unmap_page\<close> succeeds
  exactly if the directory has a table for the address; then the page no longer maps
  and all others keep their entries, no page is given back to the allocator, and the
  directory stays well formed.  Otherwise nothing changes.\<close>

theorem vmm_unmap_page_refines:
  assumes "wf_dir d s" and "vmm_unmap_page d virt s = (ok, t)"
  shows "wf_dir d t \<and> owned_pages t = owned_pages s \<and> (ok \<longleftrightarrow> has_table d (PAGE_DIR_INDEX virt) s)
    \<and> (if ok then \<forall>v. vmm_get_mapping d v t = (if page_base v = page_base virt then None
              else vmm_get_mapping d v s)
       else t = s)"
proof (cases ok)
  case True
  note u = unmap_page_effect [OF assms]
  have "\<not> entry_present 0" by (simp add: entry_present_def)
  then show ?thesis
    using u(1,2,5) u(3) [OF True] True assms(1)
    by (simp add: get_mapping_walk upd_page_def pte_option_def)
qed (use unmap_page_effect [OF assms] in simp)

theorem vmm_unmap_page_refines_witness:
  "let t = snd (vmm_unmap_page 0x4000 0x1000 sample_vmm) in
   wf_dir 0x4000 t \<and> owned_pages t = owned_pages sample_vmm"
  using vmm_unmap_page_refines [OF sample_vmm_wf surjective_pairing, of "0x1000"]
  by (simp add: Let_def)

text \<open>C20: address spaces do not interfere.  Mapping a page in one well-formed directory leaves
  every well-formed directory that shares no page with it well formed and its map
  unchanged.\<close>

theorem vmm_map_page_isolated:
  assumes "wf_dir d s" "wf_dir e s" and "dir_pages d s \<inter> dir_pages e s = {}"
    and "vmm_map_page d phys virt flags s = (ok, t)"
  shows "wf_dir e t \<and> walk e t = walk e s"
proof -
  note m = map_page_effect [OF assms(1,4)]
  have foreign: "dir_pages e s \<subseteq> owned_pages s - dir_pages d s"
    using assms(3) dir_pages_owned [OF assms(2)] by blast
  show ?thesis
    using foreign_dir [OF assms(2) wf_dirD(1) [OF m(1)] m(4)] m(5) foreign by blast
qed

theorem vmm_map_page_isolated_witness:
  "let t = snd (vmm_map_page 0x4000 0x7000 0x3000 3 sample_vmm) in
   wf_dir 0x6000 t \<and> walk 0x6000 t = walk 0x6000 sample_vmm"
proof -
  have wf: "wf_dir 0x6000 sample_vmm"
    unfolding wf_dir_def using sample_vmm_pmm sample_vmm_owned sample_vmm_empty by auto
  have "dir_pages 0x4000 sample_vmm = {0x4000, 0x5000}" "dir_pages 0x6000 sample_vmm = {0x6000}"
    using sample_vmm_table sample_vmm_empty by (auto simp: dir_pages_def)
  then show ?thesis
    using vmm_map_page_isolated [OF sample_vmm_wf wf _ surjective_pairing, of "0x7000" "0x3000" 3]
    by (simp add: Let_def)
qed

text \<open>C30: releasing a directory gives back its page and its tables, and nothing else: after
  \<open>vmm_free_directory\<close> on a well-formed directory the pages in use are those before without
  the directory's own, and the allocator is consistent.\<close>

theorem vmm_free_directory_releases:
  assumes "wf_dir d s"
  shows "pmm_inv (vmm_free_directory d s)
    \<and> owned_pages (vmm_free_directory d s) = owned_pages s - dir_pages d s"
  using free_directory_effect [OF assms] by blast

theorem vmm_free_directory_releases_witness:
  "0x5000 \<notin> owned_pages (vmm_free_directory 0x4000 sample_vmm) \<and> 0x5000 \<in> owned_pages sample_vmm"
  using vmm_free_directory_releases [OF sample_vmm_wf] sample_vmm_owned
    table_in_dir_pages [of "0x4000" 0 sample_vmm] sample_vmm_table by auto

end
