(* ===== verification/Vmm_Build.thy ===== *)
theory Vmm_Build
  imports Vmm
begin

text \<open>
  Building whole address spaces: mapping ranges (\<open>vmm_identity_map\<close>, the higher-half loop
  and \<open>vmm_init\<close>) and cloning a directory.  Each is a loop over the single-page operations
  of Vmm; the lemmas here carry their effect through the loops.
\<close>

subsection \<open>Page arithmetic\<close>

lemma page_aligned_add:
  assumes "page_aligned p" "page_aligned q"
  shows "page_aligned (p + q)"
proof -
  have "(unat p + unat q) mod 2 ^ 32 mod 4096 = (unat p + unat q) mod 4096"
    by (rule mod_mod_cancel) simp
  also have "\<dots> = 0"
    using assms unfolding page_aligned_def by (simp add: mod_add_eq [symmetric])
  finally show ?thesis by (simp add: page_aligned_def unat_word_ariths(1))
qed

lemma page_split: "page_base x + of_nat (unat x mod 4096) = x"
proof -
  have "unat (page_base x) + unat x mod 4096 = unat x"
    by (simp add: unat_page_base)
  then have "unat (page_base x + of_nat (unat x mod 4096)) = unat x"
    using unat_page_slot [of "page_base x" "unat x mod 4096"] by simp
  then show ?thesis by (rule word_unat_eqI)
qed

lemma page_base_add:
  assumes "page_aligned off"
  shows "page_base (x + off) = page_base x + off"
proof -
  have eq: "x + off = (page_base x + off) + of_nat (unat x mod 4096)"
    using page_split [of x] by (simp add: algebra_simps)
  show ?thesis
    by (subst eq, rule page_base_offset [OF page_aligned_add [OF page_aligned_base assms]]) simp
qed

lemma unat_page_of: "unat (x div 4096 * 4096 :: u32) = unat x div 4096 * 4096"
proof -
  have "unat x div 4096 * 4096 \<le> unat x" by simp
  then have "unat x div 4096 * 4096 < 2 ^ 32"
    using unsigned_less [of x, where 'a = nat] by (simp add: order.strict_trans1)
  then show ?thesis by (simp add: unat_word_ariths(2) unat_div)
qed

lemma page_base_div: "page_base x = x div 4096 * 4096"
  by (rule word_unat_eqI) (simp add: unat_page_base unat_page_of)

text \<open>Page numbers stand for aligned addresses.\<close>

lemma page_number:
  fixes k e :: u32
  assumes "k < e div 4096"
  shows "page_aligned (k * 4096)" "(k * 4096) div 4096 = k"
proof -
  have "unat k < unat e div 4096"
    using word_less_unat_mono [OF assms] by (simp add: unat_div)
  then have "unat k * 4096 < 2 ^ 32"
    using unsigned_less [of e, where 'a = nat] by auto
  then have u: "unat (k * 4096) = unat k * 4096" by (simp add: unat_word_ariths(2))
  then show "page_aligned (k * 4096)" by (simp add: page_aligned_def)
  show "(k * 4096) div 4096 = k"
    by (rule word_unat_eqI) (simp add: unat_div u)
qed

lemma same_page_shifted:
  fixes k e :: u32
  assumes off: "page_aligned off" and k: "k < e div 4096"
  shows "page_base v = page_base (k * 4096 + off) \<longleftrightarrow> (v - off) div 4096 = k"
proof -
  have "page_base v = page_base (v - off) + off"
    using page_base_add [OF off, of "v - off"] by simp
  moreover have "page_base (k * 4096 + off) = k * 4096 + off"
    using page_base_add [OF off, of "k * 4096"] page_number [OF k] by simp
  ultimately have "page_base v = page_base (k * 4096 + off) \<longleftrightarrow> (v - off) div 4096 * 4096 = k * 4096"
    by (simp add: page_base_div)
  also have "\<dots> \<longleftrightarrow> (v - off) div 4096 = k"
  proof
    assume "(v - off) div 4096 * 4096 = k * 4096"
    then have "unat (v - off) div 4096 * 4096 = unat (k * 4096)" by (metis unat_page_of)
    then have "unat ((v - off) div 4096) = unat ((k * 4096) div 4096)"
      by (simp add: unat_div flip: \<open>(v - off) div 4096 * 4096 = k * 4096\<close>)
    then show "(v - off) div 4096 = k"
      using page_number(2) [OF k] by (simp add: word_unat_eqI)
  qed simp
  finally show ?thesis .
qed

lemma aligned_div_less:
  fixes x e :: u32
  assumes "page_aligned e"
  shows "x div 4096 < e div 4096 \<longleftrightarrow> x < e" and "e div 4096 \<le> x div 4096 \<longleftrightarrow> e \<le> x"
proof -
  obtain k where "unat e = 4096 * k" using page_alignedE [OF assms] .
  then show "x div 4096 < e div 4096 \<longleftrightarrow> x < e"
    by (simp add: word_less_nat_alt unat_div less_mult_imp_div_less div_less_iff_less_mult mult.commute)
  then show "e div 4096 \<le> x div 4096 \<longleftrightarrow> e \<le> x" by (simp flip: not_less)
qed

text \<open>The C loop \<open>for (addr = a; addr < e; addr += PAGE_SIZE)\<close> and the count over pages agree.\<close>

lemma for_pages_unfold:
  assumes "page_aligned a" "page_aligned e"
  shows "for_pages a e body s = (if a < e then for_pages (a + 4096) e body (body a s) else s)"
proof (cases "a < e")
  case True
  then have lt: "a div 4096 < e div 4096" using aligned_div_less(1) [OF assms(2)] by blast
  have "unat a + 4096 < 2 ^ 32"
  proof -
    obtain j k where "unat a = 4096 * j" "unat e = 4096 * k"
      using page_alignedE [OF assms(1)] page_alignedE [OF assms(2)] by metis
    then have "unat a + 4096 \<le> unat e" using word_less_unat_mono [OF True] by simp
    then show ?thesis using unsigned_less [of e, where 'a = nat] by simp
  qed
  then have "unat ((a + 4096) div 4096) = unat (a div 4096) + 1"
    using unat_add_small [of a 4096] by (simp add: unat_div)
  also have "\<dots> = unat (a div 4096 + 1)" using unat_Suc_less [OF lt] by simp
  finally have "(a + 4096) div 4096 = a div 4096 + 1" by (rule word_unat_eqI)
  moreover have "a div 4096 * 4096 = a" by (rule page_div_mult [OF assms(1)])
  ultimately show ?thesis
    using True lt by (simp add: for_pages_def for_lt_step)
next
  case False
  then show ?thesis
    using aligned_div_less(1) [OF assms(2), of a] by (simp add: for_pages_def)
qed

subsection \<open>Mapping a range of pages\<close>

definition out_of_memory :: "'a pmm_scheme \<Rightarrow> bool" where
  "out_of_memory s \<longleftrightarrow> (\<forall>b < mem_blocks s. pmm_test_block b s)"

lemma mem_blocks_frame [simp]:
  fixes s :: "'a pmm_scheme"
  shows "mem_blocks (wr32 a v s) = mem_blocks s" "mem_blocks (memset0 p n s) = mem_blocks s"
    "mem_blocks (copy_page p f s) = mem_blocks s"
  by (simp_all add: wr32_def memset0_def copy_page_def memcpy_from_def)

lemma mem_blocks_alloc: "pmm_alloc_block s = (p, t) \<Longrightarrow> mem_blocks t = mem_blocks s"
  by (auto simp: pmm_alloc_block_def Let_def split: if_splits)

lemma get_page_table_blocks:
  "vmm_get_page_table d i al s = (T, t) \<Longrightarrow> mem_blocks t = mem_blocks s"
  by (auto simp: vmm_get_page_table_def Let_def dest: mem_blocks_alloc split: if_splits prod.splits)

lemma store_pte_blocks [simp]: "mem_blocks (store_pte d T virt e s) = mem_blocks s"
  by (simp add: store_pte_def Let_def vmm_flush_tlb_entry_def)

lemma map_page_blocks: "vmm_map_page d phys virt flags s = (ok, t) \<Longrightarrow> mem_blocks t = mem_blocks s"
  by (auto simp: map_page_store dest: get_page_table_blocks split: if_splits prod.splits)

text \<open>Pages in use determine the marked blocks, block 0 being marked in every valid state.\<close>

lemma out_of_memory_mono:
  assumes "pmm_inv s" "pmm_inv t" "mem_blocks t = mem_blocks s" "owned_pages s \<subseteq> owned_pages t"
    and "out_of_memory s"
  shows "out_of_memory t"
  unfolding out_of_memory_def
proof (intro allI impI)
  fix b
  assume b: "b < mem_blocks t"
  have g: "pmm_geom s" using assms(1) by (simp add: pmm_inv_def)
  have lt: "b < mem_blocks s" using b assms(3) by simp
  show "pmm_test_block b t"
  proof (cases "b = 0")
    case True
    then show ?thesis using assms(2) by (simp add: pmm_inv_def used_set_def)
  next
    case False
    have "b * 4096 div 4096 = b" by (rule block_addr_div [OF g lt])
    moreover from this False have "b * 4096 \<noteq> 0" by auto
    ultimately have "b * 4096 \<in> owned_pages s"
      using lt assms(5) page_aligned_block [OF g lt]
      by (simp add: owned_pages_def used_set_def out_of_memory_def)
    then have "b * 4096 \<in> owned_pages t" using assms(4) by blast
    then show ?thesis
      using \<open>b * 4096 div 4096 = b\<close> by (simp add: owned_pages_def used_set_def)
  qed
qed

lemma map_page_step:
  fixes s :: "'a vmm_scheme" and phys virt :: u32
  assumes wf: "wf_dir d s" and present: "entry_present flags"
  defines "t \<equiv> snd (vmm_map_page d phys virt flags s)"
  shows "wf_dir d t" and "mem_blocks t = mem_blocks s"
    and "out_of_memory s \<Longrightarrow> out_of_memory t"
    and "walk d t v = (if page_base v = page_base virt then Some (page_base phys OR (flags AND 0xFFF))
           else walk d s v) \<or> (out_of_memory t \<and> t = s)"
proof -
  obtain ok where ok: "vmm_map_page d phys virt flags s = (ok, t)"
    unfolding t_def by (metis prod.collapse)
  note m = map_page_effect [OF wf ok]
  show "wf_dir d t" "mem_blocks t = mem_blocks s" using m(1) map_page_blocks [OF ok] by blast+
  show "out_of_memory s \<Longrightarrow> out_of_memory t"
    using out_of_memory_mono [OF wf_dirD(1) [OF wf] wf_dirD(1) [OF m(1)] map_page_blocks [OF ok] m(4)] .
  show "walk d t v = (if page_base v = page_base virt then Some (page_base phys OR (flags AND 0xFFF))
           else walk d s v) \<or> (out_of_memory t \<and> t = s)"
    using m(2,3) present by (cases ok) (auto simp: upd_page_def pte_option_def entry_fields out_of_memory_def)
qed

definition range_mapped ::
  "u32 \<Rightarrow> u32 \<Rightarrow> u32 \<Rightarrow> u32 \<Rightarrow> u32 \<Rightarrow> 'a vmm_scheme \<Rightarrow> 'a vmm_scheme \<Rightarrow> bool"
where
  "range_mapped d a k off flags s t \<longleftrightarrow>
     (\<forall>v. if a \<le> (v - off) div 4096 \<and> (v - off) div 4096 < k
          then walk d t v = Some (page_base (v - off) OR (flags AND 0xFFF))
               \<or> out_of_memory t \<and> walk d t v = walk d s v
          else walk d t v = walk d s v)"

lemma range_mapped_step:
  assumes wf: "wf_dir d t" and present: "entry_present flags" and off: "page_aligned off"
    and k: "a \<le> k" "k < e div 4096" and r: "range_mapped d a k off flags s t"
  defines "u \<equiv> snd (vmm_map_page d (k * 4096) (k * 4096 + off) flags t)"
  shows "range_mapped d a (k + 1) off flags s u"
proof -
  note step = map_page_step [OF wf present, of "k * 4096" "k * 4096 + off", folded u_def]
  have "if a \<le> (v - off) div 4096 \<and> (v - off) div 4096 < k + 1
        then walk d u v = Some (page_base (v - off) OR (flags AND 0xFFF))
             \<or> out_of_memory u \<and> walk d u v = walk d s v
        else walk d u v = walk d s v" for v
  proof -
    have lt: "(v - off) div 4096 < k + 1 \<longleftrightarrow> (v - off) div 4096 < k \<or> (v - off) div 4096 = k"
      by (rule word_less_Suc_iff [OF k(2)])
    have same: "page_base v = page_base (k * 4096 + off) \<longleftrightarrow> (v - off) div 4096 = k"
      by (rule same_page_shifted [OF off k(2)])
    have base: "page_base (k * 4096) = k * 4096" using page_number(1) [OF k(2)] by simp
    show ?thesis
      using step(3) step(4) [of v] r [unfolded range_mapped_def, rule_format, of v] lt k(1)
      unfolding same base
      by (cases "(v - off) div 4096 = k") (auto simp: page_base_div split: if_splits)
  qed
  then show ?thesis unfolding range_mapped_def by blast
qed

lemma map_range:
  fixes s :: "'a vmm_scheme"
  assumes wf: "wf_dir d s" and present: "entry_present flags"
    and al: "page_aligned a" "page_aligned e" "page_aligned off"
  defines "t \<equiv> for_pages a e (\<lambda>addr t. snd (vmm_map_page d addr (addr + off) flags t)) s"
  shows "wf_dir d t" and "mem_blocks t = mem_blocks s"
    and "range_mapped d (a div 4096) (e div 4096) off flags s t"
    and "out_of_memory s \<Longrightarrow> out_of_memory t"
proof -
  let ?P = "\<lambda>k t. wf_dir d t \<and> mem_blocks t = mem_blocks s \<and> (out_of_memory s \<longrightarrow> out_of_memory t)
    \<and> range_mapped d (a div 4096) k off flags s t"
  have "?P (e div 4096) t"
  proof (cases "a div 4096 \<le> e div 4096")
    case True
    show ?thesis
      unfolding t_def for_pages_def
    proof (rule for_lt_all [where P = ?P, OF True])
      show "?P (a div 4096) s" using wf by (auto simp: range_mapped_def)
      fix k t
      assume k: "a div 4096 \<le> k" "k < e div 4096" and P: "?P k t"
      then have w: "wf_dir d t" and r: "range_mapped d (a div 4096) k off flags s t" by blast+
      show "?P (k + 1) (snd (vmm_map_page d (k * 4096) (k * 4096 + off) flags t))"
        using range_mapped_step [OF w present al(3) k r] map_page_step(1) [OF w present]
          trans [OF map_page_step(2) [OF w present]] map_page_step(3) [OF w present] P
        by (intro conjI) blast+
    qed
  next
    case False
    have "t = s" using False unfolding t_def for_pages_def by (intro for_lt_stop) auto
    moreover have "\<not> (a div 4096 \<le> x \<and> x < e div 4096)" for x
      using False by (meson order.strict_implies_order order.trans)
    ultimately show ?thesis
      using wf by (simp only: range_mapped_def if_False simp_thms)
  qed
  then show "wf_dir d t" "mem_blocks t = mem_blocks s"
    "range_mapped d (a div 4096) (e div 4096) off flags s t"
    "out_of_memory s \<Longrightarrow> out_of_memory t"
    by blast+
qed

lemma kernel_directory_frame [simp]:
  fixes s :: "'a vmm_scheme"
  shows "kernel_directory (wr32 a v s) = kernel_directory s"
    "kernel_directory (memset0 p n s) = kernel_directory s"
    "kernel_directory (pmm_set_block b s) = kernel_directory s"
  by (simp_all add: wr32_def memset0_def pmm_set_block_def)

lemma kernel_directory_alloc:
  "pmm_alloc_block s = (p, t) \<Longrightarrow> kernel_directory t = kernel_directory (s :: 'a vmm_scheme)"
  by (auto simp: pmm_alloc_block_def Let_def split: if_splits)

lemma kernel_directory_get_page_table:
  "vmm_get_page_table d i al s = (T, t) \<Longrightarrow> kernel_directory t = kernel_directory s"
  by (auto simp: vmm_get_page_table_def Let_def dest: kernel_directory_alloc split: if_splits prod.splits)

lemma kernel_directory_map_page [simp]:
  "kernel_directory (snd (vmm_map_page d phys virt flags s)) = kernel_directory s"
  by (auto simp: map_page_store store_pte_def Let_def vmm_flush_tlb_entry_def
      dest: kernel_directory_get_page_table split: if_splits prod.splits)

lemma kernel_directory_range [simp]:
  "kernel_directory (for_pages a e (\<lambda>addr t. snd (vmm_map_page d (f addr) (g addr) flags t)) s)
   = kernel_directory s"
  unfolding for_pages_def
  by (rule for_lt_invariant [where P = "\<lambda>t. kernel_directory t = kernel_directory s"]) simp_all

subsection \<open>State the memory managers do not look at\<close>

lemma vmm_state_cong:
  fixes s t :: "'a vmm_scheme"
  assumes "mem t = mem s" "pmm_memory_map t = pmm_memory_map s" "mem_blocks t = mem_blocks s"
    "mem_used_blocks t = mem_used_blocks s"
  shows "pmm_inv t = pmm_inv s" "owned_pages t = owned_pages s" "out_of_memory t = out_of_memory s"
    "wf_dir d t = wf_dir d s" "walk d t = walk d s" "vmm_get_mapping d v t = vmm_get_mapping d v s"
proof -
  have rd: "rd32 a t = rd32 a s" for a using assms by (simp add: rd32_def)
  have test: "pmm_test_block b t = pmm_test_block b s" for b
    using rd assms(2) by (simp add: pmm_test_block_def bm_addr_def)
  show inv: "pmm_inv t = pmm_inv s" and own: "owned_pages t = owned_pages s"
    and "out_of_memory t = out_of_memory s"
    using assms test
    by (simp_all add: pmm_inv_def pmm_geom_def used_set_def owned_pages_def out_of_memory_def)
  have h: "has_table d i t = has_table d i s" "table_at d i t = table_at d i s" for i
    by (simp_all add: has_table_def table_at_def rd)
  show "wf_dir d t = wf_dir d s" "walk d t = walk d s"
    by (simp_all add: wf_dir_def walk_def fun_eq_iff inv own h rd)
  show "vmm_get_mapping d v t = vmm_get_mapping d v s"
    by (simp add: vmm_get_mapping_def vmm_get_page_table_def rd Let_def)
qed

lemma create_directory_cases:
  assumes inv: "pmm_inv s"
  obtains (null) "vmm_create_directory s = (0, s)" "out_of_memory s"
  | (created) d t where "vmm_create_directory s = (d, t)" "d \<noteq> 0" "wf_dir d t" "walk d t = (\<lambda>_. None)"
      "d \<notin> owned_pages s" "owned_pages t = insert d (owned_pages s)"
      "\<forall>q \<in> owned_pages s. \<forall>i < 1024. rd32 (slot q i) t = rd32 (slot q i) s"
      "\<forall>i. \<not> has_table d i t"
  using inv
proof (cases rule: pmm_alloc_block_cases)
  case full
  then show ?thesis
    by (intro null) (auto simp: vmm_create_directory_def out_of_memory_def used_set_def)
next
  case (block b)
  then obtain d s1 where d: "pmm_alloc_block s = (d, s1)" "d \<noteq> 0"
    using block_addr_div [of s b] inv by (fastforce simp: pmm_inv_def)
  let ?t = "memset0 d 4096 s1"
  note f = pg.fresh_cleared [OF inv d]
  have none: "\<not> has_table d i ?t" for i
    using f(5) by (auto simp: has_table_def entry_present_def)
  show ?thesis
  proof (rule created)
    show "vmm_create_directory s = (d, ?t)" using d by (simp add: vmm_create_directory_def)
    show "wf_dir d ?t" using f(1,2) none by (simp add: wf_dir_def)
    show "walk d ?t = (\<lambda>_. None)" using none by (simp add: walk_def fun_eq_iff)
    show "\<forall>i. \<not> has_table d i ?t" using none by blast
  qed (use d f in auto)
qed

lemma page_base_offset_sum: "page_base v + PAGE_OFFSET v = v"
proof -
  have "PAGE_OFFSET v = of_nat (unat v mod 4096)"
    using page_offset_and [of v] by (metis PAGE_OFFSET_def of_nat_unat ucast_id)
  then show ?thesis using page_split [of v] by simp
qed

text \<open>A mapped range, seen through \<open>vmm_get_mapping\<close>.\<close>

lemma range_mapped_lookup:
  assumes "wf_dir d s" "wf_dir d t" and al: "page_aligned a" "page_aligned e" "page_aligned off"
    and r: "range_mapped d (a div 4096) (e div 4096) off flags s t"
  shows "if a \<le> v - off \<and> v - off < e
    then vmm_get_mapping d v t = Some (v - off)
         \<or> out_of_memory t \<and> vmm_get_mapping d v t = vmm_get_mapping d v s
    else vmm_get_mapping d v t = vmm_get_mapping d v s"
proof -
  have "page_base (v - off) + PAGE_OFFSET v = v - off"
  proof -
    have "page_base v = page_base (v - off) + off"
      using page_base_add [OF al(3), of "v - off"] by simp
    then show ?thesis using page_base_offset_sum [of v] by (simp add: algebra_simps)
  qed
  then show ?thesis
    using r [unfolded range_mapped_def, rule_format, of v] entry_fields(1) [of "page_base (v - off)" flags]
    unfolding aligned_div_less [OF al(2)] aligned_div_less [OF al(1)]
    by (auto simp: get_mapping_walk [OF assms(1)] get_mapping_walk [OF assms(2)] split: if_splits)
qed

lemma high_range:
  fixes v :: u32
  shows "0 \<le> v - 0xC0000000 \<and> v - 0xC0000000 < 0xA00000 \<longleftrightarrow> 0xC0000000 \<le> v \<and> v < 0xC0A00000"
  using unsigned_less [of v, where 'a = nat]
  by (auto simp: word_less_nat_alt word_le_nat_alt unat_sub_if')

text \<open>The three mapping loops of \<open>vmm_init\<close> on an empty directory.\<close>

definition kernel_maps :: "u32 \<Rightarrow> 'a vmm_scheme \<Rightarrow> 'a vmm_scheme" where
  "kernel_maps d s =
     (let fl = VMM_PRESENT OR VMM_WRITABLE;
          s1 = vmm_identity_map d 0 (4 * 1024 * 1024) fl s;
          s2 = vmm_identity_map d (1 * 1024 * 1024) (10 * 1024 * 1024) fl s1
      in for_pages 0 (10 * 1024 * 1024) (\<lambda>i t. snd (vmm_map_page d i (i + 0xC0000000) fl t)) s2)"

lemma kernel_maps_effect:
  fixes s3 :: "'a vmm_scheme"
  assumes wf3: "wf_dir d s3" and none: "\<And>v. vmm_get_mapping d v s3 = None"
  shows "wf_dir d (kernel_maps d s3)" and "kernel_directory (kernel_maps d s3) = kernel_directory s3"
    and "v < 0xA00000 \<Longrightarrow> vmm_get_mapping d v (kernel_maps d s3) = Some v \<or> out_of_memory (kernel_maps d s3)"
    and "0xC0000000 \<le> v \<Longrightarrow> v < 0xC0A00000 \<Longrightarrow>
      vmm_get_mapping d v (kernel_maps d s3) = Some (v - 0xC0000000) \<or> out_of_memory (kernel_maps d s3)"
    and "0xA00000 \<le> v \<Longrightarrow> \<not> (0xC0000000 \<le> v \<and> v < 0xC0A00000) \<Longrightarrow>
      vmm_get_mapping d v (kernel_maps d s3) = None"
proof -
  let ?fl = "VMM_PRESENT OR VMM_WRITABLE"
  let ?map = "\<lambda>off (addr :: u32) t. snd (vmm_map_page d addr (addr + off) ?fl t)"
  define s4 where "s4 = for_pages 0 0x400000 (?map 0) s3"
  define s5 where "s5 = for_pages 0x100000 0xA00000 (?map 0) s4"
  define s6 where "s6 = for_pages 0 0xA00000 (?map 0xC0000000) s5"
  have t: "kernel_maps d s3 = s6"
    by (simp add: kernel_maps_def vmm_identity_map_def s4_def s5_def s6_def Let_def)
  have present: "entry_present ?fl" by (simp add: entry_present_def VMM_PRESENT_def VMM_WRITABLE_def)
  have al: "page_aligned 0" "page_aligned 0x400000" "page_aligned 0x100000" "page_aligned 0xA00000"
      "page_aligned 0xC0000000"
    by (simp_all add: page_aligned_def)
  note m4 = map_range [OF wf3 present al(1,2,1), folded s4_def]
  note m5 = map_range [OF m4(1) present al(3,4,1), folded s5_def]
  note m6 = map_range [OF m5(1) present al(1,4,5), folded s6_def]
  note split_words = word_less_nat_alt word_le_nat_alt
  have l4: "if v < 0x400000 then vmm_get_mapping d v s4 = Some v \<or> out_of_memory s4
      else vmm_get_mapping d v s4 = None" for v
    using range_mapped_lookup [OF wf3 m4(1) al(1,2,1) m4(3), of v, unfolded diff_zero] none [of v] by auto
  have l5: "if v < 0xA00000 then vmm_get_mapping d v s5 = Some v \<or> out_of_memory s5
      else vmm_get_mapping d v s5 = None" for v
    using range_mapped_lookup [OF m4(1) m5(1) al(3,4,1) m5(3), of v, unfolded diff_zero] l4 [of v] m5(4)
    unfolding split_words by (auto split: if_splits)
  have l6: "if 0xC0000000 \<le> v \<and> v < 0xC0A00000
      then vmm_get_mapping d v s6 = Some (v - 0xC0000000) \<or> out_of_memory s6
      else vmm_get_mapping d v s6 = vmm_get_mapping d v s5" for v
    using range_mapped_lookup [OF m5(1) m6(1) al(1,4,5) m6(3), of v]
    unfolding high_range by (auto split: if_splits)
  show "wf_dir d (kernel_maps d s3)" "kernel_directory (kernel_maps d s3) = kernel_directory s3"
    unfolding t using m6(1) by (simp_all add: s4_def s5_def s6_def)
  show "v < 0xA00000 \<Longrightarrow> vmm_get_mapping d v (kernel_maps d s3) = Some v \<or> out_of_memory (kernel_maps d s3)"
    unfolding t using l6 [of v] l5 [of v] m6(4)
    unfolding split_words by (auto split: if_splits)
  show "0xC0000000 \<le> v \<Longrightarrow> v < 0xC0A00000 \<Longrightarrow>
      vmm_get_mapping d v (kernel_maps d s3) = Some (v - 0xC0000000) \<or> out_of_memory (kernel_maps d s3)"
    unfolding t using l6 [of v] by simp
  show "0xA00000 \<le> v \<Longrightarrow> \<not> (0xC0000000 \<le> v \<and> v < 0xC0A00000) \<Longrightarrow>
      vmm_get_mapping d v (kernel_maps d s3) = None"
    unfolding t using l6 [of v] l5 [of v] by (auto simp flip: not_less)
qed

subsection \<open>Properties\<close>

text \<open>Identity mapping maps every page of the range to itself or runs out of memory.
  With the present flag, after \<open>vmm_identity_map\<close> of a range every address in it (start
  rounded down, end rounded up) maps to itself, unless no block is free any more, in which
  case it may have kept its previous mapping (the failure is not reported); addresses outside
  the range keep theirs.\<close>

theorem vmm_identity_map_range:
  fixes s :: "'a vmm_scheme" and start stop :: u32
  assumes "wf_dir d s" and "entry_present flags"
  defines "t \<equiv> vmm_identity_map d start stop flags s"
  shows "wf_dir d t
    \<and> (if page_base start \<le> v \<and> v < page_base (stop + 0xFFF)
       then vmm_get_mapping d v t = Some v
            \<or> out_of_memory t \<and> vmm_get_mapping d v t = vmm_get_mapping d v s
       else vmm_get_mapping d v t = vmm_get_mapping d v s)"
proof -
  note al = page_aligned_base [of start] page_aligned_base [of "stop + 0xFFF"]
  have off: "page_aligned 0" by (simp add: page_aligned_def)
  have t: "t = for_pages (page_base start) (page_base (stop + 0xFFF))
      (\<lambda>addr t. snd (vmm_map_page d addr (addr + 0) flags t)) s"
    by (simp add: t_def vmm_identity_map_def page_base_def)
  note m = map_range [OF assms(1,2) al off, folded t]
  show ?thesis
    using m(1) range_mapped_lookup [OF assms(1) m(1) al off m(3), of v, unfolded diff_zero] by simp
qed

theorem vmm_identity_map_range_witness:
  "let t = vmm_identity_map 0x4000 0x3000 0x4800 3 sample_vmm in
   wf_dir 0x4000 t \<and> vmm_get_mapping 0x4000 0x5000 t = vmm_get_mapping 0x4000 0x5000 sample_vmm
   \<and> (vmm_get_mapping 0x4000 0x4800 t = Some 0x4800
      \<or> out_of_memory t \<and> vmm_get_mapping 0x4000 0x4800 t = vmm_get_mapping 0x4000 0x4800 sample_vmm)"
  using vmm_identity_map_range [OF sample_vmm_wf, of 3 "0x3000" "0x4800" "0x5000"]
    vmm_identity_map_range [OF sample_vmm_wf, of 3 "0x3000" "0x4800" "0x4800"]
  by (simp add: Let_def entry_present_def VMM_PRESENT_def page_base_def)

text \<open>C33: \<open>vmm_init\<close> builds the kernel's address space.  From a consistent allocator it either
  finds no block for the directory and leaves \<open>kernel_directory\<close> null, or it installs a
  well-formed directory as kernel and current directory and in \<open>cr3\<close>; the first 10 MiB map
  to themselves and the 10 MiB from 3 GiB up to the same physical memory (unless the allocator
  ran dry), and nothing else is mapped.\<close>

theorem vmm_init_builds_kernel_space:
  assumes "pmm_inv s" and "kernel_directory s = 0"
  shows "let t = vmm_init s; k = kernel_directory t in
    (k = 0 \<and> out_of_memory t \<and> current_directory t = current_directory s)
    \<or> (k \<noteq> 0 \<and> wf_dir k t \<and> current_directory t = k \<and> cr3 t = k
       \<and> (\<forall>v. (v < 0xA00000 \<longrightarrow> vmm_get_mapping k v t = Some v \<or> out_of_memory t)
          \<and> (0xC0000000 \<le> v \<and> v < 0xC0A00000
               \<longrightarrow> vmm_get_mapping k v t = Some (v - 0xC0000000) \<or> out_of_memory t)
          \<and> (0xA00000 \<le> v \<and> \<not> (0xC0000000 \<le> v \<and> v < 0xC0A00000)
               \<longrightarrow> vmm_get_mapping k v t = None)))"
proof -
  let ?s1 = "isr_register_handler 14 Page_fault s"
  have s1: "mem ?s1 = mem s" "pmm_memory_map ?s1 = pmm_memory_map s" "mem_blocks ?s1 = mem_blocks s"
      "mem_used_blocks ?s1 = mem_used_blocks s"
    by (simp_all add: isr_register_handler_def)
  have inv: "pmm_inv ?s1" using vmm_state_cong(1) [OF s1] assms(1) by simp
  from inv show ?thesis
  proof (cases rule: create_directory_cases)
    case null
    then have "vmm_init s = kprint (Puts (''VMM: Failed to create kernel page directory'' @ newline))
        (?s1\<lparr>kernel_directory := 0\<rparr>)"
      by (simp add: vmm_init_def)
    then show ?thesis
      using null(2) by (simp add: kprint_def out_of_memory_def isr_register_handler_def
          pmm_test_block_def bm_addr_def rd32_def)
  next
    case (created d s2)
    define s3 where "s3 = s2\<lparr>kernel_directory := d\<rparr>"
    let ?k = "kernel_maps d s3"
    let ?t = "vmm_init s"
    have chain: "?t = kprint (Puts (''VMM: Initialized virtual memory manager'' @ newline))
        (vmm_switch_page_directory d ?k)"
      using created(1,2) by (simp add: vmm_init_def s3_def kernel_maps_def Let_def)
    have fields: "mem ?t = mem ?k" "pmm_memory_map ?t = pmm_memory_map ?k" "mem_blocks ?t = mem_blocks ?k"
        "mem_used_blocks ?t = mem_used_blocks ?k" "current_directory ?t = d" "cr3 ?t = d"
        "kernel_directory ?t = kernel_directory ?k"
      unfolding chain using created(2) by (simp_all add: kprint_def vmm_switch_page_directory_def)
    have wf3: "wf_dir d s3" and none: "vmm_get_mapping d v s3 = None" for v
      using vmm_state_cong(4,6) [of s3 s2 d] created(3,4) get_mapping_walk [OF created(3)]
      by (simp_all add: s3_def)
    note k = kernel_maps_effect [OF wf3 none]
    have kd: "kernel_directory ?k = d" using k(2) by (simp add: s3_def)
    show ?thesis
      unfolding Let_def fields(5-7) kd vmm_state_cong [OF fields(1-4)]
      using created(2) k(1,3,4,5) by blast
  qed
qed

theorem vmm_init_builds_kernel_space_witness:
  "let s = sample_vmm\<lparr>kernel_directory := 0\<rparr>; t = vmm_init s in
   kernel_directory t = 0 \<and> out_of_memory t \<or>
   wf_dir (kernel_directory t) t \<and> cr3 t = kernel_directory t"
proof -
  have "pmm_inv (sample_vmm\<lparr>kernel_directory := 0\<rparr>)"
    using vmm_state_cong(1) [of "sample_vmm\<lparr>kernel_directory := 0\<rparr>" sample_vmm] sample_vmm_pmm
    by simp
  then show ?thesis
    using vmm_init_builds_kernel_space [of "sample_vmm\<lparr>kernel_directory := 0\<rparr>"]
    by (simp add: Let_def) blast
qed

end
