(* ===== verification/Vmm_Clone.thy ===== *)
theory Vmm_Clone
  imports Vmm_Build
begin

text \<open>
  Cloning an address space (\<open>vmm_clone_directory\<close>).  The two nested loops walk the source
  in the order of the virtual addresses; one invariant, indexed by the position in that
  order, serves both: the pages passed are cloned, those ahead are not mapped yet, and
  nothing the caller owned has changed.
\<close>

subsection \<open>What a clone is\<close>

definition words_kept :: "'a vmm_scheme \<Rightarrow> 'a vmm_scheme \<Rightarrow> bool" where
  "words_kept s t \<longleftrightarrow>
     owned_pages s \<subseteq> owned_pages t \<and> cr3 t = cr3 s
     \<and> (\<forall>q \<in> owned_pages s. \<forall>k < 1024. rd32 (slot q k) t = rd32 (slot q k) s)"

text \<open>What the copy loop needs of the processor: a load through the active mapping depends on
  \<open>cr3\<close> and on pages in use only.\<close>

definition mmu_local :: "(u32 \<Rightarrow> 'a vmm_scheme \<Rightarrow> u32) \<Rightarrow> 'a vmm_scheme \<Rightarrow> bool" where
  "mmu_local mmu s \<longleftrightarrow> (\<forall>v t. words_kept s t \<longrightarrow> mmu v t = mmu v s)"

text \<open>Virtual page \<open>v\<close> of \<open>src\<close> in state \<open>s\<close>, cloned into \<open>d\<close> in state \<open>t\<close>: a writable user
  page has a frame of its own with the words read through the MMU and the flags of the
  source, any other page the entry of the source.\<close>

definition cloned ::
  "(u32 \<Rightarrow> 'a vmm_scheme \<Rightarrow> u32) \<Rightarrow> u32 \<Rightarrow> u32 \<Rightarrow> 'a vmm_scheme \<Rightarrow> 'a vmm_scheme \<Rightarrow> u32 \<Rightarrow> bool"
where
  "cloned mmu src d s t v \<longleftrightarrow>
     (case walk src s v of
        None \<Rightarrow> walk d t v = None
      | Some e \<Rightarrow>
          if PAGE_DIR_INDEX v < 768 \<and> e AND VMM_WRITABLE \<noteq> 0
          then \<exists>p. walk d t v = Some (p OR (e AND 0xFFF))
                 \<and> p \<in> owned_pages t - owned_pages s \<and> p \<notin> dir_pages d t
                 \<and> (\<forall>k < 1024. rd32 (slot p k) t = mmu (page_base v + 4 * k) s)
          else walk d t v = Some e)"

definition passed :: "u32 \<Rightarrow> u32 \<Rightarrow> u32 \<Rightarrow> bool" where
  "passed i j v \<longleftrightarrow> PAGE_DIR_INDEX v < i \<or> PAGE_DIR_INDEX v = i \<and> PAGE_TABLE_INDEX v < j"

subsection \<open>The loop invariant\<close>

definition clone_base :: "u32 \<Rightarrow> u32 \<Rightarrow> 'a vmm_scheme \<Rightarrow> u32 \<Rightarrow> 'a vmm_scheme \<Rightarrow> bool" where
  "clone_base src d s n t \<longleftrightarrow>
     wf_dir d t \<and> d \<notin> owned_pages s \<and> words_kept s t
     \<and> (\<forall>k. has_table d k t \<longrightarrow> k < n
          \<and> has_table src k s
          \<and> (if k < 768 then table_at d k t \<notin> owned_pages s else table_at d k t = table_at src k s))"

definition clone_inv ::
  "(u32 \<Rightarrow> 'a vmm_scheme \<Rightarrow> u32) \<Rightarrow> u32 \<Rightarrow> u32 \<Rightarrow> 'a vmm_scheme \<Rightarrow> u32 \<Rightarrow> u32 \<Rightarrow> u32
    \<Rightarrow> 'a vmm_scheme \<Rightarrow> bool"
where
  "clone_inv mmu src d s n i j t \<longleftrightarrow>
     clone_base src d s n t
     \<and> (\<forall>v. if passed i j v then cloned mmu src d s t v else walk d t v = None)"

lemma words_kept_trans:
  assumes "words_kept s t" "owned_pages t \<subseteq> owned_pages u" "cr3 u = cr3 t"
    and "\<And>q k. q \<in> owned_pages s \<Longrightarrow> k < 1024 \<Longrightarrow> rd32 (slot q k) u = rd32 (slot q k) t"
  shows "words_kept s u"
  using assms unfolding words_kept_def by auto

text \<open>A step of the clone: it writes only pages of the new directory the caller does not own
  and may give it new tables.\<close>

definition clone_step :: "u32 \<Rightarrow> u32 \<Rightarrow> 'a vmm_scheme \<Rightarrow> u32 set \<Rightarrow> 'a vmm_scheme \<Rightarrow> 'a vmm_scheme \<Rightarrow> bool" where
  "clone_step src d s W t u \<longleftrightarrow>
     wf_dir d u \<and> owned_pages t \<subseteq> owned_pages u \<and> cr3 u = cr3 t
     \<and> W \<subseteq> dir_pages d t \<and> W \<inter> owned_pages s = {}
     \<and> (\<forall>q \<in> owned_pages t - W. \<forall>k < 1024. rd32 (slot q k) u = rd32 (slot q k) t)
     \<and> dir_pages d u \<subseteq> dir_pages d t \<union> - owned_pages t \<union> owned_pages s"

lemma clone_step_base:
  assumes base: "clone_base src d s n t" and st: "clone_step src d s W t u"
    and tabs: "\<And>k. has_table d k u \<Longrightarrow> has_table d k t \<and> table_at d k u = table_at d k t
      \<or> k < m \<and> has_table src k s
         \<and> (if k < 768 then table_at d k u \<notin> owned_pages s else table_at d k u = table_at src k s)"
    and m: "n \<le> m"
  shows "clone_base src d s m u"
proof -
  have kept: "words_kept s t" using base by (simp add: clone_base_def)
  then have "owned_pages s \<subseteq> owned_pages t" by (simp add: words_kept_def)
  then have "q \<in> owned_pages t - W" if "q \<in> owned_pages s" for q
    using st that by (auto simp: clone_step_def)
  then have "words_kept s u"
    using st by (intro words_kept_trans [OF kept]) (auto simp: clone_step_def)
  moreover have "k < m \<and> has_table src k s
      \<and> (if k < 768 then table_at d k u \<notin> owned_pages s else table_at d k u = table_at src k s)"
    if "has_table d k u" for k
    using tabs [OF that] base m by (auto simp: clone_base_def)
  ultimately show ?thesis
    using base st by (simp add: clone_base_def clone_step_def)
qed

lemma clone_step_cloned:
  assumes st: "clone_step src d s W t u" and "cloned mmu src d s t v" and "walk d u v = walk d t v"
  shows "cloned mmu src d s u v"
proof (cases "walk src s v")
  case None
  then show ?thesis using assms by (simp add: cloned_def)
next
  case (Some e)
  show ?thesis
  proof (cases "PAGE_DIR_INDEX v < 768 \<and> e AND VMM_WRITABLE \<noteq> 0")
    case True
    then obtain p where p: "walk d t v = Some (p OR (e AND 0xFFF))"
        "p \<in> owned_pages t - owned_pages s" "p \<notin> dir_pages d t"
        "\<forall>k < 1024. rd32 (slot p k) t = mmu (page_base v + 4 * k) s"
      using assms(2) Some by (auto simp: cloned_def)
    have "p \<in> owned_pages t - W" "p \<in> owned_pages u - owned_pages s" "p \<notin> dir_pages d u"
      using st p by (auto simp: clone_step_def)
    then show ?thesis
      using st p assms(3) Some True unfolding cloned_def clone_step_def by auto
  next
    case False
    then show ?thesis
      using assms(2,3) Some unfolding cloned_def by (simp only: option.case if_not_P if_False)
  qed
qed

lemma clone_baseD:
  assumes "clone_base src d s n t"
  shows "wf_dir d t" "pmm_inv t" "d \<in> owned_pages t" "d \<notin> owned_pages s" "owned_pages s \<subseteq> owned_pages t"
    and "q \<in> owned_pages s \<Longrightarrow> k < 1024 \<Longrightarrow> rd32 (slot q k) t = rd32 (slot q k) s"
    and "has_table d k t \<Longrightarrow> k < n"
    and "has_table d k t \<Longrightarrow> k < 768 \<Longrightarrow> table_at d k t \<notin> owned_pages s"
    and "has_table d k t \<Longrightarrow> 768 \<le> k \<Longrightarrow> has_table src k s \<and> table_at d k t = table_at src k s"
    and "has_table d k t \<Longrightarrow> has_table src k s"
  using assms wf_dirD(1,2) [of d t] by (auto simp: clone_base_def words_kept_def split: if_splits)

subsection \<open>The steps\<close>

lemma same_dir_words:
  assumes "\<And>k. k < 1024 \<Longrightarrow> rd32 (slot d k) u = rd32 (slot d k) t"
  shows "has_table d k u = has_table d k t"
    and "has_table d k t \<Longrightarrow> table_at d k u = table_at d k t"
    and "dir_pages d u = dir_pages d t"
proof -
  show h: "has_table d k u = has_table d k t" for k
    using assms by (auto simp: has_table_def)
  show a: "has_table d k t \<Longrightarrow> table_at d k u = table_at d k t" for k
    using assms by (simp add: has_table_def table_at_def)
  show "dir_pages d u = dir_pages d t" unfolding dir_pages_def h using a by metis
qed

lemma cr3_frame [simp]:
  fixes s :: "'a vmm_scheme"
  shows "cr3 (wr32 a v s) = cr3 s" "cr3 (memset0 p n s) = cr3 s" "cr3 (copy_page p f s) = cr3 s"
    "cr3 (pmm_set_block b s) = cr3 s"
  by (simp_all add: wr32_def memset0_def copy_page_def memcpy_from_def pmm_set_block_def)

lemma cr3_alloc: "pmm_alloc_block s = (p, t) \<Longrightarrow> cr3 t = cr3 (s :: 'a vmm_scheme)"
  by (auto simp: pmm_alloc_block_def Let_def split: if_splits)

text \<open>Storing an entry in a table of the new directory.\<close>

lemma clone_store:
  fixes t :: "'a vmm_scheme"
  assumes base: "clone_base src d s n t" and i: "has_table d i t" "i < 768" and j: "j < 1024"
  shows "clone_step src d s {table_at d i t} t (wr32 (slot (table_at d i t) j) e t)"
    and "clone_base src d s n (wr32 (slot (table_at d i t) j) e t)"
    and "has_table d k (wr32 (slot (table_at d i t) j) e t) = has_table d k t"
    and "has_table d k t \<Longrightarrow> table_at d k (wr32 (slot (table_at d i t) j) e t) = table_at d k t"
    and "dir_pages d (wr32 (slot (table_at d i t) j) e t) = dir_pages d t"
proof -
  note b = clone_baseD [OF base]
  let ?T = "table_at d i t" and ?u = "wr32 (slot (table_at d i t) j) e t"
  have T: "?T \<in> owned_pages t" "?T \<noteq> d" by (rule wf_dirD(5,6) [OF b(1) i(1)])+
  note put = pg.put_page [OF b(2) T(1) j, of e]
  have word: "rd32 (slot q k) ?u = rd32 (slot q k) t"
    if "q \<in> owned_pages t" "q \<noteq> ?T" "k < 1024" for q k
    using pg.put_page_word [OF b(2) T(1) that(1) j that(3)] that(2) by simp
  have dir: "rd32 (slot d k) ?u = rd32 (slot d k) t" if "k < 1024" for k
    using word [OF b(3) _ that] T(2) by auto
  note same = same_dir_words [where d = d and u = ?u and t = t, OF dir]
  show "has_table d k ?u = has_table d k t" "has_table d k t \<Longrightarrow> table_at d k ?u = table_at d k t"
    "dir_pages d ?u = dir_pages d t"
    by (rule same; assumption)+
  show st: "clone_step src d s {?T} t ?u"
    using put_pte(1) [OF b(1) i(1) j, of e] put word table_in_dir_pages [OF i(1)] b(8) [OF i] same(3)
    by (auto simp: clone_step_def)
  show "clone_base src d s n ?u"
    using same by (intro clone_step_base [OF base st]) auto
qed

text \<open>Allocating a frame and filling it.\<close>

lemma clone_frame:
  fixes t :: "'a vmm_scheme"
  assumes base: "clone_base src d s n t" and p: "pmm_alloc_block t = (p, t1)" "p \<noteq> 0"
    and u: "u = copy_page p f t1"
  shows "clone_step src d s {} t u" and "clone_base src d s n u"
    and "walk d u = walk d t"
    and "p \<in> owned_pages u" "p \<notin> owned_pages t" "page_aligned p"
    and "k < 1024 \<Longrightarrow> rd32 (slot p k) u = f (4 * k)"
    and "has_table d k u = has_table d k t"
    and "has_table d k t \<Longrightarrow> table_at d k u = table_at d k t"
    and "dir_pages d u = dir_pages d t"
    and "words_kept s t1"
proof -
  note b = clone_baseD [OF base]
  note a = pmm.alloc_page [OF b(2) p] pmm.alloc_inv [OF b(2) p(1)]
  have m: "p \<in> managed_pages t1" using a pmm.owned_managed by blast
  have own: "owned_pages u = insert p (owned_pages t)" "pmm_inv u"
    using pg.copy_owned [OF _ m] pg.copy_inv [OF _ m] a by (auto simp: u)
  show "p \<in> owned_pages u" "p \<notin> owned_pages t" "page_aligned p" using own a by auto
  show "rd32 (slot p k) u = f (4 * k)" if "k < 1024"
    using pg.copy_word [of p p k f t1] a that by (simp add: u)
  have word: "rd32 (slot q k) u = rd32 (slot q k) t" if "q \<in> owned_pages t" "k < 1024" for q k
    using pg.copy_word [of p q k f t1] a that pg.owned_aligned [OF b(2) that(1)]
      pmm.alloc_word_owned [OF b(2) p(1) that] by (auto simp: u)
  have dirp: "dir_pages d t \<subseteq> owned_pages t" by (rule dir_pages_owned [OF b(1)])
  show "words_kept s t1"
  proof (rule words_kept_trans)
    show "words_kept s t" using base by (simp add: clone_base_def)
    show "owned_pages t \<subseteq> owned_pages t1" by (rule pmm.alloc_owned_mono [OF b(2) p(1)])
    show "cr3 t1 = cr3 t" by (rule cr3_alloc [OF p(1)])
    show "rd32 (slot q k) t1 = rd32 (slot q k) t" if "q \<in> owned_pages s" "k < 1024" for q k
      using that b(5) by (intro pmm.alloc_word_owned [OF b(2) p(1)]) auto
  qed
  have sub: "owned_pages t \<subseteq> owned_pages u" using own by blast
  have fd: "wf_dir d u" "walk d u = walk d t" "dir_pages d u = dir_pages d t"
    using foreign_dir [OF b(1) own(2) sub] word dirp by blast+
  then show "walk d u = walk d t" "dir_pages d u = dir_pages d t" by blast+
  note same = same_dir_words [where d = d and u = u and t = t, OF word [OF b(3)]]
  show "has_table d k u = has_table d k t" "has_table d k t \<Longrightarrow> table_at d k u = table_at d k t"
    by (rule same; assumption)+
  show st: "clone_step src d s {} t u"
    using fd sub word cr3_alloc [OF p(1)] by (auto simp: clone_step_def u)
  show "clone_base src d s n u"
    using same by (intro clone_step_base [OF base st]) auto
qed

lemma no_table_at_bound: "clone_base src d s i t \<Longrightarrow> \<not> has_table d i t"
  using clone_baseD(7) [of src d s i t i] by auto

text \<open>A fresh table of its own for a user index.\<close>

lemma clone_table:
  fixes t :: "'a vmm_scheme"
  assumes base: "clone_base src d s i t" and i: "i < 768" and tab: "has_table src i s"
    and p: "pmm_alloc_block t = (p, t1)" "p \<noteq> 0"
  shows "clone_step src d s {d} t (add_table d i p t1)"
    and "clone_base src d s (i + 1) (add_table d i p t1)"
    and "walk d (add_table d i p t1) = walk d t"
    and "has_table d i (add_table d i p t1)" "table_at d i (add_table d i p t1) = p"
proof -
  note b = clone_baseD [OF base]
  let ?u = "add_table d i p t1"
  have i': "i < 1024" by (rule order.strict_trans [OF i]) simp
  note none = no_table_at_bound [OF base]
  note pages = add_table_pages [OF b(1) i' none p] and word = add_table_word [OF b(1) i' none p]
  note wf = add_table_wf [OF b(1) i' none p]
  show "walk d ?u = walk d t" "has_table d i ?u" "table_at d i ?u = p" by (rule wf)+
  have other: "has_table d k ?u \<longleftrightarrow> has_table d k t" "table_at d k ?u = table_at d k t"
    if "k < 1024" "k \<noteq> i" for k
  proof -
    have "rd32 (slot d k) ?u = rd32 (slot d k) t"
      using word [of d k] that b(3) pages(3) by auto
    then show "has_table d k ?u \<longleftrightarrow> has_table d k t" "table_at d k ?u = table_at d k t"
      by (simp_all add: has_table_def table_at_def)
  qed
  have dirs: "dir_pages d ?u \<subseteq> insert p (dir_pages d t)"
  proof
    fix q
    assume "q \<in> dir_pages d ?u"
    then consider "q = d" | k where "q = table_at d k ?u" "has_table d k ?u" by (auto simp: dir_pages_def)
    then show "q \<in> insert p (dir_pages d t)"
    proof cases
      case (2 k)
      then show ?thesis
        using wf(3) other [of k] table_in_dir_pages [of d k t] has_tableE [of d k ?u]
        by (cases "k = i") auto
    qed (simp add: dir_pages_def)
  qed
  have words: "rd32 (slot q k) ?u = rd32 (slot q k) t"
    if "q \<in> owned_pages t - {d}" "k < 1024" for q k
    using word [of q k] that pages(3) by auto
  have "cr3 ?u = cr3 t" using cr3_alloc [OF p(1)] by (simp add: add_table_def)
  then show st: "clone_step src d s {d} t ?u"
    using wf(1) pages words dirs b(4) by (auto simp: clone_step_def dir_pages_def)
  show "clone_base src d s (i + 1) ?u"
  proof (rule clone_step_base [OF base st])
    fix k
    assume k: "has_table d k ?u"
    show "has_table d k t \<and> table_at d k ?u = table_at d k t
        \<or> k < i + 1 \<and> has_table src k s
           \<and> (if k < 768 then table_at d k ?u \<notin> owned_pages s else table_at d k ?u = table_at src k s)"
    proof (cases "k = i")
      case True
      have "p \<notin> owned_pages s" using pages(3) b(5) by blast
      then show ?thesis using True wf(3) i tab word_less_Suc_iff [OF i', of i] by simp
    next
      case False
      then show ?thesis using other [OF has_tableE [OF k]] k by blast
    qed
  qed (use word_less_Suc_iff [OF i', of i] in simp)
qed

text \<open>Sharing a kernel table with the source.\<close>

lemma clone_share:
  fixes t :: "'a vmm_scheme"
  assumes src: "wf_dir src s" and base: "clone_base src d s i t" and i: "768 \<le> i" "has_table src i s"
  defines "u \<equiv> wr32 (slot d i) (rd32 (slot src i) t) t"
  shows "clone_step src d s {d} t u" and "clone_base src d s (i + 1) u"
    and "walk d u v = (if PAGE_DIR_INDEX v = i then walk src s v else walk d t v)"
proof -
  note b = clone_baseD [OF base]
  let ?Q = "table_at src i s"
  have i': "i < 1024" by (rule has_tableE [OF i(2)])
  note none = no_table_at_bound [OF base]
  have entry: "rd32 (slot src i) t = rd32 (slot src i) s"
    using b(6) [of src i] wf_dirD(2) [OF src] i' by blast
  have Q: "?Q \<in> owned_pages s" by (rule wf_dirD(5) [OF src i(2)])
  note put = pg.put_page [OF b(2,3) i', of "rd32 (slot src i) t", folded u_def]
  have word: "rd32 (slot q k) u = (if q = d \<and> k = i then rd32 (slot src i) s else rd32 (slot q k) t)"
    if "q \<in> owned_pages t" "k < 1024" for q k
    unfolding u_def using pg.put_page_word [OF b(2,3) that(1) i' that(2)] entry by simp
  have dir: "rd32 (slot d k) u = (if k = i then rd32 (slot src i) s else rd32 (slot d k) t)"
    if "k < 1024" for k
    using word [OF b(3) that] by simp
  have at_i: "has_table d i u" "table_at d i u = ?Q"
    using dir [OF i'] i(2) by (simp_all add: has_table_def table_at_def)
  have other: "has_table d k u \<longleftrightarrow> has_table d k t" "table_at d k u = table_at d k t"
    if "k < 1024" "k \<noteq> i" for k
    using dir [OF that(1)] that(2) by (simp_all add: has_table_def table_at_def)
  have tabs: "k = i \<and> table_at d k u = ?Q \<or> has_table d k t \<and> table_at d k u = table_at d k t"
    if "has_table d k u" for k
    using at_i other [OF has_tableE [OF that]] that by (cases "k = i") simp_all
  have fresh: "table_at d k t \<noteq> ?Q" if "has_table d k t" for k
  proof (cases "k < 768")
    case True
    then show ?thesis using b(8) [OF that] Q by auto
  next
    case False
    then show ?thesis
      using b(9) [OF that] wf_dirD(8) [OF src _ i(2)] none that by (metis not_less)
  qed
  have Qd: "?Q \<noteq> d" "?Q \<in> owned_pages t" using Q b(4,5) by auto
  show w: "walk d u v = (if PAGE_DIR_INDEX v = i then walk src s v else walk d t v)" for v
  proof (cases "PAGE_DIR_INDEX v = i")
    case True
    have "rd32 (slot ?Q (PAGE_TABLE_INDEX v)) u = rd32 (slot ?Q (PAGE_TABLE_INDEX v)) s"
      using word [OF Qd(2) index_less(2)] Qd(1) b(6) [OF Q index_less(2)] by simp
    then show ?thesis using True at_i i(2) by (simp add: walk_def)
  next
    case False
    then show ?thesis
      using other [OF index_less(1) False] word [OF wf_dirD(5) [OF b(1)] index_less(2)]
        wf_dirD(6) [OF b(1)] by (simp add: walk_def)
  qed
  have wf: "wf_dir d u"
    unfolding wf_dir_def
  proof (intro conjI allI impI)
    show "pmm_inv u" "d \<in> owned_pages u" using put b(3) by auto
    fix k
    assume k: "has_table d k u"
    show "table_at d k u \<in> owned_pages u" "table_at d k u \<noteq> d"
      using put(2) at_i Qd other [OF has_tableE [OF k]] k wf_dirD(5,6) [OF b(1)]
      by (cases "k = i"; simp)+
  next
    fix k l
    assume kl: "has_table d k u \<and> has_table d l u \<and> table_at d k u = table_at d l u"
    then consider "k = i" "l = i" | "k = i" "has_table d l t" "table_at d l t = ?Q"
      | "l = i" "has_table d k t" "table_at d k t = ?Q"
      | "has_table d k t" "has_table d l t" "table_at d k t = table_at d l t"
      using tabs [of k] tabs [of l] by metis
    then show "k = l"
      using fresh wf_dirD(8) [OF b(1), of k l] by cases blast+
  qed
  have dirs: "dir_pages d u \<subseteq> insert ?Q (dir_pages d t)"
  proof
    fix q
    assume "q \<in> dir_pages d u"
    then consider "q = d" | k where "q = table_at d k u" "has_table d k u" by (auto simp: dir_pages_def)
    then show "q \<in> insert ?Q (dir_pages d t)"
    proof cases
      case (2 k)
      then show ?thesis
        using at_i other [OF has_tableE [OF 2(2)]] table_in_dir_pages [of d k t]
        by (cases "k = i") auto
    qed (simp add: dir_pages_def)
  qed
  have "cr3 u = cr3 t" by (simp add: u_def)
  then show st: "clone_step src d s {d} t u"
    using wf put word dirs b(4) Q by (auto simp: clone_step_def dir_pages_def)
  show "clone_base src d s (i + 1) u"
  proof (rule clone_step_base [OF base st])
    fix k
    assume k: "has_table d k u"
    show "has_table d k t \<and> table_at d k u = table_at d k t
        \<or> k < i + 1 \<and> has_table src k s
           \<and> (if k < 768 then table_at d k u \<notin> owned_pages s else table_at d k u = table_at src k s)"
      using i at_i other [OF has_tableE [OF k]] k word_less_Suc_iff [OF i', of k]
      by (cases "k = i") auto
  qed (use word_less_Suc_iff [OF i', of i] in simp)
qed

subsection \<open>One table entry\<close>

lemma alloc_null_full: "pmm_inv s \<Longrightarrow> pmm_alloc_block s = (0, t) \<Longrightarrow> t = s \<and> out_of_memory s"
proof -
  assume inv: "pmm_inv s" and al: "pmm_alloc_block s = (0, t)"
  from inv show ?thesis
  proof (cases rule: pmm_alloc_block_cases)
    case full
    then show ?thesis using al by (simp add: out_of_memory_def used_set_def)
  next
    case (block b)
    then have "b * 4096 \<noteq> 0" using block_addr_div [of s b] inv by (auto simp: pmm_inv_def)
    then show ?thesis using block(5) al by simp
  qed
qed

lemma index_pack: "push_bit 22 (PAGE_DIR_INDEX v) OR push_bit 12 (PAGE_TABLE_INDEX v) = page_base v"
proof (rule bit_word_eqI)
  fix n
  assume "n < LENGTH(32)"
  then consider "n < 12" | "12 \<le> n" "n < 22" | "22 \<le> n" "n < 32" by fastforce
  then show "bit (push_bit 22 (PAGE_DIR_INDEX v) OR push_bit 12 (PAGE_TABLE_INDEX v)) n
      = bit (page_base v) n"
    by cases (auto simp: bit_page_base PAGE_DIR_INDEX_def PAGE_TABLE_INDEX_def page_masks bit_simps)
qed

lemma passed_next:
  assumes "j < 1024"
  shows "passed i (j + 1) v \<longleftrightarrow> passed i j v \<or> PAGE_DIR_INDEX v = i \<and> PAGE_TABLE_INDEX v = j"
  using word_less_Suc_iff [OF assms] by (auto simp: passed_def)

lemma clone_inv_next:
  assumes inv: "clone_inv mmu src d s n i j t" and j: "j < 1024"
    and st: "clone_step src d s W t u" and base: "clone_base src d s m u"
    and rest: "\<And>v. \<not> (PAGE_DIR_INDEX v = i \<and> PAGE_TABLE_INDEX v = j) \<Longrightarrow> walk d u v = walk d t v"
    and this_: "\<And>v. PAGE_DIR_INDEX v = i \<Longrightarrow> PAGE_TABLE_INDEX v = j \<Longrightarrow> cloned mmu src d s u v"
  shows "clone_inv mmu src d s m i (j + 1) u"
proof -
  have "if passed i (j + 1) v then cloned mmu src d s u v else walk d u v = None" for v
  proof (cases "PAGE_DIR_INDEX v = i \<and> PAGE_TABLE_INDEX v = j")
    case True
    then show ?thesis using this_ passed_next [OF j] by auto
  next
    case False
    have "if passed i j v then cloned mmu src d s t v else walk d t v = None"
      using inv by (simp add: clone_inv_def)
    then show ?thesis
      using False passed_next [OF j, of i v] rest [OF False] clone_step_cloned [OF st _ rest [OF False]]
      by (auto split: if_splits)
  qed
  then show ?thesis using base by (simp add: clone_inv_def)
qed

text \<open>The entry the loop is at, in the source.\<close>

lemma walk_at:
  assumes "has_table src i s" "PAGE_DIR_INDEX v = i" "PAGE_TABLE_INDEX v = j"
  shows "walk src s v = pte_option (rd32 (slot (table_at src i s) j) s)"
  using assms by (simp add: walk_def pte_option_def Let_def)

lemma clone_pte_step:
  fixes t :: "'a vmm_scheme"
  assumes src: "wf_dir src s" and mmu: "mmu_local mmu s"
    and inv: "clone_inv mmu src d s n i j t" and ij: "i < 768" "j < 1024"
    and tabs: "has_table src i s" "has_table d i t"
    and pte: "clone_pte mmu (table_at src i s) (table_at d i t) i j t = (ok, u)"
  shows "clone_base src d s n u \<and> has_table d i u \<and> table_at d i u = table_at d i t
    \<and> (if ok then clone_inv mmu src d s n i (j + 1) u else out_of_memory u)"
proof -
  have base: "clone_base src d s n t" using inv by (simp add: clone_inv_def)
  note b = clone_baseD [OF base]
  let ?S = "table_at src i s" and ?T = "table_at d i t"
  let ?e = "rd32 (slot ?S j) s"
  have e: "rd32 (slot ?S j) t = ?e" using b(6) [OF wf_dirD(5) [OF src tabs(1)] ij(2)] .
  note at = walk_at [OF tabs(1)]
  have ahead: "walk d t v = None" if "PAGE_DIR_INDEX v = i" "PAGE_TABLE_INDEX v = j" for v
    using inv that by (auto simp: clone_inv_def passed_def dest!: spec [of _ v])
  have at_pte: "entry_present (rd32 (slot ?S j) t) \<longleftrightarrow> entry_present ?e" using e by simp
  note pte' = pte [unfolded clone_pte_def Let_def e]
  consider (absent) "\<not> entry_present ?e" "ok" "u = t"
    | (shared) "entry_present ?e" "?e AND VMM_WRITABLE = 0" "ok" "u = wr32 (slot ?T j) ?e t"
    | (full) "\<not> ok" "u = t" "out_of_memory t"
    | (copied) p t1 c where "entry_present ?e" "?e AND VMM_WRITABLE \<noteq> 0" "ok"
        "pmm_alloc_block t = (p, t1)" "p \<noteq> 0"
        "c = copy_page p (\<lambda>off. mmu ((push_bit 22 i OR push_bit 12 j) + off) t1) t1"
        "u = wr32 (slot ?T j) (p OR (rd32 (slot ?S j) c AND 0xFFF)) c"
    using pte' alloc_null_full [OF b(2)] by (auto split: if_splits prod.splits)
  then show ?thesis
  proof cases
    case absent
    have "cloned mmu src d s t v" if "PAGE_DIR_INDEX v = i" "PAGE_TABLE_INDEX v = j" for v
      using at [OF that] ahead [OF that] absent(1) by (simp add: cloned_def pte_option_def)
    then have "clone_inv mmu src d s n i (j + 1) t"
      using b(1,4,5) base by (intro clone_inv_next [OF inv ij(2), of "{}" t])
        (auto simp: clone_step_def)
    then show ?thesis using absent base tabs by simp
  next
    case shared
    note st = clone_store [OF base tabs(2) ij(1,2), where e = ?e, folded shared(4)]
    note w = put_pte(2) [OF b(1) tabs(2) ij(2), of ?e, folded shared(4)]
    have "cloned mmu src d s u v" if "PAGE_DIR_INDEX v = i" "PAGE_TABLE_INDEX v = j" for v
      using at [OF that] w [of v] that shared(1,2) by (simp add: cloned_def pte_option_def)
    then have "clone_inv mmu src d s n i (j + 1) u"
      using w by (intro clone_inv_next [OF inv ij(2) st(1,2)]) auto
    then show ?thesis using st(2,3,4) tabs shared(3) by simp
  next
    case full
    then show ?thesis using base tabs by simp
  next
    case (copied p t1 c)
    note fr = clone_frame [OF base copied(4,5,6)]
    have tabs': "has_table d i c" "table_at d i c = ?T" using fr(8,9) tabs(2) by simp_all
    have e': "rd32 (slot ?S j) c = ?e"
      using clone_baseD(6) [OF fr(2) wf_dirD(5) [OF src tabs(1)] ij(2)] .
    have u: "u = wr32 (slot (table_at d i c) j) (p OR (?e AND 0xFFF)) c"
      using copied(7) e' tabs' by simp
    note st = clone_store [OF fr(2) tabs'(1) ij(1,2), where e = "p OR (?e AND 0xFFF)", folded u]
    note w = put_pte(2) [OF clone_baseD(1) [OF fr(2)] tabs'(1) ij(2), of "p OR (?e AND 0xFFF)", folded u]
    have inv_c: "clone_inv mmu src d s n i j c"
      using inv fr(2) clone_step_cloned [OF fr(1)] fr(3) by (simp add: clone_inv_def)
    have "cloned mmu src d s u v" if v: "PAGE_DIR_INDEX v = i" "PAGE_TABLE_INDEX v = j" for v
    proof -
      have pT: "p \<noteq> table_at d i c" using fr(5) wf_dirD(5) [OF b(1) tabs(2)] tabs'(2) by auto
      have "rd32 (slot p k) u = mmu (page_base v + 4 * k) s" if "k < 1024" for k
      proof -
        have "rd32 (slot p k) u = rd32 (slot p k) c"
          using st(1) fr(4) pT that by (simp add: clone_step_def)
        then show ?thesis
          using fr(7) [OF that] mmu fr(11) v index_pack [of v] by (simp add: mmu_local_def)
      qed
      moreover have "p \<in> owned_pages u - owned_pages s" "p \<notin> dir_pages d u"
        using st(1,5) fr(4,5,10) b(5) dir_pages_owned [OF b(1)] by (auto simp: clone_step_def)
      moreover have "walk d u v = Some (p OR (?e AND 0xFFF))"
        using w [of v] v entry_fields(2) [OF fr(6), of ?e] copied(1) by simp
      ultimately show ?thesis
        using at [OF v] copied(1,2) ij(1) v by (auto simp: cloned_def pte_option_def)
    qed
    then have "clone_inv mmu src d s n i (j + 1) u"
      using w by (intro clone_inv_next [OF inv_c ij(2) st(1,2)]) auto
    then show ?thesis using st(2,3,4) tabs' copied(3) by simp
  qed
qed

subsection \<open>The loops\<close>

lemma passed_row: "i < 1024 \<Longrightarrow> passed (i + 1) 0 v \<longleftrightarrow> passed i 1024 v"
  using word_less_Suc_iff [of i 1024] by (auto simp: passed_def)

lemma clone_table_loop:
  fixes t :: "'a vmm_scheme"
  assumes src: "wf_dir src s" and mmu: "mmu_local mmu s"
    and inv: "clone_inv mmu src d s n i 0 t" and i: "i < 768"
    and tabs: "has_table src i s" "has_table d i t"
    and loop: "for_lt 0 1024 (\<lambda>_ (ok, _). ok)
      (\<lambda>j (_, u). clone_pte mmu (table_at src i s) (table_at d i t) i j u) (True, t) = (ok, u)"
  shows "clone_base src d s n u" and "if ok then clone_inv mmu src d s n i 1024 u else out_of_memory u"
proof -
  let ?P = "\<lambda>j (ok, u). clone_base src d s n u \<and> has_table d i u \<and> table_at d i u = table_at d i t
    \<and> (if ok then clone_inv mmu src d s n i j u else out_of_memory u)"
  let ?body = "\<lambda>j (_, u). clone_pte mmu (table_at src i s) (table_at d i t) i j u"
  have step: "?P (j + 1) (?body j a)"
    if j: "j < 1024" and P: "case a of (ok, _) \<Rightarrow> ok" "?P j a" for j a
  proof -
    obtain ok1 v where a: "a = (ok1, v)" by fastforce
    obtain ok2 w where w: "clone_pte mmu (table_at src i s) (table_at d i t) i j v = (ok2, w)"
      by fastforce
    have v: "clone_inv mmu src d s n i j v" "has_table d i v" "table_at d i v = table_at d i t"
      using a P by simp_all
    show ?thesis
      using clone_pte_step [OF src mmu v(1) i j tabs(1) v(2), unfolded v(3), OF w] a w by simp
  qed
  have "?P 0 (True, t)" using inv tabs(2) by (simp add: clone_inv_def)
  then have "\<exists>j. 0 \<le> j \<and> j \<le> 1024 \<and> ?P j (ok, u) \<and> (j < 1024 \<longrightarrow> \<not> ok)"
    using for_lt_rule [of 0 1024 ?P "(True, t)" "\<lambda>_ (ok, _). ok" ?body] step loop by auto
  then show "clone_base src d s n u" "if ok then clone_inv mmu src d s n i 1024 u else out_of_memory u"
    by (auto simp: order_le_less split: if_splits)
qed

lemma clone_inv_row:
  assumes "clone_inv mmu src d s n i 1024 t" "i < 1024"
  shows "clone_inv mmu src d s n (i + 1) 0 t"
  using assms passed_row [OF assms(2)] by (simp add: clone_inv_def)

text \<open>A row without a table of its own in the loop: nothing of it is mapped, or the source's
  kernel table serves it.\<close>

lemma clone_inv_skip:
  assumes inv: "clone_inv mmu src d s i i 0 t" and i: "i < 1024"
    and st: "clone_step src d s W t u" and base: "clone_base src d s (i + 1) u"
    and walk_i: "\<And>v. walk d u v = (if PAGE_DIR_INDEX v = i then walk src s v else walk d t v)"
    and share: "768 \<le> i \<or> \<not> has_table src i s"
  shows "clone_inv mmu src d s (i + 1) (i + 1) 0 u"
proof -
  have "if passed (i + 1) 0 v then cloned mmu src d s u v else walk d u v = None" for v
  proof (cases "PAGE_DIR_INDEX v = i")
    case True
    have "\<not> PAGE_DIR_INDEX v < 768 \<or> walk src s v = None"
      using share True by (auto simp: walk_def)
    then have "cloned mmu src d s u v"
      using walk_i [of v] True by (auto simp: cloned_def split: option.splits)
    then show ?thesis using True i word_less_Suc_iff [of i 1024 i] by (simp add: passed_def)
  next
    case False
    have "if passed i 0 v then cloned mmu src d s t v else walk d t v = None"
      using inv by (simp add: clone_inv_def)
    then show ?thesis
      using False walk_i [of v] clone_step_cloned [OF st, of mmu v] word_less_Suc_iff [OF i, of "PAGE_DIR_INDEX v"]
      by (auto simp: passed_def split: if_splits)
  qed
  then show ?thesis using base by (simp add: clone_inv_def)
qed

lemma clone_pde_step:
  fixes t :: "'a vmm_scheme"
  assumes src: "wf_dir src s" and mmu: "mmu_local mmu s"
    and inv: "clone_inv mmu src d s i i 0 t" and i: "i < 1024"
    and pde: "clone_pde mmu src d i t = (ok, u)"
  shows "if ok then clone_inv mmu src d s (i + 1) (i + 1) 0 u
    else out_of_memory u \<and> (\<exists>n \<le> 768. clone_base src d s n u)"
proof -
  have base: "clone_base src d s i t" using inv by (simp add: clone_inv_def)
  note b = clone_baseD [OF base]
  have e: "rd32 (slot src i) t = rd32 (slot src i) s" using b(6) [OF wf_dirD(2) [OF src] i] .
  have present: "entry_present (rd32 (slot src i) t) \<longleftrightarrow> has_table src i s"
    using e i by (simp add: has_table_def)
  have table: "rd32 (slot src i) t AND NOT 0xFFF = table_at src i s"
    by (simp add: e table_at_def page_base_def)
  have none: "walk d t v = None" if "PAGE_DIR_INDEX v = i" for v
    using inv that by (auto simp: clone_inv_def passed_def dest!: spec [of _ v])
  have up: "i \<le> i + 1" using word_less_Suc_iff [OF i, of i] by simp
  consider (absent) "\<not> has_table src i s" | (kernel) "has_table src i s" "768 \<le> i"
    | (user) "has_table src i s" "i < 768" by fastforce
  then show ?thesis
  proof cases
    case absent
    have st: "clone_step src d s {} t t" using b(1) by (auto simp: clone_step_def)
    have "clone_base src d s (i + 1) t" by (rule clone_step_base [OF base st _ up]) simp
    moreover have "walk d t v = (if PAGE_DIR_INDEX v = i then walk src s v else walk d t v)" for v
      using none absent by (auto simp: walk_def)
    ultimately show ?thesis
      using clone_inv_skip [OF inv i st] absent pde present by (auto simp: clone_pde_def)
  next
    case kernel
    then have u: "ok" "u = wr32 (slot d i) (rd32 (slot src i) t) t"
      using pde present by (auto simp: clone_pde_def)
    note sh = clone_share [OF src base kernel(2,1), folded u(2)]
    show ?thesis using clone_inv_skip [OF inv i sh] kernel(2) u(1) by simp
  next
    case user
    obtain T t1 where T: "vmm_get_page_table d i True t = (T, t1)" by fastforce
    have body: "clone_pde mmu src d i t =
        (if T = 0 then (False, t1) else for_lt 0 1024 (\<lambda>_ (ok, _). ok)
           (\<lambda>j (_, u). clone_pte mmu (table_at src i s) T i j u) (True, t1))"
      unfolding clone_pde_def Let_def table T present using user(1) not_le [of 768 i] user(2)
      by (simp only: if_True if_False prod.case simp_thms)
    from b(1) i show ?thesis
    proof (cases rule: get_page_table_cases [where allocate = True])
      case found
      then show ?thesis using no_table_at_bound [OF base] by blast
    next
      case absent
      then have "ok = False" "u = t" "out_of_memory t" using T body pde by (auto simp: out_of_memory_def)
      then show ?thesis using base user(2) by (auto intro!: exI [of _ i])
    next
      case (fresh p s1)
      note tb = clone_table [OF base user(2,1) fresh(3,4)]
      have eq: "T = p" "t1 = add_table d i p s1" using fresh(5) T by auto
      have inv1: "clone_inv mmu src d s (i + 1) i 0 t1"
        using inv tb(2,3) clone_step_cloned [OF tb(1)] eq by (simp add: clone_inv_def)
      have loop: "for_lt 0 1024 (\<lambda>_ (ok, _). ok)
          (\<lambda>j (_, u). clone_pte mmu (table_at src i s) (table_at d i t1) i j u) (True, t1) = (ok, u)"
        using body pde eq fresh(4) tb(5) by simp
      note l = clone_table_loop [OF src mmu inv1 user(2,1) _ loop]
      have "has_table d i t1" using tb(4) eq by simp
      moreover have "i + 1 \<le> 768" by (rule word_Suc_le_of_less [OF user(2)])
      ultimately show ?thesis using l clone_inv_row [OF _ i] by auto
    qed
  qed
qed

lemma clone_loop:
  fixes t :: "'a vmm_scheme"
  assumes src: "wf_dir src s" and mmu: "mmu_local mmu s" and inv: "clone_inv mmu src d s 0 0 0 t"
    and loop: "for_lt 0 1024 (\<lambda>_ (ok, _). ok) (\<lambda>i (_, u). clone_pde mmu src d i u) (True, t) = (ok, u)"
  shows "if ok then clone_inv mmu src d s 1024 1024 0 u else out_of_memory u \<and> (\<exists>n \<le> 768. clone_base src d s n u)"
proof -
  let ?P = "\<lambda>i (ok, u). if ok then clone_inv mmu src d s i i 0 u
    else out_of_memory u \<and> (\<exists>n \<le> 768. clone_base src d s n u)"
  let ?body = "\<lambda>i (_, u). clone_pde mmu src d i u"
  have step: "?P (i + 1) (?body i a)"
    if i: "i < 1024" and P: "case a of (ok, _) \<Rightarrow> ok" "?P i a" for i a
  proof -
    obtain v where a: "a = (True, v)" using P(1) by fastforce
    obtain ok2 w where w: "clone_pde mmu src d i v = (ok2, w)" by fastforce
    show ?thesis using clone_pde_step [OF src mmu _ i w] P(2) a w by simp
  qed
  have "?P 0 (True, t)" using inv by simp
  then have "\<exists>i. 0 \<le> i \<and> i \<le> 1024 \<and> ?P i (ok, u) \<and> (i < 1024 \<longrightarrow> \<not> ok)"
    using for_lt_rule [of 0 1024 ?P "(True, t)" "\<lambda>_ (ok, _). ok" ?body] step loop by auto
  then show ?thesis by (auto simp: order_le_less split: if_splits)
qed

lemma words_kept_dir:
  assumes "words_kept s t" "wf_dir e s" "pmm_inv t"
  shows "wf_dir e t" "walk e t = walk e s" "dir_pages e t = dir_pages e s"
proof -
  have sub: "owned_pages s \<subseteq> owned_pages t" using assms(1) by (simp add: words_kept_def)
  have same: "rd32 (slot q k) t = rd32 (slot q k) s" if "q \<in> dir_pages e s" "k < 1024" for q k
    using that assms(1) dir_pages_owned [OF assms(2)] unfolding words_kept_def by blast
  show "wf_dir e t" "walk e t = walk e s" "dir_pages e t = dir_pages e s"
    by (rule foreign_dir [OF assms(2,3) sub same]; assumption)+
qed

lemma clone_start:
  fixes s :: "'a vmm_scheme"
  assumes inv: "pmm_inv s" and d: "vmm_create_directory s = (d, t)" "d \<noteq> 0"
  shows "clone_inv mmu src d s 0 0 0 t"
  using inv
proof (cases rule: create_directory_cases)
  case null
  then show ?thesis using d by simp
next
  case (created d' t')
  then have eq: "d' = d" "t' = t" using d by auto
  have "cr3 t = cr3 s"
    using d cr3_alloc [of s] by (auto simp: vmm_create_directory_def split: prod.splits if_splits)
  then have "words_kept s t" using created(6,7) eq by (auto simp: words_kept_def)
  then show ?thesis
    using created eq by (simp add: clone_inv_def clone_base_def passed_def)
qed

lemma clone_cases:
  fixes s :: "'a vmm_scheme"
  assumes src: "wf_dir src s" and mmu: "mmu_local mmu s"
  obtains (none) "vmm_clone_directory mmu src s = (0, s)" "out_of_memory s"
  | (failed) n d u where "n \<le> 768" "clone_base src d s n u" "out_of_memory u"
      "vmm_clone_directory mmu src s = (0, vmm_free_directory d u)"
  | (cloned) d u where "clone_inv mmu src d s 1024 1024 0 u" "vmm_clone_directory mmu src s = (d, u)"
proof -
  note inv = wf_dirD(1) [OF src]
  from inv show ?thesis
  proof (cases rule: create_directory_cases)
    case null
    then show ?thesis by (intro none) (simp_all add: vmm_clone_directory_def)
  next
    case (created d t)
    have "clone_inv mmu src d s 0 0 0 t" by (rule clone_start [OF inv created(1,2)])
    then obtain ok u where ok: "if ok then clone_inv mmu src d s 1024 1024 0 u
          else out_of_memory u \<and> (\<exists>n \<le> 768. clone_base src d s n u)"
        "vmm_clone_directory mmu src s = (if ok then (d, u) else (0, vmm_free_directory d u))"
      using clone_loop [OF src mmu] created(1,2)
      by (fastforce simp: vmm_clone_directory_def split: prod.splits)
    then show ?thesis using cloned failed by (cases ok) auto
  qed
qed

lemma cr3_free_directory [simp]: "cr3 (vmm_free_directory d u) = cr3 u"
proof -
  have free: "cr3 (pmm_free_block p t) = cr3 t" for p and t :: "'a vmm_scheme"
    by (simp add: pmm_free_block_def pmm_unset_block_def wr32_def Let_def)
  have "cr3 (for_lt 0 1024 (\<lambda>_ _. True) (\<lambda>i t. if entry_present (rd32 (slot d i) t)
      then pmm_free_block (rd32 (slot d i) t AND NOT 0xFFF) t else t) u) = cr3 u"
    by (rule for_lt_invariant [where P = "\<lambda>t. cr3 t = cr3 u"]) (simp_all add: free)
  then show ?thesis by (simp add: vmm_free_directory_def Let_def free)
qed

lemma words_kept_free:
  fixes u :: "'a vmm_scheme"
  assumes wf: "wf_dir d u" and kept: "words_kept s u" and apart: "dir_pages d u \<inter> owned_pages s = {}"
  shows "words_kept s (vmm_free_directory d u)"
  using kept free_directory_effect(2,3) [OF wf] apart unfolding words_kept_def by auto

lemma clone_base_apart:
  assumes base: "clone_base src d s n u" and n: "n \<le> 768"
  shows "dir_pages d u \<inter> owned_pages s = {}"
proof -
  have "table_at d k u \<notin> owned_pages s" if "has_table d k u" for k
    using clone_baseD(7,8) [OF base that] n by simp
  then show ?thesis using clone_baseD(4) [OF base] by (auto simp: dir_pages_def)
qed

subsection \<open>Memory a clone needs\<close>

definition tables_ahead :: "u32 \<Rightarrow> 'a vmm_scheme \<Rightarrow> u32 \<Rightarrow> u32 set" where
  "tables_ahead src s i = {k. i \<le> k \<and> k < 768 \<and> has_table src k s}"

definition frames_ahead :: "u32 \<Rightarrow> 'a vmm_scheme \<Rightarrow> u32 \<Rightarrow> u32 \<Rightarrow> (u32 \<times> u32) set" where
  "frames_ahead src s i j = {(k, l). ((i < k \<or> i = k \<and> j \<le> l) \<and> l < 1024) \<and> k < 768 \<and> has_table src k s
     \<and> entry_present (rd32 (slot (table_at src k s) l) s)
     \<and> rd32 (slot (table_at src k s) l) s AND VMM_WRITABLE \<noteq> 0}"

definition room :: "u32 \<Rightarrow> 'a vmm_scheme \<Rightarrow> u32 \<Rightarrow> u32 \<Rightarrow> u32 \<Rightarrow> 'a vmm_scheme \<Rightarrow> bool" where
  "room src s m i j u \<longleftrightarrow>
     unat (mem_used_blocks u) + card (tables_ahead src s m) + card (frames_ahead src s i j)
     \<le> unat (mem_blocks u)"

lemma tables_ahead_next:
  assumes i: "i < 768"
  shows "card (tables_ahead src s i) = (if has_table src i s then 1 else 0) + card (tables_ahead src s (i + 1))"
proof -
  have "tables_ahead src s i = (if has_table src i s then {i} else {}) \<union> tables_ahead src s (i + 1)"
    using word_le_less_Suc_iff [OF i] i by (auto simp: tables_ahead_def order_le_less)
  moreover have "i \<notin> tables_ahead src s (i + 1)"
    using word_le_less_Suc_iff [OF i] by (simp add: tables_ahead_def)
  ultimately show ?thesis by simp
qed

lemma frames_ahead_next:
  assumes i: "i < 768" "has_table src i s" and j: "j < 1024"
  defines "e \<equiv> rd32 (slot (table_at src i s) j) s"
  shows "card (frames_ahead src s i j)
    = (if entry_present e \<and> e AND VMM_WRITABLE \<noteq> 0 then 1 else 0) + card (frames_ahead src s i (j + 1))"
proof -
  have "frames_ahead src s i j = (if entry_present e \<and> e AND VMM_WRITABLE \<noteq> 0 then {(i, j)} else {})
      \<union> frames_ahead src s i (j + 1)"
    using word_le_less_Suc_iff [OF j] i j unfolding frames_ahead_def e_def
    by (auto simp: order_le_less)
  moreover have "(i, j) \<notin> frames_ahead src s i (j + 1)"
    using word_le_less_Suc_iff [OF j] by (simp add: frames_ahead_def)
  ultimately show ?thesis by simp
qed

lemma frames_ahead_row:
  assumes i: "i < 1024"
  shows "frames_ahead src s i 1024 = frames_ahead src s (i + 1) 0"
    and "768 \<le> i \<or> \<not> has_table src i s \<Longrightarrow> frames_ahead src s i 0 = frames_ahead src s (i + 1) 0"
proof -
  have up: "i + 1 < a \<or> i + 1 = a \<longleftrightarrow> i < a" for a
    using word_le_less_Suc_iff [OF i, of a] by (simp only: order_le_less)
  have zero: "0 \<le> l" for l :: u32 by simp
  have ends: "(i < k \<or> i = k \<and> 1024 \<le> l) \<and> l < 1024 \<longleftrightarrow> (i + 1 < k \<or> i + 1 = k \<and> 0 \<le> l) \<and> l < 1024"
    for k l :: u32
    using up [of k] zero [of l] by (metis leD)
  then show "frames_ahead src s i 1024 = frames_ahead src s (i + 1) 0"
    unfolding frames_ahead_def by (simp only:)
  show "frames_ahead src s i 0 = frames_ahead src s (i + 1) 0" if "768 \<le> i \<or> \<not> has_table src i s"
  proof -
    have "((i < k \<or> i = k \<and> 0 \<le> l) \<and> l < 1024) \<and> k < 768 \<and> has_table src k s \<and> R
      \<longleftrightarrow> ((i + 1 < k \<or> i + 1 = k \<and> 0 \<le> l) \<and> l < 1024) \<and> k < 768 \<and> has_table src k s \<and> R" for k l :: u32 and R
      using that up [of k] zero [of l] by (metis leD)
    then show ?thesis unfolding frames_ahead_def by (simp only:)
  qed
qed

lemma mem_used_frame [simp]:
  fixes s :: "'a pmm_scheme"
  shows "mem_used_blocks (wr32 a v s) = mem_used_blocks s"
    "mem_used_blocks (memset0 p n s) = mem_used_blocks s"
    "mem_used_blocks (copy_page p f s) = mem_used_blocks s"
  by (simp_all add: wr32_def memset0_def copy_page_def memcpy_from_def)

lemma clone_pte_room:
  fixes t :: "'a vmm_scheme"
  assumes inv: "pmm_inv t" and e: "rd32 (slot (table_at src i s) j) t = rd32 (slot (table_at src i s) j) s"
    and ij: "i < 768" "j < 1024" and tab: "has_table src i s" and room: "room src s m i j t"
  shows "fst (clone_pte mmu (table_at src i s) T i j t)
    \<and> room src s m i (j + 1) (snd (clone_pte mmu (table_at src i s) T i j t))"
proof -
  let ?e = "rd32 (slot (table_at src i s) j) s"
  note next_ = frames_ahead_next [OF ij(1) tab ij(2)]
  show ?thesis
  proof (cases "entry_present ?e \<and> ?e AND VMM_WRITABLE \<noteq> 0")
    case True
    then have "unat (mem_used_blocks t) < unat (mem_blocks t)"
      using room next_ by (simp add: room_def)
    then obtain p t1 where p: "pmm_alloc_block t = (p, t1)" "p \<noteq> 0"
        "unat (mem_used_blocks t1) = Suc (unat (mem_used_blocks t))" "mem_blocks t1 = mem_blocks t"
      using alloc_with_room [OF inv] by metis
    then show ?thesis
      using True room next_ e by (simp add: clone_pte_def Let_def room_def)
  next
    case False
    then show ?thesis
      using room next_ e by (auto simp: clone_pte_def Let_def room_def)
  qed
qed

lemma clone_table_loop_room:
  fixes t :: "'a vmm_scheme"
  assumes src: "wf_dir src s" and mmu: "mmu_local mmu s"
    and inv: "clone_inv mmu src d s n i 0 t" and i: "i < 768"
    and tabs: "has_table src i s" "has_table d i t" and room: "room src s m i 0 t"
    and loop: "for_lt 0 1024 (\<lambda>_ (ok, _). ok)
      (\<lambda>j (_, u). clone_pte mmu (table_at src i s) (table_at d i t) i j u) (True, t) = (ok, u)"
  shows "ok \<and> room src s m i 1024 u"
proof -
  let ?P = "\<lambda>j (ok, u). ok \<and> clone_inv mmu src d s n i j u \<and> has_table d i u
    \<and> table_at d i u = table_at d i t \<and> room src s m i j u"
  let ?body = "\<lambda>j (_, u). clone_pte mmu (table_at src i s) (table_at d i t) i j u"
  have step: "?P (j + 1) (?body j a)" if j: "j < 1024" and P: "?P j a" for j a
  proof -
    obtain v where a: "a = (True, v)" using P by (cases a) auto
    obtain ok2 w where w: "clone_pte mmu (table_at src i s) (table_at d i t) i j v = (ok2, w)"
      by fastforce
    have v: "clone_inv mmu src d s n i j v" "has_table d i v" "table_at d i v = table_at d i t"
        "room src s m i j v"
      using a P by simp_all
    have base: "clone_base src d s n v" using v(1) by (simp add: clone_inv_def)
    note r = clone_pte_room [OF clone_baseD(2) [OF base] clone_baseD(6) [OF base wf_dirD(5) [OF src tabs(1)] j]
        i j tabs(1) v(4), of mmu "table_at d i t"]
    show ?thesis
      using clone_pte_step [OF src mmu v(1) i j tabs(1) v(2), unfolded v(3), OF w] a w r by simp
  qed
  have "?P 0 (True, t)" using inv tabs(2) room by simp
  then have "\<exists>j. 0 \<le> j \<and> j \<le> 1024 \<and> ?P j (ok, u) \<and> (j < 1024 \<longrightarrow> \<not> ok)"
    using for_lt_rule [of 0 1024 ?P "(True, t)" "\<lambda>_ (ok, _). ok" ?body] step loop by auto
  then show ?thesis by (auto simp: order_le_less)
qed

lemma room_row:
  assumes "i < 1024" "768 \<le> i \<or> \<not> has_table src i s" "room src s i i 0 t"
  shows "room src s (i + 1) (i + 1) 0 t"
proof -
  have "card (tables_ahead src s i) = card (tables_ahead src s (i + 1))"
  proof (cases "i < 768")
    case True
    then show ?thesis using tables_ahead_next [OF True, of src s] assms(2) by (auto simp flip: not_less)
  next
    case False
    then have "768 \<le> i" "768 \<le> i + 1"
      using word_less_Suc_iff [OF assms(1), of i] by (auto simp: not_less)
    then have "tables_ahead src s i = {}" "tables_ahead src s (i + 1) = {}"
      by (auto simp: tables_ahead_def)
    then show ?thesis by simp
  qed
  then show ?thesis
    using assms frames_ahead_row(2) [OF assms(1,2)] by (simp add: room_def)
qed

lemma get_page_table_room:
  fixes t :: "'a vmm_scheme"
  assumes wf: "wf_dir d t" and i: "i < 1024" "\<not> has_table d i t"
    and room: "unat (mem_used_blocks t) < unat (mem_blocks t)"
  obtains p t1 where "vmm_get_page_table d i True t = (p, add_table d i p t1)"
    "pmm_alloc_block t = (p, t1)" "p \<noteq> 0"
    "unat (mem_used_blocks (add_table d i p t1)) = Suc (unat (mem_used_blocks t))"
    "mem_blocks (add_table d i p t1) = mem_blocks t"
  using wf i(1)
proof (cases rule: get_page_table_cases [where allocate = True])
  case found
  then show ?thesis using i by blast
next
  case absent
  then have "\<forall>b < mem_blocks t. b \<in> used_set t" by (simp add: used_set_def)
  then show ?thesis
    using all_used_iff [OF wf_dirD(1) [OF wf]] room by (simp add: word_le_nat_alt)
next
  case (fresh p t1)
  obtain q u where "pmm_alloc_block t = (q, u)" "unat (mem_used_blocks u) = Suc (unat (mem_used_blocks t))"
      "mem_blocks u = mem_blocks t"
    using alloc_with_room [OF wf_dirD(1) [OF wf] room] by metis
  then show ?thesis using that [of p t1] fresh by (simp add: add_table_def)
qed

lemma clone_pde_room:
  fixes t :: "'a vmm_scheme"
  assumes src: "wf_dir src s" and mmu: "mmu_local mmu s"
    and inv: "clone_inv mmu src d s i i 0 t" and i: "i < 1024" and room: "room src s i i 0 t"
    and pde: "clone_pde mmu src d i t = (ok, u)"
  shows "ok \<and> room src s (i + 1) (i + 1) 0 u"
proof -
  have base: "clone_base src d s i t" using inv by (simp add: clone_inv_def)
  note b = clone_baseD [OF base]
  have e: "rd32 (slot src i) t = rd32 (slot src i) s" using b(6) [OF wf_dirD(2) [OF src] i] .
  have present: "entry_present (rd32 (slot src i) t) \<longleftrightarrow> has_table src i s"
    using e i by (simp add: has_table_def)
  have table: "rd32 (slot src i) t AND NOT 0xFFF = table_at src i s"
    by (simp add: e table_at_def page_base_def)
  show ?thesis
  proof (cases "768 \<le> i \<or> \<not> has_table src i s")
    case True
    then have "ok" "u = t \<or> u = wr32 (slot d i) (rd32 (slot src i) t) t"
      using pde present by (auto simp: clone_pde_def split: if_splits)
    then show ?thesis using room_row [OF i True room] by (auto simp: room_def)
  next
    case False
    then have i768: "i < 768" and tab: "has_table src i s" by auto
    note next_ = tables_ahead_next [OF i768, of src s]
    have "unat (mem_used_blocks t) < unat (mem_blocks t)"
      using room next_ tab by (simp add: room_def)
    then obtain p t1 where p: "vmm_get_page_table d i True t = (p, add_table d i p t1)"
        "pmm_alloc_block t = (p, t1)" "p \<noteq> 0"
        "unat (mem_used_blocks (add_table d i p t1)) = Suc (unat (mem_used_blocks t))"
        "mem_blocks (add_table d i p t1) = mem_blocks t"
      using get_page_table_room [OF b(1) i no_table_at_bound [OF base]] by metis
    let ?t = "add_table d i p t1"
    note tb = clone_table [OF base i768 tab p(2,3)]
    have inv1: "clone_inv mmu src d s (i + 1) i 0 ?t"
      using inv tb(2,3) clone_step_cloned [OF tb(1)] by (simp add: clone_inv_def)
    have room1: "room src s (i + 1) i 0 ?t"
      using room next_ tab p(4,5) by (simp add: room_def)
    have loop: "for_lt 0 1024 (\<lambda>_ (ok, _). ok)
        (\<lambda>j (_, u). clone_pte mmu (table_at src i s) (table_at d i ?t) i j u) (True, ?t) = (ok, u)"
      using pde unfolding clone_pde_def Let_def table p(1) present using tab i768 p(3) tb(5)
      by (simp only: if_True if_False prod.case simp_thms not_le [symmetric])
    show ?thesis
      using clone_table_loop_room [OF src mmu inv1 i768 tab tb(4) room1 loop]
      by (simp add: room_def frames_ahead_row(1) [OF i])
  qed
qed

lemma clone_loop_room:
  fixes t :: "'a vmm_scheme"
  assumes src: "wf_dir src s" and mmu: "mmu_local mmu s" and inv: "clone_inv mmu src d s 0 0 0 t"
    and room: "room src s 0 0 0 t"
    and loop: "for_lt 0 1024 (\<lambda>_ (ok, _). ok) (\<lambda>i (_, u). clone_pde mmu src d i u) (True, t) = (ok, u)"
  shows "ok"
proof -
  let ?P = "\<lambda>i (ok, u). ok \<and> clone_inv mmu src d s i i 0 u \<and> room src s i i 0 u"
  let ?body = "\<lambda>i (_, u). clone_pde mmu src d i u"
  have step: "?P (i + 1) (?body i a)" if i: "i < 1024" and P: "?P i a" for i a
  proof -
    obtain v where a: "a = (True, v)" using P by (cases a) auto
    obtain ok2 w where w: "clone_pde mmu src d i v = (ok2, w)" by fastforce
    show ?thesis
      using clone_pde_step [OF src mmu _ i w] clone_pde_room [OF src mmu _ i _ w] P a w by simp
  qed
  have "?P 0 (True, t)" using inv room by simp
  then show ?thesis
    using for_lt_rule [of 0 1024 ?P "(True, t)" "\<lambda>_ (ok, _). ok" ?body] step loop by auto
qed

lemma clone_succeeds:
  fixes s :: "'a vmm_scheme"
  assumes src: "wf_dir src s" and mmu: "mmu_local mmu s"
    and memory: "unat (mem_used_blocks s) + 1 + card (tables_ahead src s 0) + card (frames_ahead src s 0 0)
      \<le> unat (mem_blocks s)"
  shows "fst (vmm_clone_directory mmu src s) \<noteq> 0"
proof -
  note inv = wf_dirD(1) [OF src]
  have "unat (mem_used_blocks s) < unat (mem_blocks s)" using memory by simp
  then obtain d t1 where d: "pmm_alloc_block s = (d, t1)" "d \<noteq> 0"
      "unat (mem_used_blocks t1) = Suc (unat (mem_used_blocks s))" "mem_blocks t1 = mem_blocks s"
    using alloc_with_room [OF inv] by metis
  let ?t = "memset0 d 4096 t1"
  have create: "vmm_create_directory s = (d, ?t)" using d by (simp add: vmm_create_directory_def)
  have start: "clone_inv mmu src d s 0 0 0 ?t" by (rule clone_start [OF inv create d(2)])
  have room: "room src s 0 0 0 ?t" using memory d by (simp add: room_def)
  obtain ok u where loop: "for_lt 0 1024 (\<lambda>_ (ok, _). ok) (\<lambda>i (_, u). clone_pde mmu src d i u) (True, ?t)
      = (ok, u)" by fastforce
  have "ok" by (rule clone_loop_room [OF src mmu start room loop])
  then show ?thesis using create d(2) loop by (simp add: vmm_clone_directory_def)
qed

subsection \<open>Memory a failed clone leaves\<close>

text \<open>The pages the allocator can still hand out.\<close>

definition free_pages :: "'a vmm_scheme \<Rightarrow> u32 set" where
  "free_pages s = managed_pages s - owned_pages s - {0}"

lemma free_pages_full: "out_of_memory s \<Longrightarrow> free_pages s = {}"
  by (auto simp: free_pages_def managed_pages_def owned_pages_def used_set_def out_of_memory_def)

lemma managed_free_directory [simp]: "managed_pages (vmm_free_directory d s) = managed_pages s"
proof -
  have block: "mem_blocks (pmm_free_block p t) = mem_blocks t" for p and t :: "'a vmm_scheme"
    by (simp add: pmm_free_block_def Let_def)
  have "mem_blocks (for_lt 0 1024 (\<lambda>_ _. True) (\<lambda>i t. if entry_present (rd32 (slot d i) t)
      then pmm_free_block (rd32 (slot d i) t AND NOT 0xFFF) t else t) s) = mem_blocks s"
    by (rule for_lt_invariant) (simp_all add: block)
  then have "mem_blocks (vmm_free_directory d s) = mem_blocks s"
    by (simp add: vmm_free_directory_def block)
  then show ?thesis by (simp add: managed_pages_def)
qed

lemma free_pages_failed:
  fixes u :: "'a vmm_scheme"
  assumes base: "clone_base src d s n u" and n: "n \<le> 768" and full: "out_of_memory u"
  shows "card (free_pages (vmm_free_directory d u)) \<le> 1 + card (tables_ahead src s 0)"
proof -
  have "free_pages (vmm_free_directory d u) \<subseteq> dir_pages d u"
    using free_pages_full [OF full] free_directory_effect(2) [OF clone_baseD(1) [OF base]]
    by (auto simp: free_pages_def)
  also have "\<dots> \<subseteq> insert d ((\<lambda>k. table_at d k u) ` tables_ahead src s 0)"
    using clone_baseD(7,10) [OF base] n by (fastforce simp: dir_pages_def tables_ahead_def)
  finally have "card (free_pages (vmm_free_directory d u))
      \<le> card (insert d ((\<lambda>k. table_at d k u) ` tables_ahead src s 0))"
    by (rule card_mono [rotated]) simp
  also have "\<dots> \<le> Suc (card ((\<lambda>k. table_at d k u) ` tables_ahead src s 0))" by (rule card_insert_le_m1) simp_all
  also have "\<dots> \<le> Suc (card (tables_ahead src s 0))" by (simp add: card_image_le)
  finally show ?thesis by simp
qed

subsection \<open>A source for the witnesses\<close>

text \<open>The processor's load: the walk of the directory in \<open>cr3\<close>.\<close>

definition mmu_walk :: "u32 \<Rightarrow> 'a vmm_scheme \<Rightarrow> u32" where
  "mmu_walk v t =
     (case walk (cr3 t) t v of
        Some e \<Rightarrow> rd32 (slot (page_base e) (PAGE_OFFSET v div 4)) t
      | None \<Rightarrow> 0)"

lemma offset_word: "PAGE_OFFSET v div 4 < 1024"
proof -
  have "unat (PAGE_OFFSET v) < 4096" using page_offset_and [of v] by (simp add: PAGE_OFFSET_def)
  then show ?thesis by (simp add: word_less_nat_alt unat_div div_less_iff_less_mult)
qed

lemma mmu_walk_local:
  fixes s :: "'a vmm_scheme"
  assumes wf: "wf_dir (cr3 s) s"
    and frames: "\<And>v e. walk (cr3 s) s v = Some e \<Longrightarrow> page_base e \<in> owned_pages s"
  shows "mmu_local mmu_walk s"
  unfolding mmu_local_def
proof (intro allI impI)
  fix v and t :: "'a vmm_scheme"
  assume kept: "words_kept s t"
  have w: "rd32 (slot q k) t = rd32 (slot q k) s" if "q \<in> owned_pages s" "k < 1024" for q k
    using kept that by (simp add: words_kept_def)
  have "walk (cr3 s) t = walk (cr3 s) s"
    by (rule walk_cong(1)) (use w wf_dirD(2,5) [OF wf] in blast)+
  moreover have "cr3 t = cr3 s" using kept by (simp add: words_kept_def)
  ultimately show "mmu_walk v t = mmu_walk v s"
    using frames w offset_word by (auto simp: mmu_walk_def split: option.split)
qed

text \<open>The sample directory with a kernel table in block 6 for index 768, which maps 3 GiB to
  physical page 1.\<close>

definition sample_src :: vmm where
  "sample_src = sample_vmm\<lparr>mem := (mem sample_vmm)(0x4C00 := 0x6007, 0x6000 := 0x1003)\<rparr>"

lemma sample_src_used: "used_set sample_src = {0, 1, 2, 3, 4, 5, 6}"
proof -
  have "bm_addr sample_src b = 0x10000" if "b < 16" for b
  proof -
    have "unat (b div 32) = 0" using that by (simp add: unat_div word_less_nat_alt)
    then have "b div 32 = 0" by (simp add: unat_eq_0)
    then show ?thesis by (simp add: bm_addr_def sample_src_def sample_vmm_def)
  qed
  then have "b < 16 \<Longrightarrow> pmm_test_block b sample_src = pmm_test_block b sample_vmm" for b
    by (auto simp: pmm_test_block_def bm_addr_def rd32_def sample_src_def sample_vmm_def)
  moreover have "mem_blocks sample_src = 16" "mem_blocks sample_vmm = 16"
    by (simp_all add: sample_src_def sample_vmm_def)
  ultimately show ?thesis using sample_vmm_used by (auto simp: used_set_def)
qed

lemma sample_src_pmm: "pmm_inv sample_src"
  unfolding pmm_inv_def sample_src_used by (simp add: pmm_geom_def sample_src_def sample_vmm_def)

lemma sample_src_owned:
  "{0x1000, 0x2000, 0x4000, 0x5000, 0x6000} \<subseteq> owned_pages sample_src"
  unfolding owned_pages_def sample_src_used by (simp add: page_aligned_def)

lemma sample_src_words:
  assumes "p \<in> {0x4000, 0x5000, 0x6000}" "i < 1024"
  shows "rd32 (slot p i) sample_src =
    (if p = 0x4000 \<and> i = 0 then 0x5007 else if p = 0x4000 \<and> i = 768 then 0x6007
     else if p = 0x5000 \<and> i = 1 then 0x2003 else if p = 0x6000 \<and> i = 0 then 0x1003 else 0)"
proof -
  have al: "page_aligned p" "page_aligned 0x4000" "page_aligned 0x5000" "page_aligned 0x6000"
      "page_aligned 0x10000"
    using assms(1) by (auto simp: page_aligned_def)
  have mem: "mem sample_src a = (if a = 0x6000 then 0x1003 else if a = 0x4C00 then 0x6007
      else if a = 0x10000 then 0x7F else if a = 0x4000 then 0x5007 else if a = 0x5004 then 0x2003 else 0)"
    for a
    by (simp add: sample_src_def sample_vmm_def)
  have slots: "slot 0x6000 0 = 0x6000" "slot 0x4000 768 = 0x4C00" "slot 0x10000 0 = 0x10000"
      "slot 0x4000 0 = 0x4000" "slot 0x5000 1 = 0x5004"
    by (simp_all add: slot_def)
  have eq: "rd32 (slot p i) sample_src =
    (if slot p i = slot 0x6000 0 then 0x1003 else if slot p i = slot 0x4000 768 then 0x6007
     else if slot p i = slot 0x10000 0 then 0x7F else if slot p i = slot 0x4000 0 then 0x5007
     else if slot p i = slot 0x5000 1 then 0x2003 else 0)"
    unfolding rd32_def mem slots ..
  have conds: "slot p i = slot 0x6000 0 \<longleftrightarrow> p = 0x6000 \<and> i = 0"
      "slot p i = slot 0x4000 768 \<longleftrightarrow> p = 0x4000 \<and> i = 768"
      "slot p i = slot 0x10000 0 \<longleftrightarrow> p = 0x10000 \<and> i = 0"
      "slot p i = slot 0x4000 0 \<longleftrightarrow> p = 0x4000 \<and> i = 0"
      "slot p i = slot 0x5000 1 \<longleftrightarrow> p = 0x5000 \<and> i = 1"
    using slot_inj [OF al(1) al(4) assms(2)] slot_inj [OF al(1) al(2) assms(2)]
      slot_inj [OF al(1) al(5) assms(2)] slot_inj [OF al(1) al(3) assms(2)]
    by simp_all
  show ?thesis using assms(1) unfolding eq conds by (elim insertE emptyE) simp_all
qed

lemma sample_src_table:
  "has_table 0x4000 i sample_src \<longleftrightarrow> i = 0 \<or> i = 768"
  "table_at 0x4000 0 sample_src = 0x5000" "table_at 0x4000 768 sample_src = 0x6000"
proof -
  show "has_table 0x4000 i sample_src \<longleftrightarrow> i = 0 \<or> i = 768"
    using sample_src_words [of "0x4000" i]
    by (cases "i < 1024") (auto simp: has_table_def entry_present_def VMM_PRESENT_def)
  show "table_at 0x4000 0 sample_src = 0x5000" "table_at 0x4000 768 sample_src = 0x6000"
    by (simp_all add: table_at_def sample_src_words page_base_def)
qed

lemma sample_src_wf: "wf_dir 0x4000 sample_src"
  unfolding wf_dir_def using sample_src_pmm sample_src_owned
  by (auto simp: sample_src_table)

lemma sample_src_walk:
  "walk 0x4000 sample_src v =
    (if PAGE_DIR_INDEX v = 0 \<and> PAGE_TABLE_INDEX v = 1 then Some 0x2003
     else if PAGE_DIR_INDEX v = 768 \<and> PAGE_TABLE_INDEX v = 0 then Some 0x1003 else None)"
  by (auto simp: walk_def sample_src_table sample_src_words entry_present_def VMM_PRESENT_def)

lemma sample_src_mmu: "mmu_local mmu_walk sample_src"
proof (rule mmu_walk_local)
  have cr3: "cr3 sample_src = 0x4000" by (simp add: sample_src_def sample_vmm_def)
  show "wf_dir (cr3 sample_src) sample_src" unfolding cr3 by (rule sample_src_wf)
  show "page_base e \<in> owned_pages sample_src" if "walk (cr3 sample_src) sample_src v = Some e" for v e
    using that sample_src_owned unfolding cr3 sample_src_walk
    by (auto simp: page_base_def split: if_splits)
qed

lemma sample_src_room:
  "unat (mem_used_blocks sample_src) + 1 + card (tables_ahead 0x4000 sample_src 0)
     + card (frames_ahead 0x4000 sample_src 0 0) \<le> unat (mem_blocks sample_src)"
proof -
  have "tables_ahead 0x4000 sample_src 0 = {0}"
    by (auto simp: tables_ahead_def sample_src_table)
  moreover have "frames_ahead 0x4000 sample_src 0 0 \<subseteq> {(0, 1)}"
    by (auto simp: frames_ahead_def sample_src_table sample_src_words entry_present_def VMM_PRESENT_def
        split: if_splits)
  then have "card (frames_ahead 0x4000 sample_src 0 0) \<le> card {(0 :: u32, 1 :: u32)}"
    by (intro card_mono) auto
  ultimately show ?thesis by (simp add: sample_src_def sample_vmm_def)
qed

subsection \<open>Properties\<close>

text \<open>C8: a successful clone is a copy of the address space.  If \<open>vmm_clone_directory\<close> returns a
  directory, it is well formed; every mapped writable page below 3 GiB maps, with the same
  flags, to a frame that nobody owned before and that holds the words the processor reads
  from the source page, and every other page has the entry of the source.  The source and
  everything in use before are unchanged.\<close>

theorem vmm_clone_directory_clones:
  assumes "wf_dir src s" and "mmu_local mmu s"
    and "vmm_clone_directory mmu src s = (d, t)" and "d \<noteq> 0"
  shows "wf_dir d t \<and> wf_dir src t \<and> walk src t = walk src s \<and> words_kept s t
    \<and> (\<forall>v. cloned mmu src d s t v)"
  using assms(1,2)
proof (cases rule: clone_cases)
  case (cloned d' u)
  then have eq: "clone_inv mmu src d s 1024 1024 0 t" using assms(3) by simp
  then have base: "clone_base src d s 1024 t" by (simp add: clone_inv_def)
  have kept: "words_kept s t" using base by (simp add: clone_base_def)
  have "passed 1024 0 v" for v using index_less(1) [of v] by (simp add: passed_def)
  then have "\<forall>v. cloned mmu src d s t v" using eq by (simp add: clone_inv_def)
  then show ?thesis
    using words_kept_dir [OF kept assms(1)] clone_baseD(1,2) [OF base] kept by blast
qed (use assms(3,4) in auto)

text \<open>C34: when a clone succeeds, and what a failed one costs.  With a free block for the directory,
  for each user table and for each writable user page the result is not \<open>NULL\<close>.  Whenever the
  result is \<open>NULL\<close>, the source and its map are unchanged and every page in use before is still in
  use with the same contents; but no more pages are free than the directory and its user tables
  take up: every other page that was free before has been used for a copy and is lost.\<close>

theorem vmm_clone_directory_succeeds:
  assumes "wf_dir src s" and "mmu_local mmu s"
  shows "(unat (mem_used_blocks s) + 1 + card (tables_ahead src s 0) + card (frames_ahead src s 0 0)
        \<le> unat (mem_blocks s) \<longrightarrow> fst (vmm_clone_directory mmu src s) \<noteq> 0)
    \<and> (\<forall>t. vmm_clone_directory mmu src s = (0, t)
        \<longrightarrow> wf_dir src t \<and> walk src t = walk src s \<and> words_kept s t
          \<and> card (free_pages t) \<le> 1 + card (tables_ahead src s 0))"
proof -
  have "wf_dir src t \<and> walk src t = walk src s \<and> words_kept s t
      \<and> card (free_pages t) \<le> 1 + card (tables_ahead src s 0)"
    if null: "vmm_clone_directory mmu src s = (0, t)" for t
    using assms
  proof (cases rule: clone_cases)
    case none
    then have "t = s" using null by simp
    then show ?thesis using free_pages_full [OF none(2)] assms(1) by (simp add: words_kept_def)
  next
    case (failed n d u)
    have kept: "words_kept s (vmm_free_directory d u)"
      using words_kept_free [OF clone_baseD(1) [OF failed(2)] _ clone_base_apart [OF failed(2,1)]] failed(2)
      by (simp add: clone_base_def)
    have "t = vmm_free_directory d u" using failed(4) null by simp
    then show ?thesis
      using words_kept_dir [OF kept assms(1)] free_directory_effect(1) [OF clone_baseD(1) [OF failed(2)]]
        free_pages_failed [OF failed(2,1,3)] kept by auto
  next
    case (cloned d u)
    then show ?thesis using null wf_dirD(3) [of d u] by (auto simp: clone_inv_def clone_base_def)
  qed
  then show ?thesis using clone_succeeds [OF assms] by blast
qed

theorem vmm_clone_directory_succeeds_witness:
  "fst (vmm_clone_directory mmu_walk 0x4000 sample_src) \<noteq> 0"
  using vmm_clone_directory_succeeds [OF sample_src_wf sample_src_mmu] sample_src_room by blast

lemma sample_src_clone:
  obtains d t where "vmm_clone_directory mmu_walk 0x4000 sample_src = (d, t)" "d \<noteq> 0"
  using clone_succeeds [OF sample_src_wf sample_src_mmu sample_src_room] by (metis prod.collapse)

theorem vmm_clone_directory_clones_witness:
  "\<exists>d t p. vmm_clone_directory mmu_walk 0x4000 sample_src = (d, t)
     \<and> walk d t 0x1000 = Some (p OR 3) \<and> p \<notin> owned_pages sample_src
     \<and> walk d t 0xC0000000 = Some 0x1003"
proof -
  obtain d t where dt: "vmm_clone_directory mmu_walk 0x4000 sample_src = (d, t)" "d \<noteq> 0"
    using sample_src_clone .
  have "cloned mmu_walk 0x4000 d sample_src t 0x1000" "cloned mmu_walk 0x4000 d sample_src t 0xC0000000"
    using vmm_clone_directory_clones [OF sample_src_wf sample_src_mmu dt] by blast+
  then show ?thesis
    using dt(1) by (auto simp: cloned_def sample_src_walk PAGE_DIR_INDEX_def PAGE_TABLE_INDEX_def
        VMM_WRITABLE_def)
qed

text \<open>C35: releasing a clone destroys its source.  A clone shares the kernel tables (3 GiB and
  up) with its source, and \<open>vmm_free_directory\<close> gives back all tables of a directory; so as
  soon as the source maps a kernel page, freeing the clone returns to the allocator a page
  table the source still uses, and the source is no longer a well-formed directory.\<close>

theorem vmm_free_clone_breaks_source:
  assumes "wf_dir src s" and "mmu_local mmu s"
    and "vmm_clone_directory mmu src s = (d, t)" and "d \<noteq> 0"
    and "768 \<le> PAGE_DIR_INDEX v" and "walk src s v \<noteq> None"
  defines "Q \<equiv> table_at src (PAGE_DIR_INDEX v) s"
  shows "Q \<in> owned_pages t \<and> Q \<notin> owned_pages (vmm_free_directory d t)
    \<and> table_at src (PAGE_DIR_INDEX v) (vmm_free_directory d t) = Q
    \<and> \<not> wf_dir src (vmm_free_directory d t)"
  using assms(1,2)
proof (cases rule: clone_cases)
  case (cloned d' u)
  then have inv: "clone_inv mmu src d s 1024 1024 0 t" using assms(3) by simp
  then have base: "clone_base src d s 1024 t" by (simp add: clone_inv_def)
  note b = clone_baseD [OF base] and free = free_directory_effect [OF clone_baseD(1) [OF base]]
  have "passed 1024 0 v" using index_less(1) [of v] by (simp add: passed_def)
  then have "cloned mmu src d s t v" using inv by (simp add: clone_inv_def)
  moreover have "\<not> PAGE_DIR_INDEX v < 768" using assms(5) by simp
  ultimately have "walk d t v = walk src s v" using assms(6) by (auto simp: cloned_def)
  then have d: "has_table d (PAGE_DIR_INDEX v) t" using assms(6) by (auto simp: walk_def split: if_splits)
  note k = b(9) [OF d assms(5)]
  have Q: "Q \<in> owned_pages s" "Q \<in> dir_pages d t"
    using wf_dirD(5) [OF assms(1)] k table_in_dir_pages [OF d] by (auto simp: Q_def)
  have word: "rd32 (slot src (PAGE_DIR_INDEX v)) (vmm_free_directory d t)
      = rd32 (slot src (PAGE_DIR_INDEX v)) s"
    using free(3) b(5,6) wf_dirD(2) [OF assms(1)] by (metis index_less(1) subsetD)
  then have src: "has_table src (PAGE_DIR_INDEX v) (vmm_free_directory d t)"
      "table_at src (PAGE_DIR_INDEX v) (vmm_free_directory d t) = Q"
    using k by (simp_all add: has_table_def table_at_def Q_def)
  then show ?thesis
    using free(2) Q b(5) wf_dirD(5) [OF _ src(1)] by auto
qed (use assms(3,4) in auto)

theorem vmm_free_clone_breaks_source_witness:
  "\<exists>d t. vmm_clone_directory mmu_walk 0x4000 sample_src = (d, t) \<and> \<not> wf_dir 0x4000 (vmm_free_directory d t)"
proof -
  obtain d t where dt: "vmm_clone_directory mmu_walk 0x4000 sample_src = (d, t)" "d \<noteq> 0"
    using sample_src_clone .
  have "768 \<le> PAGE_DIR_INDEX 0xC0000000" "walk 0x4000 sample_src 0xC0000000 \<noteq> None"
    by (simp_all add: sample_src_walk PAGE_DIR_INDEX_def PAGE_TABLE_INDEX_def)
  then show ?thesis
    using vmm_free_clone_breaks_source [OF sample_src_wf sample_src_mmu dt] dt(1) by blast
qed

end
