(* ===== verification/Descriptors.thy ===== *)
theory Descriptors
  imports Prelude
begin

text \<open>
  The segment and interrupt descriptor tables, arch/x86/gdt.c and arch/x86/idt.c.  Linker
  addresses (\<open>&gdt_entries\<close>, \<open>&tss_entry\<close>, the assembly stubs) are arguments.  The
  processor's side of an entry is given by the decoding functions \<open>gdt_base\<close>, \<open>gdt_limit\<close>
  and \<open>idt_base\<close>, against which the encoders are proved.
\<close>

subsection \<open>Global descriptor table (gdt.c, gdt.h)\<close>

record gdt_entry =
  limit_low :: u16
  base_low :: u16
  base_middle :: u8
  access :: u8
  granularity :: u8
  base_high :: u8

record tss_entry =
  tss_prev_tss :: u32
  tss_esp0 :: u32
  tss_ss0 :: u32
  tss_esp1 :: u32
  tss_ss1 :: u32
  tss_esp2 :: u32
  tss_ss2 :: u32
  tss_cr3 :: u32
  tss_eip :: u32
  tss_eflags :: u32
  tss_eax :: u32
  tss_ecx :: u32
  tss_edx :: u32
  tss_ebx :: u32
  tss_esp :: u32
  tss_ebp :: u32
  tss_esi :: u32
  tss_edi :: u32
  tss_es :: u32
  tss_cs :: u32
  tss_ss :: u32
  tss_ds :: u32
  tss_fs :: u32
  tss_gs :: u32
  tss_ldt :: u32
  tss_trap :: u16
  tss_iomap_base :: u16

record gdt =
  gdt_entries :: "gdt_entry list"
  gdt_ptr_limit :: u16
  gdt_ptr_base :: u32
  gdt_tss :: tss_entry
  gdtr :: "u32 option"
  tr_loaded :: bool

definition zero_gdt_entry :: gdt_entry where
  "zero_gdt_entry =
     \<lparr>limit_low = 0, base_low = 0, base_middle = 0, access = 0, granularity = 0, base_high = 0\<rparr>"

definition zero_tss :: tss_entry where
  "zero_tss =
     \<lparr>tss_prev_tss = 0, tss_esp0 = 0, tss_ss0 = 0, tss_esp1 = 0, tss_ss1 = 0, tss_esp2 =
      0, tss_ss2 = 0, tss_cr3 = 0, tss_eip = 0, tss_eflags = 0, tss_eax = 0, tss_ecx =
      0, tss_edx = 0, tss_ebx = 0, tss_esp = 0, tss_ebp = 0, tss_esi = 0, tss_edi = 0,
      tss_es = 0, tss_cs = 0, tss_ss = 0, tss_ds = 0, tss_fs = 0, tss_gs = 0, tss_ldt =
      0, tss_trap = 0, tss_iomap_base = 0\<rparr>"

definition gdt_encode :: "u32 \<Rightarrow> u32 \<Rightarrow> u8 \<Rightarrow> u8 \<Rightarrow> gdt_entry" where
  "gdt_encode base limit acc gran =
     \<lparr>limit_low = ucast (limit AND 0xFFFF),
      base_low = ucast (base AND 0xFFFF),
      base_middle = ucast (drop_bit 16 base AND 0xFF),
      access = acc,
      granularity = ucast (drop_bit 16 limit AND 0x0F) OR (gran AND 0xF0),
      base_high = ucast (drop_bit 24 base AND 0xFF)\<rparr>"

text \<open>\<open>gdt_entries[num]\<close> with \<open>num\<close> outside the six entries is undefined: \<open>None\<close>.\<close>

definition gdt_set_gate :: "32 word \<Rightarrow> u32 \<Rightarrow> u32 \<Rightarrow> u8 \<Rightarrow> u8 \<Rightarrow> gdt \<Rightarrow> gdt option" where
  "gdt_set_gate num base limit acc gran g =
     (if 0 \<le> sint num \<and> sint num < int (length (gdt_entries g))
      then Some (g\<lparr>gdt_entries := (gdt_entries g)[unat num := gdt_encode base limit acc gran]\<rparr>)
      else None)"

definition tss_size :: u32 where
  "tss_size = 104"

definition tss_set_gate :: "u32 \<Rightarrow> 32 word \<Rightarrow> u16 \<Rightarrow> u32 \<Rightarrow> gdt \<Rightarrow> gdt option" where
  "tss_set_gate tss_addr num ss0 esp0 g =
     (let base = tss_addr; limit = base + tss_size in
      case gdt_set_gate num base limit 0xE9 0x00 g of
        None \<Rightarrow> None
      | Some g1 \<Rightarrow> Some (g1\<lparr>gdt_tss := (gdt_tss g1)\<lparr>tss_ss0 := ucast ss0, tss_esp0 := esp0\<rparr>\<rparr>))"

definition tss_set_kernel_stack :: "u32 \<Rightarrow> gdt \<Rightarrow> gdt" where
  "tss_set_kernel_stack stack g = g\<lparr>gdt_tss := (gdt_tss g)\<lparr>tss_esp0 := stack\<rparr>\<rparr>"

definition gdt_init :: "u32 \<Rightarrow> u32 \<Rightarrow> u32 \<Rightarrow> gdt \<Rightarrow> gdt option" where
  "gdt_init ptr_addr entries_addr tss_addr g0 =
     (let g1 = g0\<lparr>gdt_ptr_limit := 8 * 6 - 1, gdt_ptr_base := entries_addr,
                  gdt_tss := zero_tss\<lparr>tss_ss0 := 0x10, tss_esp0 := 0,
                                     tss_iomap_base := ucast tss_size\<rparr>\<rparr>
      in case gdt_set_gate 0 0 0 0 0 g1 of None \<Rightarrow> None | Some g2 \<Rightarrow>
         case gdt_set_gate 1 0 0xFFFFFFFF 0x9A 0xCF g2 of None \<Rightarrow> None | Some g3 \<Rightarrow>
         case gdt_set_gate 2 0 0xFFFFFFFF 0x92 0xCF g3 of None \<Rightarrow> None | Some g4 \<Rightarrow>
         case gdt_set_gate 3 0 0xFFFFFFFF 0xFA 0xCF g4 of None \<Rightarrow> None | Some g5 \<Rightarrow>
         case gdt_set_gate 4 0 0xFFFFFFFF 0xF2 0xCF g5 of None \<Rightarrow> None | Some g6 \<Rightarrow>
         case tss_set_gate tss_addr 5 0x10 0 g6 of None \<Rightarrow> None | Some g7 \<Rightarrow>
           Some (g7\<lparr>gdtr := Some ptr_addr, tr_loaded := True\<rparr>))"

text \<open>How the processor reads an entry: base, 20-bit limit, granularity flags.\<close>

definition gdt_base :: "gdt_entry \<Rightarrow> u32" where
  "gdt_base e = ucast (base_low e) OR push_bit 16 (ucast (base_middle e))
     OR push_bit 24 (ucast (base_high e))"

definition gdt_limit :: "gdt_entry \<Rightarrow> u32" where
  "gdt_limit e = ucast (limit_low e) OR push_bit 16 (ucast (granularity e AND 0x0F))"

subsection \<open>Interrupt descriptor table (idt.c, idt.h)\<close>

record idt_entry =
  idt_base_low :: u16
  idt_selector :: u16
  idt_always0 :: u8
  idt_flags :: u8
  idt_base_high :: u16

record idt =
  idt_entries :: "idt_entry list"
  idt_ptr_limit :: u16
  idt_ptr_base :: u32
  idtr :: "u32 option"

definition zero_idt_entry :: idt_entry where
  "zero_idt_entry =
     \<lparr>idt_base_low = 0, idt_selector = 0, idt_always0 = 0, idt_flags = 0, idt_base_high = 0\<rparr>"

definition idt_set_gate :: "u8 \<Rightarrow> u32 \<Rightarrow> u16 \<Rightarrow> u8 \<Rightarrow> idt \<Rightarrow> idt" where
  "idt_set_gate num base selector flags i =
     i\<lparr>idt_entries := (idt_entries i)[unat num :=
        \<lparr>idt_base_low = ucast (base AND 0xFFFF), idt_selector = selector, idt_always0 = 0,
         idt_flags = flags, idt_base_high = ucast (drop_bit 16 base AND 0xFFFF)\<rparr>]\<rparr>"

text \<open>\<open>stub n\<close> is the address of \<open>isr<n>\<close> for \<open>n < 32\<close> and of \<open>irq<n - 32>\<close> from 32 on.\<close>

definition idt_init :: "u32 \<Rightarrow> u32 \<Rightarrow> (u8 \<Rightarrow> u32) \<Rightarrow> idt \<Rightarrow> idt" where
  "idt_init ptr_addr entries_addr stub i =
     (let i1 = i\<lparr>idt_ptr_limit := 8 * 256 - 1, idt_ptr_base := entries_addr,
                 idt_entries := replicate 256 zero_idt_entry\<rparr>;
          i2 = fold (\<lambda>n. idt_set_gate n (stub n) 0x08 0x8E) (map of_nat [0..<32]) i1;
          i3 = fold (\<lambda>n. idt_set_gate n (stub n) 0x08 0x8E) (map of_nat [32..<48]) i2
      in i3\<lparr>idtr := Some ptr_addr\<rparr>)"

definition idt_base :: "idt_entry \<Rightarrow> u32" where
  "idt_base e = ucast (idt_base_low e) OR push_bit 16 (ucast (idt_base_high e))"

subsection \<open>Encoding and decoding\<close>

lemma gdt_base_encode: "gdt_base (gdt_encode base limit acc gran) = base"
proof (rule bit_word_eqI)
  fix n
  assume "n < LENGTH(32)"
  then consider "n < 16" | "16 \<le> n" "n < 24" | "24 \<le> n" "n < 32" by fastforce
  then show "bit (gdt_base (gdt_encode base limit acc gran)) n = bit base n"
    by cases (auto simp: gdt_base_def gdt_encode_def mask_consts bit_simps)
qed

lemma gdt_limit_encode: "gdt_limit (gdt_encode base limit acc gran) = limit AND 0xFFFFF"
  by (rule bit_word_eqI) (auto simp: gdt_limit_def gdt_encode_def mask_consts high_nibble bit_simps)

lemma idt_base_encode:
  "ucast (ucast (base AND 0xFFFF) :: u16) OR push_bit 16 (ucast (ucast (drop_bit 16 base AND 0xFFFF) :: u16))
   = (base :: u32)"
proof (rule bit_word_eqI)
  fix n
  assume "n < LENGTH(32)"
  then consider "n < 16" | "16 \<le> n" "n < 32" by fastforce
  then show "bit (ucast (ucast (base AND 0xFFFF) :: u16)
      OR push_bit 16 (ucast (ucast (drop_bit 16 base AND 0xFFFF) :: u16)) :: u32) n = bit base n"
    by cases (auto simp: mask_consts bit_simps)
qed

lemma idt_set_gate_nth:
  assumes "length (idt_entries i) = 256" and "k < 256"
  shows "idt_entries (idt_set_gate n base sel fl i) ! k =
    (if k = unat n then \<lparr>idt_base_low = ucast (base AND 0xFFFF), idt_selector = sel,
         idt_always0 = 0, idt_flags = fl, idt_base_high = ucast (drop_bit 16 base AND 0xFFFF)\<rparr>
     else idt_entries i ! k)"
  using assms by (simp add: idt_set_gate_def nth_list_update)

lemma idt_set_gate_length [simp]:
  "length (idt_entries (idt_set_gate n base sel fl i)) = length (idt_entries i)"
  by (simp add: idt_set_gate_def)

text \<open>Installing a list of vectors installs each of them and leaves the others alone.\<close>

lemma idt_gates_installed:
  assumes "length (idt_entries i) = 256" and "k < 256"
  shows "idt_entries (fold (\<lambda>n. idt_set_gate n (stub n) 0x08 0x8E) ns i) ! k =
    (if of_nat k \<in> set ns
     then \<lparr>idt_base_low = ucast (stub (of_nat k) AND 0xFFFF), idt_selector = 0x08,
         idt_always0 = 0, idt_flags = 0x8E,
         idt_base_high = ucast (drop_bit 16 (stub (of_nat k)) AND 0xFFFF)\<rparr>
     else idt_entries i ! k)"
  using assms
proof (induction ns arbitrary: i)
  case (Cons n ns)
  have "k = unat n \<longleftrightarrow> of_nat k = n"
    using Cons.prems(2) by (auto simp: unat_of_nat)
  then show ?case
    using Cons.IH [of "idt_set_gate n (stub n) 0x08 0x8E i"] Cons.prems
    by (auto simp: idt_set_gate_nth)
qed simp

lemma idt_gates_length [simp]:
  "length (idt_entries (fold (\<lambda>n. idt_set_gate n (stub n) a b) ns i)) = length (idt_entries i)"
  by (induction ns arbitrary: i) simp_all

lemma of_nat_in_image:
  assumes "k < 256" "\<forall>n \<in> set ns. n < 256"
  shows "(of_nat k :: u8) \<in> of_nat ` set ns \<longleftrightarrow> k \<in> set ns"
proof
  assume "(of_nat k :: u8) \<in> of_nat ` set ns"
  then obtain n where n: "n \<in> set ns" "(of_nat k :: u8) = of_nat n" by blast
  then have "unat (of_nat k :: u8) = unat (of_nat n :: u8)" by simp
  then have "k = n" using assms n(1) by (simp add: unat_of_nat)
  with n show "k \<in> set ns" by simp
qed simp

subsection \<open>A table for the witnesses\<close>

definition sample_gdt :: gdt where
  "sample_gdt = \<lparr>gdt_entries = replicate 6 zero_gdt_entry, gdt_ptr_limit = 0, gdt_ptr_base = 0,
     gdt_tss = zero_tss, gdtr = None, tr_loaded = False\<rparr>"

subsection \<open>Properties\<close>

text \<open>A segment descriptor is encoded as the processor decodes it.  For an index inside the
  table, \<open>gdt_set_gate\<close> stores an entry whose decoded base is the given base, whose limit is
  the low 20 bits of the given limit, with the access byte as given and the high nibble of
  the granularity byte; the other entries keep their values.\<close>

theorem gdt_gate_roundtrip:
  assumes "0 \<le> sint num" and "sint num < int (length (gdt_entries g))"
  shows "\<exists>h e. gdt_set_gate num base limit acc gran g = Some h \<and> e = gdt_entries h ! unat num
    \<and> gdt_base e = base \<and> gdt_limit e = limit AND 0xFFFFF \<and> access e = acc
    \<and> granularity e AND 0xF0 = gran AND 0xF0
    \<and> (\<forall>k. k \<noteq> unat num \<longrightarrow> gdt_entries h ! k = gdt_entries g ! k)"
proof -
  have "sint num = int (unat num)" by (rule sint_nonneg_unat [OF assms(1)])
  then have lt: "unat num < length (gdt_entries g)" using assms(2) by linarith
  have "(ucast (drop_bit 16 limit AND 0x0F) OR (gran AND 0xF0)) AND 0xF0 = gran AND (0xF0 :: u8)"
    by (rule bit_word_eqI) (auto simp: high_nibble mask_consts bit_simps)
  then show ?thesis
    using assms lt gdt_base_encode gdt_limit_encode
    by (simp add: gdt_set_gate_def gdt_encode_def)
qed

theorem gdt_gate_roundtrip_witness:
  "\<exists>h. gdt_set_gate 1 0x1000 0xFFFFFFFF 0x9A 0xCF sample_gdt = Some h
     \<and> gdt_base (gdt_entries h ! 1) = 0x1000 \<and> gdt_limit (gdt_entries h ! 1) = 0xFFFFF"
  using gdt_gate_roundtrip [where num = 1 and g = sample_gdt and base = "0x1000"
    and limit = "0xFFFFFFFF" and acc = "0x9A" and gran = "0xCF"]
  by (auto simp: sample_gdt_def)

text \<open>\<open>gdt_init\<close> sets up four flat segments and a task-state segment whose limit is not its
  size.  Code and data segments start at 0 with a limit of 0xFFFFF pages, for rings 0 and 3;
  the task-state entry has the right base, but as its limit the low 20 bits of base plus
  size, where the processor expects the size minus one, 103.\<close>

theorem gdt_init_segments:
  assumes "length (gdt_entries g) = 6"
  shows "\<exists>h. gdt_init ptr entries tss g = Some h \<and> gdtr h = Some ptr \<and> tr_loaded h
    \<and> (\<forall>k \<in> {1, 2, 3, 4}. gdt_base (gdt_entries h ! k) = 0 \<and> gdt_limit (gdt_entries h ! k) = 0xFFFFF
         \<and> granularity (gdt_entries h ! k) AND 0xF0 = 0xC0)
    \<and> map (\<lambda>k. access (gdt_entries h ! k)) [1, 2, 3, 4] = [0x9A, 0x92, 0xFA, 0xF2]
    \<and> gdt_base (gdt_entries h ! 5) = tss \<and> gdt_limit (gdt_entries h ! 5) = (tss + 104) AND 0xFFFFF
    \<and> gdt_limit (gdt_entries h ! 0) = 0 \<and> access (gdt_entries h ! 0) = 0"
  using assms length_0_conv [of "gdt_entries g"]
  by (simp add: gdt_init_def gdt_set_gate_def tss_set_gate_def tss_size_def Let_def
      gdt_base_encode gdt_limit_encode) (simp add: gdt_encode_def)

theorem gdt_init_segments_witness:
  "\<exists>h. gdt_init 0x500 0x600 0x100000 sample_gdt = Some h \<and> gdt_limit (gdt_entries h ! 5) = 104"
  using gdt_init_segments [where g = sample_gdt and ptr = "0x500" and entries = "0x600"
    and tss = "0x100000"]
  by (auto simp: sample_gdt_def)

text \<open>\<open>idt_init\<close> installs the 48 stubs as 32-bit kernel interrupt gates and nothing else.
  Entry \<open>n\<close> below 48 decodes to the address of stub \<open>n\<close>, selector 0x08 and flags 0x8E; the
  entries from 48 to 255 are zero, so not present.\<close>

theorem idt_init_gates:
  assumes "k < 256"
  shows "let i = idt_init ptr entries stub i0; e = idt_entries i ! k in
    length (idt_entries i) = 256 \<and> idtr i = Some ptr
    \<and> (k < 48 \<longrightarrow> idt_base e = stub (of_nat k) \<and> idt_selector e = 0x08 \<and> idt_flags e = 0x8E)
    \<and> (48 \<le> k \<longrightarrow> e = zero_idt_entry)"
proof -
  define low high :: "u8 list" where "low = map of_nat [0..<32]" and "high = map of_nat [32..<48]"
  have in_range: "of_nat k \<in> set low \<longleftrightarrow> k < 32" "of_nat k \<in> set high \<longleftrightarrow> 32 \<le> k \<and> k < 48"
    unfolding low_def high_def
    using of_nat_in_image [OF assms, of "[0..<32]"] of_nat_in_image [OF assms, of "[32..<48]"]
    by (simp_all only: set_map set_upt atLeastLessThan_iff) simp_all
  show ?thesis
    unfolding idt_init_def Let_def low_def [symmetric] high_def [symmetric]
    using assms in_range by (simp add: idt_gates_installed idt_base_def idt_base_encode)
qed

theorem idt_init_gates_witness:
  "idt_base (idt_entries (idt_init 0 0 (\<lambda>n. 0x100000 + 16 * ucast n)
      \<lparr>idt_entries = [], idt_ptr_limit = 0, idt_ptr_base = 0, idtr = None\<rparr>) ! 33) = 0x100210"
  using idt_init_gates [of 33] by (simp add: Let_def)

end
