(* ===== verification/Process.thy ===== *)
theory Process
  imports Vmm_Clone Descriptors
begin

text \<open>
  Processes and their scheduler, proc/process.c.  Process and thread control blocks are
  pages of the physical memory manager, so a \<open>process_t *\<close> is a physical address and a
  field a word of its page (\<open>slot p PROC_...\<close>, the layout of process.h); nothing is lost by
  freeing a block but the allocator's bit, exactly as on the machine.  The loops over the
  process list may not end on a damaged list: they are partial functions, and \<open>None\<close> is a
  kernel that hangs.
\<close>

subsection \<open>Layout (process.h)\<close>

definition PROC_PID :: u32 where "PROC_PID = 0"
definition PROC_NAME :: u32 where "PROC_NAME = 1"
definition PROC_STATE :: u32 where "PROC_STATE = 9"
definition PROC_PRIORITY :: u32 where "PROC_PRIORITY = 10"
definition PROC_ESP :: u32 where "PROC_ESP = 11"
definition PROC_EBP :: u32 where "PROC_EBP = 12"
definition PROC_EIP :: u32 where "PROC_EIP = 13"
definition PROC_PAGE_DIRECTORY :: u32 where "PROC_PAGE_DIRECTORY = 14"
definition PROC_STACK :: u32 where "PROC_STACK = 15"
definition PROC_STACK_SIZE :: u32 where "PROC_STACK_SIZE = 16"
definition PROC_SLEEP_UNTIL :: u32 where "PROC_SLEEP_UNTIL = 17"
definition PROC_EXIT_CODE :: u32 where "PROC_EXIT_CODE = 18"
definition PROC_NEXT :: u32 where "PROC_NEXT = 19"
definition PROC_SIZE :: u32 where "PROC_SIZE = 80"

lemmas proc_layout = PROC_PID_def PROC_NAME_def PROC_STATE_def PROC_PRIORITY_def PROC_ESP_def
  PROC_EBP_def PROC_EIP_def PROC_PAGE_DIRECTORY_def PROC_STACK_def PROC_STACK_SIZE_def
  PROC_SLEEP_UNTIL_def PROC_EXIT_CODE_def PROC_NEXT_def

definition THREAD_TID :: u32 where "THREAD_TID = 0"
definition THREAD_PARENT :: u32 where "THREAD_PARENT = 1"
definition THREAD_ESP :: u32 where "THREAD_ESP = 2"
definition THREAD_EBP :: u32 where "THREAD_EBP = 3"
definition THREAD_EIP :: u32 where "THREAD_EIP = 4"
definition THREAD_STACK :: u32 where "THREAD_STACK = 5"
definition THREAD_STACK_SIZE :: u32 where "THREAD_STACK_SIZE = 6"
definition THREAD_IS_KERNEL :: u32 where "THREAD_IS_KERNEL = 7"
definition THREAD_SIZE :: u32 where "THREAD_SIZE = 32"

definition READY :: u32 where "READY = 0"
definition RUNNING :: u32 where "RUNNING = 1"
definition BLOCKED :: u32 where "BLOCKED = 2"
definition TERMINATED :: u32 where "TERMINATED = 3"

lemmas proc_states = READY_def RUNNING_def BLOCKED_def TERMINATED_def

record sched = vmm +
  process_list :: u32
  current_process :: u32
  next_pid :: u32
  system_time :: u32
  cpu_esp :: u32
  cpu_ebp :: u32
  kernel_gdt :: gdt

definition fld :: "u32 \<Rightarrow> u32 \<Rightarrow> 'a machine_scheme \<Rightarrow> u32" where
  "fld p i s = rd32 (slot p i) s"

definition set_fld :: "u32 \<Rightarrow> u32 \<Rightarrow> u32 \<Rightarrow> 'a machine_scheme \<Rightarrow> 'a machine_scheme" where
  "set_fld p i v s = wr32 (slot p i) v s"

subsection \<open>Scheduling\<close>

definition process_switch :: "u32 \<Rightarrow> 'a sched_scheme \<Rightarrow> 'a sched_scheme" where
  "process_switch next s =
     (if next = 0 then s
      else let prev = current_process s;
               s1 = (if fld prev PROC_STATE s = RUNNING then set_fld prev PROC_STATE READY s else s);
               s2 = s1\<lparr>current_process := next\<rparr>;
               s3 = set_fld (current_process s2) PROC_STATE RUNNING s2;
               s4 = (if fld prev PROC_PAGE_DIRECTORY s3 \<noteq> fld next PROC_PAGE_DIRECTORY s3
                     then vmm_switch_page_directory (fld next PROC_PAGE_DIRECTORY s3) s3 else s3);
               s5 = s4\<lparr>kernel_gdt := tss_set_kernel_stack (fld next PROC_ESP s4) (kernel_gdt s4)\<rparr>;
               s6 = set_fld prev PROC_ESP (cpu_esp s5) s5;
               s7 = set_fld prev PROC_EBP (cpu_ebp s6) s6;
               s8 = s7\<lparr>cpu_esp := fld next PROC_ESP s7\<rparr>
           in s8\<lparr>cpu_ebp := fld next PROC_EBP s8\<rparr>)"

text \<open>\<open>while (prev && prev->next != next) prev = prev->next\<close>\<close>

partial_function (option) find_prev :: "u32 \<Rightarrow> u32 \<Rightarrow> 'a sched_scheme \<Rightarrow> u32 option" where
  "find_prev prev next s =
     (if prev \<noteq> 0 \<and> fld prev PROC_NEXT s \<noteq> next then find_prev (fld prev PROC_NEXT s) next s
      else Some prev)"

text \<open>The clean-up of a terminated process: unlink it, give its resources back, and return
  the process to look at next.\<close>

definition reap :: "u32 \<Rightarrow> 'a sched_scheme \<Rightarrow> (u32 \<times> 'a sched_scheme) option" where
  "reap next s =
     (case find_prev (process_list s) next s of
        None \<Rightarrow> None
      | Some prev \<Rightarrow>
          let s1 = (if prev \<noteq> 0 then set_fld prev PROC_NEXT (fld next PROC_NEXT s) s else s);
              s2 = (if fld next PROC_STACK s1 \<noteq> 0
                    then pmm_free_blocks (fld next PROC_STACK s1) (fld next PROC_STACK_SIZE s1 div 4096) s1
                    else s1);
              s3 = (if fld next PROC_PAGE_DIRECTORY s2 \<noteq> 0
                    then vmm_free_directory (fld next PROC_PAGE_DIRECTORY s2) s2 else s2);
              temp = (if fld next PROC_NEXT s3 = 0 then process_list s3 else fld next PROC_NEXT s3)
          in Some (temp, pmm_free_block next s3))"

definition wakeable :: "u32 \<Rightarrow> 'a sched_scheme \<Rightarrow> bool" where
  "wakeable p s \<longleftrightarrow> fld p PROC_STATE s = BLOCKED \<and> fld p PROC_SLEEP_UNTIL s \<noteq> 0
     \<and> fld p PROC_SLEEP_UNTIL s \<le> system_time s"

partial_function (option) get_next_loop ::
  "u32 \<Rightarrow> u32 \<Rightarrow> 'a sched_scheme \<Rightarrow> (u32 \<times> 'a sched_scheme) option"
where
  "get_next_loop start next s =
     (if fld next PROC_STATE s = READY then Some (next, s)
      else if wakeable next s then Some (next, set_fld next PROC_STATE READY s)
      else if fld next PROC_STATE s = TERMINATED
      then (case reap next s of
              None \<Rightarrow> None
            | Some (temp, s1) \<Rightarrow>
                if temp = 0 then Some (process_list s1, s1)
                else if temp \<noteq> start then get_next_loop start temp s1
                else Some (process_list s1, s1))
      else let next1 = (if fld next PROC_NEXT s = 0 then process_list s else fld next PROC_NEXT s) in
        if next1 \<noteq> start then get_next_loop start next1 s
        else Some (process_list s, s))"

definition process_get_next :: "'a sched_scheme \<Rightarrow> (u32 \<times> 'a sched_scheme) option" where
  "process_get_next s =
     (if process_list s = 0 then Some (0, s)
      else let next = fld (current_process s) PROC_NEXT s;
               next = (if next = 0 then process_list s else next)
           in get_next_loop next next s)"

definition process_yield :: "'a sched_scheme \<Rightarrow> 'a sched_scheme option" where
  "process_yield s =
     (case process_get_next s of
        None \<Rightarrow> None
      | Some (next, s1) \<Rightarrow>
          let next = (if next = 0 then process_list s1 else next) in
          if next = current_process s1 then Some s1 else Some (process_switch next s1))"

definition process_timer_tick :: "registers \<Rightarrow> 'a sched_scheme \<Rightarrow> 'a sched_scheme option" where
  "process_timer_tick regs s =
     (let s1 = s\<lparr>system_time := system_time s + 1\<rparr> in
      if system_time s1 mod 10 = 0 then process_yield s1 else Some s1)"

subsection \<open>Life cycle\<close>

definition process_init :: "u32 \<Rightarrow> 'a sched_scheme \<Rightarrow> 'a sched_scheme" where
  "process_init idle_entry s =
     (let s1 = irq_register_handler IRQ0 Process_timer_tick s;
          (idle, s2) = pmm_alloc_block s1;
          s3 = memset0 idle PROC_SIZE s2;
          s4 = strcpy (slot idle PROC_NAME) [0x69, 0x64, 0x6C, 0x65] s3;
          s5 = set_fld idle PROC_PID 0 s4;
          s6 = set_fld idle PROC_STATE RUNNING s5;
          s7 = set_fld idle PROC_PRIORITY 0 s6;
          s8 = set_fld idle PROC_PAGE_DIRECTORY (vmm_get_current_directory s7) s7;
          s9 = set_fld idle PROC_STACK_SIZE 4096 s8;
          (stack, s10) = pmm_alloc_block s9;
          s11 = set_fld idle PROC_STACK stack s10;
          s12 = set_fld idle PROC_ESP (fld idle PROC_STACK s11 + fld idle PROC_STACK_SIZE s11) s11;
          s13 = set_fld idle PROC_EBP (fld idle PROC_ESP s12) s12;
          s14 = set_fld idle PROC_EIP idle_entry s13;
          s15 = s14\<lparr>process_list := idle, current_process := idle\<rparr>
      in kprint (Puts (''Process: Initialized process manager'' @ newline)) s15)"

text \<open>\<open>*--stack = v\<close>\<close>

definition push :: "u32 \<Rightarrow> u32 \<times> 'a machine_scheme \<Rightarrow> u32 \<times> 'a machine_scheme" where
  "push v = (\<lambda>(sp, s). (sp - 4, wr32 (sp - 4) v s))"

text \<open>\<open>while (p->next) p = p->next\<close>\<close>

partial_function (option) find_last :: "u32 \<Rightarrow> 'a sched_scheme \<Rightarrow> u32 option" where
  "find_last p s = (if fld p PROC_NEXT s \<noteq> 0 then find_last (fld p PROC_NEXT s) s else Some p)"

definition process_create ::
  "(u32 \<Rightarrow> 'a sched_scheme \<Rightarrow> u32) \<Rightarrow> u8 list \<Rightarrow> u32 \<Rightarrow> u32 \<Rightarrow> u32 \<Rightarrow> 'a sched_scheme
    \<Rightarrow> (u32 \<times> 'a sched_scheme) option"
where
  "process_create mmu name entry arg priority s =
     (case pmm_alloc_block s of (proc, s1) \<Rightarrow>
        if proc = 0 then Some (0, s1)
        else
          let s2 = memset0 proc PROC_SIZE s1;
              s3 = strcpy (slot proc PROC_NAME) name s2;
              s4 = (set_fld proc PROC_PID (next_pid s3) s3)\<lparr>next_pid := next_pid s3 + 1\<rparr>;
              s5 = set_fld proc PROC_STATE READY s4;
              s6 = set_fld proc PROC_PRIORITY priority s5
          in case vmm_clone_directory mmu (vmm_get_current_directory s6) s6 of (dir, s7) \<Rightarrow>
            let s8 = set_fld proc PROC_PAGE_DIRECTORY dir s7 in
            if dir = 0 then Some (0, pmm_free_block proc s8)
            else
              let s9 = set_fld proc PROC_STACK_SIZE 16384 s8
              in case pmm_alloc_blocks (fld proc PROC_STACK_SIZE s9 div 4096) s9 of (stack, s10) \<Rightarrow>
                let s11 = set_fld proc PROC_STACK stack s10 in
                if stack = 0
                then Some (0, pmm_free_block proc (vmm_free_directory (fld proc PROC_PAGE_DIRECTORY s11) s11))
                else
                  let top = (fld proc PROC_STACK s11 + fld proc PROC_STACK_SIZE s11, s11);
                      (sp, s12) = fold push [arg, 0, 0x202, 0x08, entry, 0, 0, 0, 0, 0, 0, 0, 0] top;
                      s13 = set_fld proc PROC_ESP sp s12;
                      s14 = set_fld proc PROC_EBP (fld proc PROC_ESP s13) s13;
                      s15 = set_fld proc PROC_EIP entry s14
                  in case find_last (process_list s15) s15 of
                       None \<Rightarrow> None
                     | Some p \<Rightarrow> Some (proc, set_fld p PROC_NEXT proc s15))"

definition process_exit :: "u32 \<Rightarrow> 'a sched_scheme \<Rightarrow> 'a sched_scheme option" where
  "process_exit code s =
     (if current_process s \<noteq> 0
      then process_yield (set_fld (current_process s) PROC_STATE TERMINATED
             (set_fld (current_process s) PROC_EXIT_CODE code s))
      else Some s)"

definition process_get_current :: "'a sched_scheme \<Rightarrow> u32" where
  "process_get_current s = current_process s"

definition process_get_pid :: "'a sched_scheme \<Rightarrow> u32" where
  "process_get_pid s = (if current_process s \<noteq> 0 then fld (current_process s) PROC_PID s else - 1)"

definition process_sleep :: "u32 \<Rightarrow> 'a sched_scheme \<Rightarrow> 'a sched_scheme option" where
  "process_sleep ms s =
     (if current_process s \<noteq> 0
      then process_yield (set_fld (current_process s) PROC_STATE BLOCKED
             (set_fld (current_process s) PROC_SLEEP_UNTIL (system_time s + ms) s))
      else Some s)"

definition process_block :: "u32 \<Rightarrow> 'a sched_scheme \<Rightarrow> 'a sched_scheme option" where
  "process_block proc s =
     (if proc \<noteq> 0
      then let s1 = set_fld proc PROC_STATE BLOCKED s in
        if proc = current_process s1 then process_yield s1 else Some s1
      else Some s)"

definition process_unblock :: "u32 \<Rightarrow> 'a sched_scheme \<Rightarrow> 'a sched_scheme" where
  "process_unblock proc s =
     (if proc \<noteq> 0 \<and> fld proc PROC_STATE s = BLOCKED then set_fld proc PROC_STATE READY s else s)"

definition process_terminate :: "u32 \<Rightarrow> 'a sched_scheme \<Rightarrow> 'a sched_scheme option" where
  "process_terminate proc s =
     (if proc \<noteq> 0
      then let s1 = set_fld proc PROC_STATE TERMINATED s in
        if proc = current_process s1 then process_yield s1 else Some s1
      else Some s)"

subsection \<open>Threads\<close>

definition thread_create ::
  "u32 \<Rightarrow> u32 \<Rightarrow> u32 \<Rightarrow> bool \<Rightarrow> 'a sched_scheme \<Rightarrow> u32 \<times> 'a sched_scheme"
where
  "thread_create proc entry arg is_kernel s =
     (if proc = 0 then (0, s)
      else case pmm_alloc_block s of (thread, s1) \<Rightarrow>
        if thread = 0 then (0, s1)
        else
          let s2 = memset0 thread THREAD_SIZE s1;
              s3 = (set_fld thread THREAD_TID (next_pid s2) s2)\<lparr>next_pid := next_pid s2 + 1\<rparr>;
              s4 = set_fld thread THREAD_PARENT proc s3;
              s5 = set_fld thread THREAD_IS_KERNEL (if is_kernel then 1 else 0) s4;
              s6 = set_fld thread THREAD_STACK_SIZE 16384 s5
          in case pmm_alloc_blocks (fld thread THREAD_STACK_SIZE s6 div 4096) s6 of (stack, s7) \<Rightarrow>
            let s8 = set_fld thread THREAD_STACK stack s7 in
            if stack = 0 then (0, pmm_free_block thread s8)
            else
              let (sp, s9) = fold push [arg, 0]
                    (fld thread THREAD_STACK s8 + fld thread THREAD_STACK_SIZE s8, s8);
                  s10 = set_fld thread THREAD_ESP sp s9;
                  s11 = set_fld thread THREAD_EBP (fld thread THREAD_ESP s10) s10
              in (thread, set_fld thread THREAD_EIP entry s11))"

definition thread_exit :: "u32 \<Rightarrow> 'a sched_scheme \<Rightarrow> 'a sched_scheme option" where
  "thread_exit code s = process_exit code s"

definition thread_get_current :: "'a sched_scheme \<Rightarrow> u32" where
  "thread_get_current s = 0"

definition thread_yield :: "'a sched_scheme \<Rightarrow> 'a sched_scheme option" where
  "thread_yield s = process_yield s"

end
