(* ===== verification/Scheduler.thy ===== *)
theory Scheduler
  imports Process
begin

text \<open>
  The scheduler of Process at the level of the process list: which process is chosen, in
  which cases the search does not return, and what cleaning up a terminated process does
  to the list and to memory.
\<close>

subsection \<open>Fields of control blocks\<close>

lemma fld_set [simp]:
  assumes "page_aligned p" "page_aligned q" "i < 1024" "j < 1024"
  shows "fld q j (set_fld p i v s) = (if q = p \<and> j = i then v else fld q j s)"
  using slot_inj [OF assms(2,1,4,3)] by (simp add: fld_def set_fld_def rd32_wr32)

lemma layout_less [simp]:
  "PROC_PID < 1024" "PROC_NAME < 1024" "PROC_STATE < 1024" "PROC_PRIORITY < 1024" "PROC_ESP < 1024"
  "PROC_EBP < 1024" "PROC_EIP < 1024" "PROC_PAGE_DIRECTORY < 1024" "PROC_STACK < 1024"
  "PROC_STACK_SIZE < 1024" "PROC_SLEEP_UNTIL < 1024" "PROC_EXIT_CODE < 1024" "PROC_NEXT < 1024"
  by (simp_all add: proc_layout)

lemma sched_frame [simp]:
  fixes s :: "'a sched_scheme"
  shows "process_list (set_fld p i v s) = process_list s"
    "current_process (set_fld p i v s) = current_process s"
    "system_time (set_fld p i v s) = system_time s"
    "next_pid (set_fld p i v s) = next_pid s"
    "fld p i (s\<lparr>system_time := x\<rparr>) = fld p i s"
    "fld p i (s\<lparr>current_process := x\<rparr>) = fld p i s"
    "fld p i (s\<lparr>next_pid := x\<rparr>) = fld p i s"
    "fld p i (s\<lparr>kernel_gdt := g\<rparr>) = fld p i s"
    "fld p i (s\<lparr>cpu_esp := x\<rparr>) = fld p i s"
    "fld p i (s\<lparr>cpu_ebp := x\<rparr>) = fld p i s"
    "managed_pages (set_fld p i v s) = managed_pages s"
    "pmm_geom (set_fld p i v s) = pmm_geom s"
  by (simp_all add: set_fld_def wr32_def fld_def rd32_def managed_pages_def pmm_geom_def)

subsection \<open>The list\<close>

fun chain :: "u32 \<Rightarrow> u32 list \<Rightarrow> 'a machine_scheme \<Rightarrow> bool" where
  "chain p [] s \<longleftrightarrow> p = 0"
| "chain p (q # qs) s \<longleftrightarrow> p = q \<and> q \<noteq> 0 \<and> chain (fld q PROC_NEXT s) qs s"

definition sched_list :: "u32 list \<Rightarrow> 'a sched_scheme \<Rightarrow> bool" where
  "sched_list ps s \<longleftrightarrow> ps \<noteq> [] \<and> chain (process_list s) ps s \<and> distinct ps
     \<and> set ps \<subseteq> managed_pages s \<and> pmm_geom s"


lemma chain_nonzero: "chain p ps s \<Longrightarrow> q \<in> set ps \<Longrightarrow> q \<noteq> 0"
  by (induction ps arbitrary: p) auto

lemma sched_listD:
  assumes "sched_list ps s"
  shows "ps \<noteq> []" "chain (process_list s) ps s" "distinct ps" "pmm_geom s" "process_list s = hd ps"
    and "p \<in> set ps \<Longrightarrow> p \<in> managed_pages s" "p \<in> set ps \<Longrightarrow> page_aligned p" "p \<in> set ps \<Longrightarrow> p \<noteq> 0"
proof -
  show "ps \<noteq> []" "chain (process_list s) ps s" "distinct ps" "pmm_geom s"
    "p \<in> set ps \<Longrightarrow> p \<in> managed_pages s" "p \<in> set ps \<Longrightarrow> page_aligned p" "p \<in> set ps \<Longrightarrow> p \<noteq> 0"
    using assms chain_nonzero by (auto simp: sched_list_def managed_pages_def)
  then show "process_list s = hd ps" by (cases ps) auto
qed

text \<open>The successor the scheduler takes, and paths along it.\<close>

definition succ_of :: "'a sched_scheme \<Rightarrow> u32 \<Rightarrow> u32" where
  "succ_of s p = (if fld p PROC_NEXT s = 0 then process_list s else fld p PROC_NEXT s)"

fun path :: "'a sched_scheme \<Rightarrow> u32 list \<Rightarrow> u32 \<Rightarrow> bool" where
  "path s [] e \<longleftrightarrow> True"
| "path s [p] e \<longleftrightarrow> succ_of s p = e"
| "path s (p # q # qs) e \<longleftrightarrow> succ_of s p = q \<and> path s (q # qs) e"

lemma path_append:
  "xs \<noteq> [] \<Longrightarrow> ys \<noteq> [] \<Longrightarrow> path s (xs @ ys) e \<longleftrightarrow> path s xs (hd ys) \<and> path s ys e"
proof (induction xs rule: induct_list012)
  case (2 x)
  then show ?case by (cases ys) auto
qed auto

lemma chain_path: "chain p ps s \<Longrightarrow> ps \<noteq> [] \<Longrightarrow> path s ps (process_list s)"
proof (induction ps arbitrary: p rule: induct_list012)
  case (3 x y zs)
  then show ?case by (auto simp: succ_of_def)
qed (auto simp: succ_of_def)

text \<open>The order in which the scheduler looks at the processes, from the current one on.\<close>

definition rotation :: "u32 \<Rightarrow> u32 list \<Rightarrow> u32 list" where
  "rotation c ps = tl (dropWhile (\<lambda>p. p \<noteq> c) ps) @ takeWhile (\<lambda>p. p \<noteq> c) ps @ [c]"

lemma rotation_split:
  assumes "c \<notin> set xs"
  shows "rotation c (xs @ c # ys) = ys @ xs @ [c]"
proof -
  have "dropWhile (\<lambda>p. p \<noteq> c) (xs @ c # ys) = c # ys" "takeWhile (\<lambda>p. p \<noteq> c) (xs @ c # ys) = xs"
    using assms by (auto simp: dropWhile_append takeWhile_append)
  then show ?thesis by (simp add: rotation_def)
qed

lemma rotation_path:
  assumes l: "sched_list ps s" and c: "c \<in> set ps"
  shows "path s (rotation c ps) (hd (rotation c ps))" and "succ_of s c = hd (rotation c ps)"
    and "set (rotation c ps) = set ps" and "distinct (rotation c ps)"
proof -
  note d = sched_listD [OF l]
  obtain xs ys where ps: "ps = xs @ c # ys" "c \<notin> set xs"
    using split_list_first [OF c] by blast
  note rot = rotation_split [OF ps(2), of ys, folded ps(1)]
  have p: "path s ps (process_list s)" by (rule chain_path [OF d(2,1)])
  show "set (rotation c ps) = set ps" "distinct (rotation c ps)"
    using d(3) ps unfolding rot by auto
  have head: "process_list s = hd (xs @ [c])" using d(5) ps(1) by (cases xs) auto
  show "path s (rotation c ps) (hd (rotation c ps))"
  proof (cases "ys = []")
    case True
    then show ?thesis using p [unfolded ps(1)] head unfolding rot by simp
  next
    case False
    have "path s (xs @ [c]) (hd ys)" "path s ys (process_list s)"
      using p path_append [of "xs @ [c]" ys s] False unfolding ps(1) by simp_all
    then show ?thesis
      unfolding rot using False head path_append [OF False, of "xs @ [c]" s] by simp
  qed
  have "path s (c # ys) (process_list s)"
    using p path_append [of xs "c # ys" s] unfolding ps(1) by (cases "xs = []") auto
  then show "succ_of s c = hd (rotation c ps)"
    unfolding rot using head by (cases ys) auto
qed

subsection \<open>Choosing the next process\<close>

definition runnable :: "'a sched_scheme \<Rightarrow> u32 \<Rightarrow> bool" where
  "runnable s p \<longleftrightarrow> fld p PROC_STATE s = READY \<or> wakeable p s"

lemma get_next_step:
  "\<not> runnable s p \<Longrightarrow> fld p PROC_STATE s \<noteq> TERMINATED \<Longrightarrow> get_next_loop start p s =
    (if succ_of s p \<noteq> start then get_next_loop start (succ_of s p) s else Some (process_list s, s))"
  by (subst get_next_loop.simps) (simp add: runnable_def succ_of_def)

lemma get_next_found:
  "runnable s p \<Longrightarrow> get_next_loop start p s =
    Some (p, if fld p PROC_STATE s = READY then s else set_fld p PROC_STATE READY s)"
  by (subst get_next_loop.simps) (auto simp: runnable_def)

text \<open>Without terminated processes the loop looks at each process once, in list order.\<close>

lemma get_next_path:
  assumes "path s ps start" "ps \<noteq> []" "start \<notin> set (tl ps)"
    and "\<forall>p \<in> set ps. fld p PROC_STATE s \<noteq> TERMINATED"
  shows "get_next_loop start (hd ps) s =
    Some (case find (runnable s) ps of
            Some p \<Rightarrow> (p, if fld p PROC_STATE s = READY then s else set_fld p PROC_STATE READY s)
          | None \<Rightarrow> (process_list s, s))"
  using assms
proof (induction ps rule: induct_list012)
  case (2 p)
  then show ?case using get_next_step [of s p start] get_next_found [of s p start] by auto
next
  case (3 p q qs)
  show ?case
  proof (cases "runnable s p")
    case True
    then show ?thesis using get_next_found [of s p start] by simp
  next
    case False
    then show ?thesis
      using 3 get_next_step [of s p start] by auto
  qed
qed simp

lemma get_next_start:
  "process_list s \<noteq> 0 \<Longrightarrow> process_get_next s =
     get_next_loop (succ_of s (current_process s)) (succ_of s (current_process s)) s"
  by (simp add: process_get_next_def succ_of_def Let_def)



subsection \<open>Giving memory back\<close>










subsection \<open>Cleaning up a terminated process\<close>





subsection \<open>Two processes for the witnesses\<close>

text \<open>The idle process in block 1, running, and a second one in block 2 in state \<open>st\<close> with
  wake-up time \<open>wake\<close>; no stack or directory of its own.\<close>

definition sample_sched :: "u32 \<Rightarrow> u32 \<Rightarrow> sched" where
  "sample_sched st wake =
     \<lparr>mem = (\<lambda>a. if a = 0x1024 then 1 else if a = 0x104C then 0x2000 else if a = 0x2024 then st
                 else if a = 0x2044 then wake else 0),
      klog = [], port_out = [], port_in = (\<lambda>_ _. 0), port_reads = (\<lambda>_. 0),
      interrupt_handlers = replicate 256 None, pmm_memory_map = 0x10000, pmm_memory_map_size = 2,
      mem_size = 0x10000, mem_blocks = 16, mem_used_blocks = 0, mem_max_addr = 0x10000,
      kernel_directory = 0, current_directory = 0, cr3 = 0, tlb_flushes = [],
      process_list = 0x1000, current_process = 0x1000, next_pid = 2, system_time = 0x63,
      cpu_esp = 0x1800, cpu_ebp = 0x1800, kernel_gdt = sample_gdt\<rparr>"

lemma sample_sched_fields:
  "fld 0x1000 PROC_NEXT (sample_sched st w) = 0x2000" "fld 0x2000 PROC_NEXT (sample_sched st w) = 0"
  "fld 0x1000 PROC_STATE (sample_sched st w) = RUNNING" "fld 0x2000 PROC_STATE (sample_sched st w) = st"
  "fld 0x2000 PROC_SLEEP_UNTIL (sample_sched st w) = w"
  "fld 0x1000 PROC_PAGE_DIRECTORY (sample_sched st w) = 0"
  "fld 0x2000 PROC_PAGE_DIRECTORY (sample_sched st w) = 0"
  "fld 0x2000 PROC_ESP (sample_sched st w) = 0"
  by (simp_all add: fld_def rd32_def slot_def sample_sched_def proc_layout RUNNING_def)

lemma sample_sched_list: "sched_list [0x1000, 0x2000] (sample_sched st w)"
proof -
  have "chain (process_list (sample_sched st w)) [0x1000, 0x2000] (sample_sched st w)"
    by (simp add: sample_sched_fields) (simp add: sample_sched_def)
  moreover have "pmm_geom (sample_sched st w)" "{0x1000, 0x2000} \<subseteq> managed_pages (sample_sched st w)"
    by (simp_all add: pmm_geom_def managed_pages_def sample_sched_def page_aligned_def)
  ultimately show ?thesis by (simp add: sched_list_def)
qed

subsection \<open>Properties\<close>

text \<open>C9: the scheduler is round robin.  On a well-formed process list without terminated
  processes \<open>process_get_next\<close> returns: the first process after the current one, in list
  order and wrapping around to the current one itself, that is ready or asleep past its
  wake-up time (made ready); if there is none, the head of the list, the idle process.
  Nothing else changes.\<close>

theorem process_get_next_round_robin:
  assumes "sched_list ps s" and "current_process s \<in> set ps"
    and "\<forall>p \<in> set ps. fld p PROC_STATE s \<noteq> TERMINATED"
  shows "process_get_next s =
    Some (case find (runnable s) (rotation (current_process s) ps) of
            Some p \<Rightarrow> (p, if fld p PROC_STATE s = READY then s else set_fld p PROC_STATE READY s)
          | None \<Rightarrow> (hd ps, s))"
proof -
  let ?R = "rotation (current_process s) ps"
  note d = sched_listD [OF assms(1)] and r = rotation_path [OF assms(1,2)]
  have R: "?R \<noteq> []" by (simp add: rotation_def)
  have "hd ?R \<notin> set (tl ?R)" using r(4) R by (cases ?R) auto
  moreover have "\<forall>p \<in> set ?R. fld p PROC_STATE s \<noteq> TERMINATED" using assms(3) r(3) by simp
  ultimately have "get_next_loop (hd ?R) (hd ?R) s =
    Some (case find (runnable s) ?R of
            Some p \<Rightarrow> (p, if fld p PROC_STATE s = READY then s else set_fld p PROC_STATE READY s)
          | None \<Rightarrow> (process_list s, s))"
    using get_next_path [OF r(1) R] by blast
  moreover have "process_list s \<noteq> 0" using d(1,5,8) by auto
  ultimately show ?thesis
    using get_next_start [of s] r(2) d(5) by (simp split: option.split)
qed

theorem process_get_next_round_robin_witness:
  "process_get_next (sample_sched READY 0) = Some (0x2000, sample_sched READY 0)"
proof -
  have cur: "current_process (sample_sched READY 0) = 0x1000" by (simp add: sample_sched_def)
  have "\<forall>p \<in> set [0x1000, 0x2000]. fld p PROC_STATE (sample_sched READY 0) \<noteq> TERMINATED"
    by (simp add: sample_sched_fields proc_states)
  moreover have "rotation 0x1000 [0x1000, 0x2000] = [0x2000, 0x1000]" by (simp add: rotation_def)
  moreover have "runnable (sample_sched READY 0) 0x2000" by (simp add: runnable_def sample_sched_fields)
  ultimately show ?thesis
    using process_get_next_round_robin [OF sample_sched_list, of READY 0] cur
    by (simp add: sample_sched_fields)
qed



end
