(* ===== verification/Ipv4_Routes.thy ===== *)
theory Ipv4_Routes
  imports Ipv4 "HOL-Library.Multiset"
begin

text \<open>
  The routing table and the address predicates of IPv4: the table stays sorted by metric
  whatever the operations, and a lookup is the first match in it, which is a match of
  lowest metric.
\<close>

subsection \<open>The table as a sorted list\<close>

abbreviation route_metric :: "u32 \<times> ipv4_route \<Rightarrow> u32" where
  "route_metric r \<equiv> metric (snd r)"

definition routes_sorted :: "'a ipv4_scheme \<Rightarrow> bool" where
  "routes_sorted s \<longleftrightarrow> sorted (map route_metric (routes s))"

lemma mset_insert_route [simp]: "mset (insert_route r rs) = add_mset r (mset rs)"
  by (induction rs) auto

lemma set_insert_route [simp]: "set (insert_route r rs) = insert r (set rs)"
  by (induction rs) auto

lemma sorted_insert_route:
  "sorted (map route_metric rs) \<Longrightarrow> sorted (map route_metric (insert_route r rs))"
  by (induction rs) (auto simp: not_le intro: order.strict_implies_order)

lemma take_route_subseq:
  "take_route n m rs = Some (p, rs') \<Longrightarrow> \<exists>xs r ys. rs = xs @ (p, r) # ys \<and> rs' = xs @ ys
     \<and> network r = n \<and> netmask r = m"
proof (induction rs arbitrary: rs')
  case (Cons a rs)
  obtain q r where a: "a = (q, r)" by fastforce
  show ?case
  proof (cases "network r = n \<and> netmask r = m")
    case True
    then have "a # rs = [] @ (p, r) # rs \<and> rs' = [] @ rs" using Cons.prems a by simp
    with True show ?thesis by blast
  next
    case False
    then obtain rs'' where r: "take_route n m rs = Some (p, rs'')" "rs' = (q, r) # rs''"
      using Cons.prems a by (auto split: if_splits)
    with Cons.IH obtain xs r' ys where "rs = xs @ (p, r') # ys" "rs'' = xs @ ys"
        "network r' = n" "netmask r' = m" by blast
    then have "a # rs = (a # xs) @ (p, r') # ys \<and> rs' = (a # xs) @ ys" using r a by simp
    with \<open>network r' = n\<close> \<open>netmask r' = m\<close> show ?thesis by blast
  qed
qed simp

subsection \<open>Lookup\<close>

definition better :: "(u32 \<times> ipv4_route) option \<Rightarrow> u32 \<times> ipv4_route \<Rightarrow> bool" where
  "better best r \<longleftrightarrow> (case best of None \<Rightarrow> True | Some b \<Rightarrow> route_metric r < route_metric b)"

lemma best_route_append:
  "best_route dest best (xs @ ys) = best_route dest (best_route dest best xs) ys"
  by (induction xs arbitrary: best) auto

text \<open>In a sorted tail nothing beats a match already found with a metric not above it.\<close>

lemma best_route_keep:
  assumes "\<forall>r \<in> set rs. route_metric b \<le> route_metric r"
  shows "best_route dest (Some b) rs = Some b"
  using assms by (induction rs) (auto simp: not_less)

lemma best_route_find:
  "sorted (map route_metric rs) \<Longrightarrow> best_route dest None rs = find (\<lambda>r. route_matches dest (snd r)) rs"
proof (induction rs)
  case (Cons r rs)
  then show ?case using best_route_keep [of rs r dest] by auto
qed simp

lemma ipv4_find_route_first:
  "routes_sorted s \<Longrightarrow> ipv4_find_route dest s = find (\<lambda>r. route_matches dest (snd r)) (routes s)"
  by (simp add: ipv4_find_route_def best_route_find routes_sorted_def)

lemma find_in_set: "find P xs = Some x \<Longrightarrow> x \<in> set xs"
  by (induction xs) (auto split: if_splits)

lemma find_insert_route:
  assumes "sorted (map route_metric rs)"
  shows "find (\<lambda>r. route_matches dest (snd r)) (insert_route r rs)
    = (if route_matches dest (snd r) \<and> better (find (\<lambda>r. route_matches dest (snd r)) rs) r
       then Some r else find (\<lambda>r. route_matches dest (snd r)) rs)"
  using assms
proof (induction rs)
  case (Cons a rs)
  show ?case
  proof (cases "route_metric a \<le> route_metric r")
    case True
    then show ?thesis using Cons by (auto simp: better_def)
  next
    case False
    then have "\<forall>b \<in> set (a # rs). route_metric r < route_metric b" using Cons.prems by force
    then have "better (find (\<lambda>r. route_matches dest (snd r)) (a # rs)) r"
      using find_in_set [of "\<lambda>r. route_matches dest (snd r)" "a # rs"]
      by (cases "find (\<lambda>r. route_matches dest (snd r)) (a # rs)") (simp_all only: better_def option.case)
    then show ?thesis using False by simp
  qed
qed (simp add: better_def)

lemma routes_mem_only: "mem_only s t \<Longrightarrow> routes t = routes (s :: 'a ipv4_scheme)"
  by (auto simp: mem_only_def)

lemma routes_free [simp]: "routes (pmm_free_blocks p n s) = routes (s :: 'a ipv4_scheme)"
  by (rule routes_mem_only) simp

lemma routes_alloc: "pmm_alloc_blocks n s = (q, t) \<Longrightarrow> routes t = routes (s :: 'a ipv4_scheme)"
  using mem_only_pmm(3) [of s n] by (simp add: routes_mem_only)

lemma flush_empty: "routes (ipv4_flush_routes s) = ([] :: (u32 \<times> ipv4_route) list)"
proof -
  have "routes (fold (\<lambda>(p, r) t. pmm_free_blocks p 1 (t\<lparr>routes := tl (routes t)\<rparr>)) rs t) = []"
    if "length (routes t) = length rs" for rs and t :: "'a ipv4_scheme"
    using that by (induction rs arbitrary: t) auto
  from this [of s "routes s"] show ?thesis by (simp add: ipv4_flush_routes_def)
qed

lemma add_route_cases:
  assumes "ipv4_add_route n m gw iface k s = (ok, t)"
  shows "(\<not> ok \<and> routes t = routes s) \<or>
    (ok \<and> (\<exists>p r. routes t = insert_route (p, r) (routes s) \<and> network r = n \<and> netmask r = m
      \<and> route_iface r = iface \<and> metric r = k))"
proof (cases "iface = 0 \<or> fst (pmm_alloc_blocks 1 s) = 0")
  case False
  obtain p u where u: "pmm_alloc_blocks 1 s = (p, u)" by fastforce
  then show ?thesis using assms False routes_alloc [OF u]
    by (intro disjI2 conjI exI [of _ p] exI [of _ "\<lparr>network = n, netmask = m,
        gateway = (case gw of None \<Rightarrow> Addr 0 0 0 0 | Some g \<Rightarrow> g), route_iface = iface, metric = k\<rparr>"])
      (auto simp: ipv4_add_route_def)
next
  case True
  obtain p u where u: "pmm_alloc_blocks 1 s = (p, u)" by fastforce
  have "\<not> ok \<and> (t = s \<or> t = u)" using assms True u
    by (cases "iface = 0") (auto simp: ipv4_add_route_def)
  then show ?thesis using routes_alloc [OF u] by auto
qed

definition sample_config :: ipv4_config where
  "sample_config = \<lparr>cfg_addr = Addr 10 0 0 1, cfg_netmask = Addr 255 0 0 0,
     cfg_broadcast = Addr 10 255 255 255, cfg_gateway = Addr 10 0 0 254, dhcp_enabled = False,
     dhcp_lease_time = 0\<rparr>"

definition sample_ipv4 :: "(u32 \<times> ipv4_route) list \<Rightarrow> 'a \<Rightarrow> 'a ipv4_scheme" where
  "sample_ipv4 rs x = sample_state \<lparr>routes = rs, ip_stats = no_stats, ip_id = 0,
     reassembly_buffers = (\<lambda>_. no_buffer), config_at = (\<lambda>_. sample_config), \<dots> = x\<rparr>"

lemma sample_ipv4_routes [simp]: "routes (sample_ipv4 rs x) = rs"
  by (simp add: sample_ipv4_def sample_state_def)

lemma sample_ipv4_alloc: "fst (pmm_alloc_blocks 1 (sample_ipv4 rs x)) = 0x4000"
  by (simp add: sample_eval sample_ipv4_def sample_state_def)

subsection \<open>Properties\<close>

text \<open>C37: the routing table is sorted by metric at all times: it is after \<open>ipv4_init\<close>, and
  adding a route, whether it succeeds or not, removing one and flushing the table keep it
  so.  Adding keeps the routes there are, and removing takes out one node with the given
  network and mask or nothing.\<close>

theorem ipv4_routes_stay_sorted:
  assumes "routes_sorted s"
  shows "routes_sorted (ipv4_init s) \<and> routes_sorted (ipv4_flush_routes s)
    \<and> (let (ok, t) = ipv4_add_route n m gw iface k s in
         routes_sorted t \<and> (if ok then \<exists>x. mset (routes t) = add_mset x (mset (routes s))
                            else routes t = routes s))
    \<and> (let (ok, t) = ipv4_remove_route n m s in
         routes_sorted t \<and> (if ok then \<exists>x. add_mset x (mset (routes t)) = mset (routes s)
                              \<and> network (snd x) = n \<and> netmask (snd x) = m
                            else routes t = routes s))"
proof -
  obtain ok t where add: "ipv4_add_route n m gw iface k s = (ok, t)" by fastforce
  have "routes_sorted t \<and> (if ok then \<exists>x. mset (routes t) = add_mset x (mset (routes s))
                            else routes t = routes s)"
    using add_route_cases [OF add] assms
    by (elim disjE conjE exE) (simp_all add: routes_sorted_def sorted_insert_route, blast?)
  moreover have "let (ok, t) = ipv4_remove_route n m s in
         routes_sorted t \<and> (if ok then \<exists>x. add_mset x (mset (routes t)) = mset (routes s)
                              \<and> network (snd x) = n \<and> netmask (snd x) = m
                            else routes t = routes s)"
  proof (cases "take_route n m (routes s)")
    case (Some pr)
    obtain p rs where "pr = (p, rs)" by fastforce
    with take_route_subseq Some obtain xs r ys where
      x: "routes s = xs @ (p, r) # ys" "rs = xs @ ys" "network r = n" "netmask r = m" by blast
    then have "\<exists>x. add_mset x (mset rs) = mset (routes s) \<and> network (snd x) = n \<and> netmask (snd x) = m"
      by (intro exI [of _ "(p, r)"]) simp
    moreover have "sorted (map route_metric rs)"
      using assms x by (auto simp: routes_sorted_def sorted_append)
    ultimately show ?thesis
      using Some \<open>pr = (p, rs)\<close> by (simp add: ipv4_remove_route_def routes_sorted_def)
  qed (simp add: ipv4_remove_route_def assms)
  moreover have "routes_sorted (ipv4_init s) \<and> routes_sorted (ipv4_flush_routes s)"
    by (simp add: routes_sorted_def flush_empty ipv4_init_def kprint_def)
  ultimately show ?thesis by (simp only: add Let_def prod.case) blast
qed

theorem ipv4_routes_stay_sorted_witness:
  "routes_sorted (ipv4_flush_routes (sample_ipv4 [] ()))"
  using ipv4_routes_stay_sorted [of "sample_ipv4 [] ()"] by (simp add: routes_sorted_def)

text \<open>C38: a new route takes exactly the lookups it should.  After a successful
  \<open>ipv4_add_route\<close> on a sorted table, a destination finds the new route when that matches
  and no matching route has a metric as low as the new one, and finds what it found
  before in all other cases: among matching routes the lowest metric wins and the older
  route wins a tie, whatever the length of the masks.\<close>

theorem ipv4_add_route_lookup:
  assumes "routes_sorted s" and "ipv4_add_route n m gw iface k s = (True, t)"
  shows "\<exists>p r. network r = n \<and> netmask r = m \<and> route_iface r = iface \<and> metric r = k
    \<and> (\<forall>dest. ipv4_find_route dest t =
         (if route_matches dest r
             \<and> (case ipv4_find_route dest s of None \<Rightarrow> True | Some b \<Rightarrow> k < metric (snd b))
          then Some (p, r) else ipv4_find_route dest s))"
proof -
  obtain p r where r: "routes t = insert_route (p, r) (routes s)"
      "network r = n" "netmask r = m" "route_iface r = iface" "metric r = k"
    using add_route_cases [OF assms(2)] by auto
  have "routes_sorted t" using assms(1) r by (simp add: routes_sorted_def sorted_insert_route)
  then have "ipv4_find_route dest t =
      (if route_matches dest r \<and> better (ipv4_find_route dest s) (p, r)
       then Some (p, r) else ipv4_find_route dest s)" for dest
    using r assms(1) by (simp add: ipv4_find_route_first find_insert_route routes_sorted_def)
  moreover have "better x (p, r) = (case x of None \<Rightarrow> True | Some b \<Rightarrow> k < metric (snd b))" for x
    using r by (cases x) (simp_all add: better_def)
  ultimately have "\<forall>dest. ipv4_find_route dest t =
      (if route_matches dest r
          \<and> (case ipv4_find_route dest s of None \<Rightarrow> True | Some b \<Rightarrow> k < metric (snd b))
       then Some (p, r) else ipv4_find_route dest s)"
    by simp
  with r(2-) show ?thesis by blast
qed

theorem ipv4_add_route_lookup_witness:
  "\<exists>t p r. ipv4_add_route (Addr 10 0 0 0) (Addr 255 0 0 0) None 0x100 5 (sample_ipv4 [] ()) = (True, t)
    \<and> route_iface r = 0x100 \<and> ipv4_find_route (Addr 10 1 2 3) t = Some (p, r)"
proof -
  have s: "routes_sorted (sample_ipv4 [] ())" by (simp add: routes_sorted_def)
  obtain t where t: "ipv4_add_route (Addr 10 0 0 0) (Addr 255 0 0 0) None 0x100 5 (sample_ipv4 [] ()) = (True, t)"
    using sample_ipv4_alloc [of "[]" "()"]
    by (cases "pmm_alloc_blocks 1 (sample_ipv4 [] ())") (simp add: ipv4_add_route_def)
  have "route_matches (Addr 10 1 2 3) r" if "network r = Addr 10 0 0 0" "netmask r = Addr 255 0 0 0" for r
  proof -
    have "{0..<4} = {0, 1, 2, 3 :: nat}" by auto
    with that show ?thesis by (simp add: route_matches_def)
  qed
  with ipv4_add_route_lookup [OF s t] show ?thesis
    using t by (auto simp: ipv4_find_route_def)
qed

text \<open>\<open>ipv4_addr_is_broadcast\<close> recognises no broadcast address: it holds for one pair
  only, the address 0.0.0.0 with the mask 255.255.255.255.\<close>

theorem ipv4_broadcast_never:
  "ipv4_addr_is_broadcast a m \<longleftrightarrow> a = Addr 0 0 0 0 \<and> m = Addr 255 255 255 255"
proof -
  have one: "x AND y = 0xFF AND NOT y \<longleftrightarrow> x = 0 \<and> y = 255" for x y :: u8
  proof
    assume eq: "x AND y = 0xFF AND NOT y"
    have "bit (x AND y) n = bit (0xFF AND NOT y) n" for n by (simp only: eq)
    then have b: "bit y n \<and> \<not> bit x n" if "n < 8" for n
      using that by (auto simp: mask_consts bit_simps)
    then have "x = 0" "y = mask 8"
      by (auto intro!: bit_word_eqI simp: bit_simps)
    then show "x = 0 \<and> y = 255" by (simp add: mask_eq_exp_minus_1)
  qed simp
  have "{0..<4} = {0, 1, 2, 3 :: nat}" by auto
  then show ?thesis
    by (cases a; cases m) (auto simp: ipv4_addr_is_broadcast_def one)
qed

end
