(* ===== verification/Ipv4_Fragment.thy ===== *)
theory Ipv4_Fragment
  imports Ipv4_Routes Packet_Alloc
begin

text \<open>
  Fragmentation: the frames \<open>ipv4_fragment_packet\<close> puts on the wire carry the payload of
  the packet, each with a header of its own.  The driver is one that transmits the bytes
  of the packet it is given; the wire is the component that extends the IPv4 state.
\<close>

definition frame_of :: "u32 \<Rightarrow> 'a net_scheme \<Rightarrow> u8 list" where
  "frame_of p s = get_at 0 (unat (pkt_length (packet_at s p))) (pkt_data (packet_at s p))"

definition transmits :: "u8 list list ipv4_scheme callees \<Rightarrow> bool" where
  "transmits d \<longleftrightarrow> (\<forall>f i p s. call_send d f i p s = (True, s\<lparr>ipv4.more := ipv4.more s @ [frame_of p s]\<rparr>))"

subsection \<open>Headers and their bytes\<close>

lemma length_header_bytes [simp]: "length (header_bytes h) = 20"
  by (simp add: header_bytes_def)

lemma get_put_header [simp]: "get_header (\<lambda>k. (header_bytes h @ xs) ! k) = h"
  by (cases "hdr_src h"; cases "hdr_dest h")
    (simp add: get_header_def header_bytes_def get16_def bytes16_def get_addr_def)

lemma frame_bytes:
  "length xs = n \<Longrightarrow> get_at 0 (20 + n) (put_header h (put_at 20 xs b)) = header_bytes h @ xs"
  by (simp add: put_header_def get_at_split get_at_put_apart)

subsection \<open>The frames of a fragmented packet\<close>

definition size_of :: "nat \<Rightarrow> nat \<Rightarrow> nat \<Rightarrow> nat \<Rightarrow> nat" where
  "size_of len mx num j = (if j = num - 1 then len - j * mx else mx)"

definition fragment_frame :: "ipv4_header \<Rightarrow> buffer \<Rightarrow> nat \<Rightarrow> nat \<Rightarrow> nat \<Rightarrow> nat \<Rightarrow> u8 list" where
  "fragment_frame h b len mx num j =
     header_bytes (fragment_header h (j < num - 1) (of_nat (j * mx)) (of_nat (size_of len mx num j)))
     @ get_at (20 + j * mx) (size_of len mx num j) b"

definition divides_into :: "nat \<Rightarrow> nat \<Rightarrow> nat \<Rightarrow> bool" where
  "divides_into len mx num \<longleftrightarrow> 0 < mx \<and> 0 < num \<and> (num - 1) * mx < len \<and> len \<le> num * mx"

lemma size_of_bounds:
  assumes "divides_into len mx num" "j < num"
  shows "0 < size_of len mx num j" "size_of len mx num j \<le> mx" "j * mx + size_of len mx num j \<le> len"
    and "j + 1 < num \<Longrightarrow> j * mx + size_of len mx num j = (j + 1) * mx"
proof -
  have k: "k * mx \<le> (num - 1) * mx" if "k \<le> num - 1" for k using that by simp
  have "num * mx = (num - 1) * mx + mx"
    using assms(2) by (metis Suc_diff_1 add.commute less_nat_zero_code mult_Suc neq0_conv)
  then show "0 < size_of len mx num j" "size_of len mx num j \<le> mx" "j * mx + size_of len mx num j \<le> len"
  proof (atomize (full), cases "j = num - 1")
    case False
    then have "j + 1 \<le> num - 1" using assms(2) by linarith
    then have "j * mx + mx \<le> (num - 1) * mx" using k [of "j + 1"] by simp
    then show "0 < size_of len mx num j \<and> size_of len mx num j \<le> mx \<and> j * mx + size_of len mx num j \<le> len"
      using False assms(1) by (auto simp: size_of_def divides_into_def)
  qed (use assms(1) in \<open>auto simp: size_of_def divides_into_def\<close>)
  show "j * mx + size_of len mx num j = (j + 1) * mx" if "j + 1 < num"
  proof -
    have "j \<noteq> num - 1" using that by linarith
    then show ?thesis by (simp add: size_of_def)
  qed
qed

text \<open>Sending one fragment.\<close>

definition ready :: "u32 \<Rightarrow> net_packet \<Rightarrow> u8 list list ipv4_scheme \<Rightarrow> bool" where
  "ready packet pk s \<longleftrightarrow> pmm_inv s \<and> packet \<in> owned_pages s \<and> packet_at s packet = pk
     \<and> pkt_iface pk \<noteq> 0 \<and> send_fn (iface_at s (pkt_iface pk)) \<noteq> 0"

lemma set_iface_fields [simp]:
  "pmm_inv (set_iface i f s) = pmm_inv s" "owned_pages (set_iface i f s) = owned_pages s"
  "free_count (set_iface i f s) = free_count s" "packet_at (set_iface i f s) = packet_at s"
  "net.more (set_iface i f s) = net.more s"
  "iface_at (set_iface i f s) = (iface_at s)(i := f (iface_at s i))"
  by (simp_all add: set_iface_def pmm_inv_def pmm_geom_def owned_pages_def used_set_def
      pmm_test_block_def bm_addr_def rd32_def free_count_def)

lemma wire_fields [simp]:
  "pmm_inv (s\<lparr>ipv4.more := w\<rparr>) = pmm_inv s" "owned_pages (s\<lparr>ipv4.more := w\<rparr>) = owned_pages s"
  "free_count (s\<lparr>ipv4.more := w\<rparr>) = free_count s"
  by (simp_all add: pmm_inv_def pmm_geom_def owned_pages_def used_set_def
      pmm_test_block_def bm_addr_def rd32_def free_count_def)

lemma ipv4_more_net: "net.more t = net.more s \<Longrightarrow> ipv4.more t = ipv4.more (s :: 'a ipv4_scheme)"
  by (cases s; cases t) simp

lemma send_transmits:
  assumes "transmits d" "ready packet pk s" "q \<noteq> 0"
  obtains t where "net_send_packet d (pkt_iface pk) q s = (True, t)"
    and "ipv4.more t = ipv4.more s @ [frame_of q s]" "free_count t = free_count s"
    and "pmm_inv t" "owned_pages t = owned_pages s" "packet_at t = packet_at s"
    and "send_fn (iface_at t (pkt_iface pk)) \<noteq> 0"
proof (rule that)
  define u where "u = set_iface (pkt_iface pk) (upd_stats (\<lambda>st. st\<lparr>tx_packets := tx_packets st + 1,
      tx_bytes := tx_bytes st + ucast (pkt_length (packet_at s q))\<rparr>)) s"
  have f: "frame_of q u = frame_of q s" by (simp add: frame_of_def u_def)
  show "net_send_packet d (pkt_iface pk) q s = (True, u\<lparr>ipv4.more := ipv4.more u @ [frame_of q u]\<rparr>)"
    using assms unfolding net_send_packet_def u_def by (simp add: transmits_def ready_def Let_def)
  show "ipv4.more (u\<lparr>ipv4.more := ipv4.more u @ [frame_of q u]\<rparr>) = ipv4.more s @ [frame_of q s]"
    using ipv4_more_net [of u s] f by (simp add: u_def)
qed (use assms(2) in \<open>simp_all add: ready_def upd_stats_def\<close>)

lemma u16_of_nat: "n < 65536 \<Longrightarrow> unat (of_nat n :: u16) = n"
  by (simp add: unat_of_nat)

lemma fragment_words:
  fixes lenw mxw numw i :: u16
  assumes "divides_into (unat lenw) (unat mxw) (unat numw)" "i < numw"
  defines "j \<equiv> unat i"
  defines "sz \<equiv> size_of (unat lenw) (unat mxw) (unat numw) j"
  shows "(if i = numw - 1 then lenw - of_nat (j * unat mxw) else mxw) = of_nat sz"
    and "i < numw - 1 \<longleftrightarrow> j < unat numw - 1"
    and "unat (of_nat (j * unat mxw) :: u16) = j * unat mxw" "unat (of_nat sz :: u16) = sz"
proof -
  have j: "j < unat numw" using assms(2) by (simp add: j_def word_less_nat_alt)
  note b = size_of_bounds [OF assms(1) j, folded sz_def]
  have L: "unat lenw < 65536" using unsigned_less [of lenw, where 'a = nat] by simp
  have n1: "unat (numw - 1) = unat numw - 1"
    using j by (subst unat_sub_small) (simp_all add: word_le_nat_alt)
  show off: "unat (of_nat (j * unat mxw) :: u16) = j * unat mxw" "unat (of_nat sz :: u16) = sz"
    using b L by (intro u16_of_nat; linarith)+
  show "i < numw - 1 \<longleftrightarrow> j < unat numw - 1" by (simp add: word_less_nat_alt n1 j_def)
  have eq: "i = numw - 1 \<longleftrightarrow> j = unat numw - 1" by (metis n1 j_def word_unat_eqI)
  show "(if i = numw - 1 then lenw - of_nat (j * unat mxw) else mxw) = of_nat sz"
  proof (cases "i = numw - 1")
    case True
    have "j * unat mxw \<le> unat lenw" using b(3) by linarith
    then have "of_nat sz = lenw - of_nat (j * unat mxw)"
      using True eq by (simp add: sz_def size_of_def of_nat_diff)
    then show ?thesis using True by simp
  next
    case False
    then show ?thesis using eq by (simp add: sz_def size_of_def)
  qed
qed

lemma fragment_loop_step:
  fixes s :: "u8 list list ipv4_scheme"
  assumes tr: "transmits d" and div: "divides_into (unat lenw) (unat mxw) (unat numw)"
    and mx: "unat mxw \<le> 1480" and rd: "ready packet pk s"
    and i: "i < numw" "offset = of_nat (unat i * unat mxw)"
  defines "frm \<equiv> fragment_frame (get_header (pkt_data pk)) (pkt_data pk) (unat lenw) (unat mxw) (unat numw)"
  obtains (fail) t where "fragment_loop d packet numw mxw lenw i offset s = (False, t)"
      "ipv4.more t = ipv4.more s" "free_count s < 2"
  | (sent) t where "fragment_loop d packet numw mxw lenw i offset s
        = fragment_loop d packet numw mxw lenw (i + 1) (offset + of_nat (size_of (unat lenw) (unat mxw) (unat numw) (unat i))) t"
      "ready packet pk t" "ipv4.more t = ipv4.more s @ [frm (unat i)]" "free_count s = free_count t + 2"
proof -
  define sz where "sz = size_of (unat lenw) (unat mxw) (unat numw) (unat i)"
  note w = fragment_words [OF div i(1), folded sz_def i(2)]
  have inv: "pmm_inv s" and own: "packet \<in> owned_pages s" and pk: "packet_at s packet = pk"
    using rd by (simp_all add: ready_def)
  have "unat i < unat numw" using i(1) by (simp add: word_less_nat_alt)
  then have b: "0 < sz" "sz \<le> 1480" using size_of_bounds [OF div] mx sz_def by (metis, metis order.trans)
  have us: "unat (ucast (of_nat sz :: u16) :: u32) = sz" using w(4) by (simp add: unat_ucast_up)
  then have len: "unat (IPV4_HEADER_LEN + ucast (of_nat sz :: u16)) = 20 + sz"
    using b by (simp add: IPV4_HEADER_LEN_def unat_add_small)
  obtain frag s1 where al: "net_alloc_packet (IPV4_HEADER_LEN + ucast (of_nat sz :: u16)) s = (frag, s1)"
    by fastforce
  note al' = net_alloc_packet_cases [OF inv _ _ al]
  have lim: "0 < IPV4_HEADER_LEN + ucast (of_nat sz :: u16)"
      "IPV4_HEADER_LEN + ucast (of_nat sz :: u16) \<le> NET_MAX_PACKET_SIZE"
    using len b by (simp_all add: word_less_nat_alt word_le_nat_alt NET_MAX_PACKET_SIZE_def)
  note al'' = al' [OF lim]
  show thesis
  proof (cases "frag = 0")
    case True
    then have "fragment_loop d packet numw mxw lenw i offset s = (False, s1)"
      using i(1) al w(1) by (subst fragment_loop.simps) (simp add: Let_def)
    then show thesis using fail al''(1,3) True ipv4_more_net by (metis not_le)
  next
    case False
    define h where "h = fragment_header (get_header (pkt_data pk)) (i < numw - 1) offset (of_nat sz)"
    define s2 where "s2 = set_packet frag (\<lambda>p. p\<lparr>pkt_data := put_header h
        (put_at 20 (get_at (20 + unat offset) sz (pkt_data pk)) (pkt_data p))\<rparr>) s1"
    note fr = al''(2) [OF False, unfolded fresh_packet_def]
    have ne: "frag \<noteq> packet" using fr own by auto
    then have pk1: "packet_at s1 packet = pk" using fr pk by simp
    have r2: "ready packet pk s2" using fr own pk1 ne rd al''(1) by (auto simp: s2_def ready_def)
    obtain t where t: "net_send_packet d (pkt_iface pk) frag s2 = (True, t)"
        "ipv4.more t = ipv4.more s2 @ [frame_of frag s2]" "free_count t = free_count s2" "pmm_inv t"
        "owned_pages t = owned_pages s2" "packet_at t = packet_at s2"
        "send_fn (iface_at t (pkt_iface pk)) \<noteq> 0"
      by (rule send_transmits [OF tr r2 False])
    have "fragment_loop d packet numw mxw lenw i offset s
        = fragment_loop d packet numw mxw lenw (i + 1) (offset + of_nat sz) t"
      using i(1) al w False pk1 ne t(1) by (subst fragment_loop.simps)
        (simp add: Let_def s2_def h_def)
    moreover have "unat (i * mxw) = unat i * unat mxw" using w(3) unfolding i(2) by simp
    then have "frame_of frag s2 = frm (unat i)"
      using fr len frame_bytes [of "get_at (20 + unat offset) sz (pkt_data pk)" sz h]
      by (simp add: frame_of_def s2_def frm_def fragment_frame_def h_def w i(2) flip: sz_def)
    moreover have "ipv4.more s2 = ipv4.more s" using al''(1) ipv4_more_net [of s2 s] by (simp add: s2_def)
    moreover have "ready packet pk t" using r2 t by (simp add: ready_def)
    moreover have "free_count s = free_count t + 2" using fr t(3) by (simp add: s2_def)
    ultimately show thesis using sent t(2) sz_def by metis
  qed
qed

lemma fragment_loop_wire:
  fixes s :: "u8 list list ipv4_scheme"
  assumes tr: "transmits d" and div: "divides_into (unat lenw) (unat mxw) (unat numw)"
    and mx: "unat mxw \<le> 1480" and rd: "ready packet pk s"
    and i: "i \<le> numw" "i < numw \<Longrightarrow> offset = of_nat (unat i * unat mxw)"
    and loop: "fragment_loop d packet numw mxw lenw i offset s = (ok, t)"
  defines "frm \<equiv> fragment_frame (get_header (pkt_data pk)) (pkt_data pk) (unat lenw) (unat mxw) (unat numw)"
  shows "\<exists>k. unat i \<le> k \<and> k \<le> unat numw \<and> ipv4.more t = ipv4.more s @ map frm [unat i..<k]
    \<and> (ok \<longrightarrow> k = unat numw) \<and> (2 * (unat numw - unat i) \<le> free_count s \<longrightarrow> ok)"
  using rd i loop
proof (induction "unat numw - unat i" arbitrary: i offset s)
  case 0
  then have "i = numw" by (simp add: word_le_nat_alt word_unat_eqI)
  then show ?case using "0.prems" by (subst (asm) fragment_loop.simps) auto
next
  case (Suc n)
  then have less: "i < numw" by (simp add: word_less_nat_alt)
  show ?case
  proof (rule fragment_loop_step [OF tr div mx Suc.prems(1) less Suc.prems(3) [OF less], folded frm_def])
    fix u
    assume "fragment_loop d packet numw mxw lenw i offset s = (False, u)"
      "ipv4.more u = ipv4.more s" "free_count s < 2"
    then show ?thesis using Suc.prems(4) Suc.hyps(2) by (intro exI [of _ "unat i"]) auto
  next
    fix u
    assume sent: "fragment_loop d packet numw mxw lenw i offset s
        = fragment_loop d packet numw mxw lenw (i + 1) (offset + of_nat (size_of (unat lenw) (unat mxw) (unat numw) (unat i))) u"
      "ready packet pk u" "ipv4.more u = ipv4.more s @ [frm (unat i)]" "free_count s = free_count u + 2"
    note ui = unat_Suc_less [OF less]
    let ?o = "offset + of_nat (size_of (unat lenw) (unat mxw) (unat numw) (unat i))"
    have off: "?o = of_nat (unat (i + 1) * unat mxw)" if "i + 1 < numw"
    proof -
      have "unat i + 1 < unat numw" using that ui by (simp add: word_less_nat_alt)
      then show ?thesis
        using size_of_bounds(4) [OF div, of "unat i"] Suc.prems(3) [OF less] ui
        by (metis Suc_eq_plus1 add_lessD1 of_nat_add)
    qed
    have n: "n = unat numw - unat (i + 1)" using Suc.hyps(2) ui by linarith
    have loop: "fragment_loop d packet numw mxw lenw (i + 1) ?o u = (ok, t)"
      using Suc.prems(4) sent(1) by simp
    obtain k where k: "unat (i + 1) \<le> k" "k \<le> unat numw"
        "ipv4.more t = ipv4.more u @ map frm [unat (i + 1)..<k]" "ok \<longrightarrow> k = unat numw"
        "2 * (unat numw - unat (i + 1)) \<le> free_count u \<longrightarrow> ok"
      using Suc.hyps(1) [OF n sent(2) word_Suc_le_of_less [OF less] off loop] by blast
    have "[unat i..<k] = unat i # [unat (i + 1)..<k]" using k(1) ui by (simp add: upt_conv_Cons)
    then show ?thesis using k sent(3,4) ui Suc.hyps(2) by (intro exI [of _ k]) auto
  qed
qed

subsection \<open>The header of a fragment\<close>

text \<open>What a fragment at byte \<open>off\<close> of the payload must look like.\<close>

definition fragment_ok :: "ipv4_header \<Rightarrow> nat \<Rightarrow> nat \<Rightarrow> bool \<Rightarrow> u8 list \<Rightarrow> bool" where
  "fragment_ok h unit off mf f \<longleftrightarrow>
     (let g = get_header (\<lambda>k. f ! k) in
      20 < length f \<and> length f \<le> unit \<and> unat (total_length g) = length f
      \<and> unat (flags_offset g AND IPV4_FRAGMENT_OFFSET_MASK) * 8 = off
      \<and> (flags_offset g AND IPV4_FLAG_MORE_FRAGMENTS \<noteq> 0 \<longleftrightarrow> mf)
      \<and> hdr_checksum g = ipv4_checksum (header_bytes (g\<lparr>hdr_checksum := 0\<rparr>))
      \<and> hdr_id g = hdr_id h \<and> hdr_src g = hdr_src h \<and> hdr_dest g = hdr_dest h
      \<and> hdr_protocol g = hdr_protocol h \<and> ttl g = ttl h)"

lemma offset_field:
  fixes w :: u16
  assumes "unat w < 8192"
  shows "w AND IPV4_FRAGMENT_OFFSET_MASK = w" "w AND IPV4_FLAG_MORE_FRAGMENTS = 0"
    and "(w OR IPV4_FLAG_MORE_FRAGMENTS) AND IPV4_FRAGMENT_OFFSET_MASK = w"
    and "(w OR IPV4_FLAG_MORE_FRAGMENTS) AND IPV4_FLAG_MORE_FRAGMENTS \<noteq> 0"
proof -
  have m: "(0x1FFF :: u16) = mask 13" "(0x2000 :: u16) = push_bit 13 1"
    by (simp_all add: mask_eq_exp_minus_1)
  have "take_bit 13 w = w" using assms by (intro word_unat_eqI) (simp add: unsigned_take_bit_eq take_bit_nat_eq_self)
  then have b: "\<not> bit w n" if "13 \<le> n" for n
    using that by (metis bit_take_bit_iff not_le)
  then have b': "bit w n \<Longrightarrow> n < 13" for n by (metis not_le)
  have "(0x2000 :: int) = push_bit 13 1" by simp
  then have x: "bit (0x2000 :: int) n \<longleftrightarrow> n = 13" for n
    by (simp only: bit_push_bit_iff bit_1_iff) auto
  show "w AND IPV4_FRAGMENT_OFFSET_MASK = w"
    unfolding IPV4_FRAGMENT_OFFSET_MASK_def m using b b' by (intro bit_word_eqI) (auto simp: bit_simps)
  show "w AND IPV4_FLAG_MORE_FRAGMENTS = 0"
    unfolding IPV4_FLAG_MORE_FRAGMENTS_def using b by (intro bit_word_eqI) (auto simp: bit_and_iff bit_or_iff bit_mask_iff x)
  show "(w OR IPV4_FLAG_MORE_FRAGMENTS) AND IPV4_FRAGMENT_OFFSET_MASK = w"
    unfolding IPV4_FRAGMENT_OFFSET_MASK_def IPV4_FLAG_MORE_FRAGMENTS_def m(1)
    using b b' by (intro bit_word_eqI) (auto simp: bit_and_iff bit_or_iff bit_mask_iff x)
  show "(w OR IPV4_FLAG_MORE_FRAGMENTS) AND IPV4_FLAG_MORE_FRAGMENTS \<noteq> 0"
    unfolding IPV4_FLAG_MORE_FRAGMENTS_def by (simp add: bit.conj_disj_distrib2)
qed

lemma fragment_frame_ok:
  assumes div: "divides_into len mx num" "j < num" and mx: "8 dvd mx" "20 + mx \<le> unit"
    and len: "len + 20 < 65536"
  shows "fragment_ok h unit (j * mx) (j + 1 < num) (fragment_frame h b len mx num j)"
proof -
  note sz = size_of_bounds [OF div]
  let ?o = "of_nat (j * mx) :: u16" and ?s = "of_nat (size_of len mx num j) :: u16"
  have o: "unat ?o = j * mx" "unat ?s = size_of len mx num j"
    using sz len by (intro u16_of_nat; linarith)+
  then have "unat (?o div 8) = j * mx div 8" by (simp add: unat_div)
  moreover have "j * mx < 65536" using sz len by linarith
  ultimately have d: "unat (?o div 8) < 8192" by simp
  have d8: "unat (?o div 8) * 8 = j * mx"
    using \<open>unat (?o div 8) = j * mx div 8\<close> mx(1) by simp
  have t: "unat (20 + ?s) = 20 + size_of len mx num j"
    using o sz len by (subst unat_add_small) simp_all
  have "j < num - 1 \<longleftrightarrow> j + 1 < num" by linarith
  then show ?thesis
    using sz mx(2) t d8 offset_field [OF d]
    by (simp add: fragment_ok_def fragment_frame_def fragment_header_def Let_def)
qed

lemma concat_payloads:
  assumes "divides_into len mx num" "k \<le> num"
  shows "concat (map (drop 20 \<circ> fragment_frame h b len mx num) [0..<k])
    = get_at 20 (if k = num then len else k * mx) b"
  using assms(2)
proof (induction k)
  case 0
  then show ?case using assms(1) by (simp add: divides_into_def)
next
  case (Suc k)
  note sz = size_of_bounds [OF assms(1), of k]
  have "k * mx + size_of len mx num k = (if Suc k = num then len else Suc k * mx)"
  proof (cases "Suc k = num")
    case True
    then have "(num - 1) * mx < len" "k = num - 1" using assms(1) by (auto simp: divides_into_def)
    then show ?thesis using True by (simp add: size_of_def)
  qed (use sz Suc.prems in auto)
  then show ?case
    using Suc get_at_split [of 20 "k * mx" "size_of len mx num k" b]
    by (simp add: fragment_frame_def)
qed

lemma fragment_sizes:
  fixes unit :: u16 and len :: u32
  assumes "28 \<le> unat unit" "unat unit \<le> 1500" "20 < unat len" "unat len \<le> 65535"
  defines "mx \<equiv> (unat unit - 20) div 8 * 8" and "n \<equiv> unat len - 20"
  shows "unat (ucast ((ucast unit - IPV4_HEADER_LEN) AND NOT 7) :: u16) = mx"
    and "unat (ucast (len - IPV4_HEADER_LEN) :: u16) = n"
    and "unat (ucast (((ucast (ucast (len - IPV4_HEADER_LEN) :: u16)
            + ucast (ucast ((ucast unit - IPV4_HEADER_LEN) AND NOT 7) :: u16) - 1) :: u32)
          div ucast (ucast ((ucast unit - IPV4_HEADER_LEN) AND NOT 7) :: u16)) :: u16) = (n + mx - 1) div mx"
    and "divides_into n mx ((n + mx - 1) div mx)" and "8 \<le> mx"
proof -
  have u: "unat (ucast unit - IPV4_HEADER_LEN) = unat unit - 20"
    using assms(1) by (subst unat_sub_small)
      (simp_all add: IPV4_HEADER_LEN_def word_le_nat_alt unat_ucast_up)
  have "(7 :: u32) = mask 3" by (simp add: mask_eq_exp_minus_1)
  then have "unat ((ucast unit - IPV4_HEADER_LEN) AND NOT (7 :: u32)) = mx"
    by (simp only: unat_and_not_mask u mx_def) simp
  moreover have "mx < 65536" using assms(2) by (simp add: mx_def)
  ultimately show mx: "unat (ucast ((ucast unit - IPV4_HEADER_LEN) AND NOT 7) :: u16) = mx"
    by (simp add: unsigned_ucast_eq take_bit_nat_eq_self)
  have "unat (len - IPV4_HEADER_LEN) = n"
    using assms(3) by (subst unat_sub_small) (simp_all add: IPV4_HEADER_LEN_def word_le_nat_alt n_def)
  moreover have "n < 65536" using assms(4) by (simp add: n_def)
  ultimately show n: "unat (ucast (len - IPV4_HEADER_LEN) :: u16) = n"
    by (simp add: unsigned_ucast_eq take_bit_nat_eq_self)
  have "1 \<le> (unat unit - 20) div 8" using assms(1) by (simp add: div_le_mono [of 8, simplified])
  then show mx8: "8 \<le> mx" by (simp add: mx_def)
  have n0: "0 < n" using assms(3) by (simp add: n_def)
  have mxl: "mx \<le> 1480" using assms(2) by (simp add: mx_def)
  let ?nw = "ucast (len - IPV4_HEADER_LEN) :: u16"
    and ?mw = "ucast ((ucast unit - IPV4_HEADER_LEN) AND NOT 7) :: u16"
  have c: "unat (ucast ?nw :: u32) = n" "unat (ucast ?mw :: u32) = mx"
    using n mx by (simp_all add: unat_ucast_up)
  have "unat (ucast ?nw + ucast ?mw :: u32) = n + mx"
    using c \<open>n < 65536\<close> mxl by (subst unat_add_small) simp_all
  then have "unat (ucast ?nw + ucast ?mw - 1 :: u32) = n + mx - 1"
    using mx8 by (subst unat_sub_small) (simp_all add: word_le_nat_alt)
  then have "unat ((ucast ?nw + ucast ?mw - 1 :: u32) div ucast ?mw) = (n + mx - 1) div mx"
    using c by (simp add: unat_div)
  moreover have "(n + mx - 1) div mx < 65536"
    using div_le_mono2 [OF _ mx8, of "n + mx - 1"] \<open>n < 65536\<close> mxl by linarith
  ultimately show "unat (ucast (((ucast ?nw + ucast ?mw - 1) :: u32) div ucast ?mw) :: u16) = (n + mx - 1) div mx"
    by (simp add: unsigned_ucast_eq take_bit_nat_eq_self)
  define q where "q = (n + mx - 1) div mx"
  have q: "q * mx \<le> n + mx - 1" "n + mx - 1 < q * mx + mx"
    using mx8 dividend_less_div_times [of mx "n + mx - 1"] by (simp_all add: q_def)
  have "0 < q" using n0 mx8 by (simp add: q_def div_greater_zero_iff)
  moreover have "(q - 1) * mx + mx = q * mx" using \<open>0 < q\<close> by (metis Suc_diff_1 add.commute mult_Suc)
  ultimately show "divides_into n mx ((n + mx - 1) div mx)"
    using q mx8 n0 unfolding q_def [symmetric] divides_into_def by linarith
qed

subsection \<open>Properties\<close>

text \<open>C14: fragmentation loses nothing.  For a packet of up to 65535 bytes that allows it, and
  an MTU from 28 to 1500, \<open>ipv4_fragment_packet\<close> returns; it puts frames on the wire in
  order, each within the MTU, with a correct checksum and length, at its own offset in
  units of 8 bytes, marked as followed by more fragments exactly if it is not the last,
  and otherwise with the header of the packet.  On success the payloads of the frames are
  the payload of the packet; and it succeeds if two blocks per fragment are free.\<close>

theorem ipv4_fragment_packet_covers:
  fixes unit :: u16
  defines "mx \<equiv> (unat unit - 20) div 8 * 8"
  assumes "transmits d" and "ready packet pk s"
    and "flags_offset (get_header (pkt_data pk)) AND IPV4_FLAG_DONT_FRAGMENT = 0"
    and "28 \<le> unat unit" and "unat unit \<le> 1500"
    and "20 < unat (pkt_length pk)" and "unat (pkt_length pk) \<le> 65535"
  shows "\<exists>ok t frames. ipv4_fragment_packet d packet unit s = Some (ok, t)
    \<and> ipv4.more t = ipv4.more s @ frames
    \<and> (\<forall>i < length frames. fragment_ok (get_header (pkt_data pk)) (unat unit)
          (length (concat (map (drop 20) (take i frames))))
          (i + 1 < (unat (pkt_length pk) - 20 + mx - 1) div mx) (frames ! i))
    \<and> (ok \<longrightarrow> concat (map (drop 20) frames) = get_at 20 (unat (pkt_length pk) - 20) (pkt_data pk))
    \<and> (2 * ((unat (pkt_length pk) - 20 + mx - 1) div mx) \<le> free_count s \<longrightarrow> ok)"
proof -
  define n where "n = unat (pkt_length pk) - 20"
  define num where "num = (n + mx - 1) div mx"
  let ?h = "get_header (pkt_data pk)"
  note sizes = fragment_sizes [OF assms(5-8), folded mx_def, folded n_def, folded num_def]
  let ?mw = "ucast ((ucast unit - IPV4_HEADER_LEN) AND NOT 7) :: u16"
    and ?nw = "ucast (pkt_length pk - IPV4_HEADER_LEN) :: u16"
  let ?q = "ucast (((ucast ?nw + ucast ?mw - 1) :: u32) div ucast ?mw) :: u16"
  obtain ok t where loop: "fragment_loop d packet ?q ?mw ?nw 0 0 s = (ok, t)" by fastforce
  have "?mw \<noteq> 0" using sizes(1,5) by (metis not_numeral_le_zero unsigned_0)
  then have run: "ipv4_fragment_packet d packet unit s = Some (ok, t)"
    using assms(3,4) loop by (simp add: ipv4_fragment_packet_def Let_def ready_def)
  have mx: "mx \<le> 1480" "20 + mx \<le> unat unit" using assms(5,6) by (auto simp: mx_def)
  let ?frm = "fragment_frame ?h (pkt_data pk) n mx num"
  obtain k where k: "k \<le> num" "ipv4.more t = ipv4.more s @ map ?frm [0..<k]" "ok \<longrightarrow> k = num"
      "2 * num \<le> free_count s \<longrightarrow> ok"
    using fragment_loop_wire [OF assms(2) _ _ assms(3) _ _ loop, unfolded sizes(1-3)] sizes(4) mx(1) by auto
  have pay: "concat (map (drop 20 \<circ> ?frm) [0..<j]) = get_at 20 (if j = num then n else j * mx) (pkt_data pk)"
    if "j \<le> num" for j using concat_payloads [OF sizes(4) that] .
  have "fragment_ok ?h (unat unit) (length (concat (map (drop 20) (take i (map ?frm [0..<k])))))
      (i + 1 < num) (map ?frm [0..<k] ! i)" if "i < k" for i
  proof -
    have "take i (map ?frm [0..<k]) = map ?frm [0..<i]" using that by (simp add: take_map)
    then have "length (concat (map (drop 20) (take i (map ?frm [0..<k])))) = i * mx"
      using pay [of i] that k(1) by simp
    then show ?thesis
      using fragment_frame_ok [OF sizes(4), of i "unat unit" ?h "pkt_data pk"] that k(1) mx(2) assms(8)
      by (simp add: n_def mx_def)
  qed
  then show ?thesis
    unfolding n_def [symmetric] num_def [symmetric]
    using run k pay [of num] by (intro exI [of _ ok] exI [of _ t] exI [of _ "map ?frm [0..<k]"]) simp
qed

definition wire_callees :: "u8 list list ipv4_scheme callees" where
  "wire_callees = sample_callees\<lparr>call_send :=
     (\<lambda>f i p s. (True, s\<lparr>ipv4.more := ipv4.more s @ [frame_of p s]\<rparr>))\<rparr>"

definition sample_datagram :: net_packet where
  "sample_datagram = sample_packet\<lparr>pkt_length := 100, pkt_iface := 0x100, pkt_data := (\<lambda>i. 0)\<rparr>"

definition fragment_state :: "u8 list list ipv4_scheme" where
  "fragment_state = set_packet 0x1000 (\<lambda>_. sample_datagram) (sample_ipv4 [] [])"

lemma fragment_state_ready: "ready 0x1000 sample_datagram fragment_state"
proof -
  have "0x1000 \<in> owned_pages (sample_ipv4 [] [])"
    by (simp add: owned_pages_def sample_ipv4_def sample_state_used page_aligned_def)
  then show ?thesis
    by (simp add: ready_def fragment_state_def sample_datagram_def)
      (simp add: sample_ipv4_def sample_state_inv, simp add: sample_state_def sample_iface_def)
qed

theorem ipv4_fragment_packet_covers_witness:
  "\<exists>t frames. ipv4_fragment_packet wire_callees 0x1000 60 fragment_state = Some (True, t)
    \<and> ipv4.more t = frames \<and> concat (map (drop 20) frames) = get_at 20 80 (\<lambda>_. 0)"
proof -
  have tr: "transmits wire_callees" by (simp add: transmits_def wire_callees_def)
  have "get_header (\<lambda>_. 0) = get_header (pkt_data sample_datagram)" by (simp add: sample_datagram_def)
  then have df: "flags_offset (get_header (pkt_data sample_datagram)) AND IPV4_FLAG_DONT_FRAGMENT = 0"
    by (simp add: sample_datagram_def get_header_def get16_def word16_def)
  have "free_count fragment_state = 28" "ipv4.more fragment_state = []"
    using ipv4_more_net [of fragment_state "sample_ipv4 [] []"]
    by (simp_all add: fragment_state_def) (simp_all add: sample_ipv4_def sample_state_def free_count_def)
  then show ?thesis
    using ipv4_fragment_packet_covers [OF tr fragment_state_ready df, of 60]
    by (fastforce simp: sample_datagram_def)
qed

end
