(* ===== verification/Ipv4_Reassembly.thy ===== *)
theory Ipv4_Reassembly
  imports Ipv4_Fragment
begin

text \<open>
  Reassembly: each fragment marks one unit of 8 bytes as received, the one it starts at,
  but a datagram counts as complete when all its units are marked.
\<close>

text \<open>Handing over several fragments, one after the other.\<close>

fun feed :: "u32 list \<Rightarrow> 'a ipv4_scheme \<Rightarrow> (u32 list \<times> 'a ipv4_scheme) option" where
  "feed [] s = Some ([], s)"
| "feed (p # ps) s =
     (case ipv4_reassemble_packet p s of
        None \<Rightarrow> None
      | Some (r, t) \<Rightarrow> map_option (\<lambda>(rs, u). (r # rs, u)) (feed ps t))"

definition frag_off :: "ipv4_header \<Rightarrow> nat" where
  "frag_off h = 8 * unat (flags_offset h AND IPV4_FRAGMENT_OFFSET_MASK)"

definition frag_len :: "ipv4_header \<Rightarrow> nat" where
  "frag_len h = unat (total_length h - 20)"

text \<open>A fragment that does not start at byte 8 and, if it is the last one, ends behind byte 8 or
  is empty at byte 0.\<close>

definition skips_unit_1 :: "ipv4_header \<Rightarrow> bool" where
  "skips_unit_1 h \<longleftrightarrow> frag_off h \<noteq> 8
     \<and> (flags_offset h AND IPV4_FLAG_MORE_FRAGMENTS = 0
          \<longrightarrow> frag_off h + frag_len h = 0 \<or> 8 < frag_off h + frag_len h)"

text \<open>A fragment whose mark lies behind the 64 entries of \<open>fragments\<close>, or whose data ends behind
  the buffer.\<close>

definition stores_outside :: "ipv4_header \<Rightarrow> bool" where
  "stores_outside h \<longleftrightarrow> 512 \<le> frag_off h \<or> 65536 < frag_off h + frag_len h"

definition waiting :: "'a ipv4_scheme \<Rightarrow> bool" where
  "waiting s \<longleftrightarrow> (\<forall>i < MAX_FRAGMENTS. let b = reassembly_buffers s i in
     \<not> fragments b 1 \<and> (rb_total_length b = 0 \<or> 8 < unat (rb_total_length b)))"

lemma set_rb_buffers [simp]:
  "reassembly_buffers (set_rb i f s) j = (if j = i then f (reassembly_buffers s i) else reassembly_buffers s j)"
  "packet_at (set_rb i f s) = packet_at s"
  by (simp_all add: set_rb_def)

lemma mem_only_rb:
  "mem_only s t \<Longrightarrow> reassembly_buffers t = reassembly_buffers (s :: 'a ipv4_scheme) \<and> packet_at t = packet_at s"
  by (auto simp: mem_only_def)

lemma reassembly_failed_fields [simp]:
  "reassembly_buffers (reassembly_failed s) = reassembly_buffers s"
  "packet_at (reassembly_failed s) = packet_at s"
  by (simp_all add: reassembly_failed_def)

lemma find_index: "find P xs = Some i \<Longrightarrow> i \<in> set xs \<and> P i"
  by (auto simp: find_Some_iff)

lemma rb_take_waiting:
  fixes s :: "'a ipv4_scheme"
  assumes "waiting s"
  shows "case rb_take h s of Inl t \<Rightarrow> waiting t \<and> packet_at t = packet_at s
    | Inr (i, t) \<Rightarrow> i < MAX_FRAGMENTS \<and> waiting t \<and> packet_at t = packet_at s"
proof (cases "rb_for h s")
  case (Some i)
  then have "i < MAX_FRAGMENTS" unfolding rb_for_def by (auto dest: find_index)
  then show ?thesis using Some assms by (simp add: rb_take_def)
next
  case None
  show ?thesis
  proof (cases "find (\<lambda>i. rb_data (reassembly_buffers s i) = 0) [0..<MAX_FRAGMENTS]")
    case None2: None
    then show ?thesis using None assms by (simp add: rb_take_def waiting_def)
  next
    case (Some i)
    then have i: "i < MAX_FRAGMENTS" by (auto dest: find_index)
    let ?s1 = "set_rb i (\<lambda>b. b\<lparr>rb_id := hdr_id h, rb_src := hdr_src h, rb_dest := hdr_dest h,
                          rb_protocol := hdr_protocol h, timestamp := 0, rb_total_length := 0,
                          fragment_count := 0, fragments := (\<lambda>_. False)\<rparr>) s"
    obtain p s2 where al: "pmm_alloc_blocks 16 ?s1 = (p, s2)" by fastforce
    have "mem_only ?s1 s2" using mem_only_pmm(3) [of ?s1 16] al by simp
    note m = mem_only_rb [OF this]
    show ?thesis
      using None Some al m assms i by (auto simp: rb_take_def Let_def waiting_def)
  qed
qed

lemma frag_words:
  fixes h :: ipv4_header
  defines "offset \<equiv> (flags_offset h AND IPV4_FRAGMENT_OFFSET_MASK) * 8"
  shows "unat offset = frag_off h" "unat (offset div 8) = frag_off h div 8"
proof -
  have "flags_offset h AND 0x1FFF \<le> 0x1FFF" by (rule word_and_le1)
  then have "unat (flags_offset h AND IPV4_FRAGMENT_OFFSET_MASK) \<le> 0x1FFF"
    by (simp add: IPV4_FRAGMENT_OFFSET_MASK_def word_le_nat_alt)
  then show o: "unat offset = frag_off h"
    by (simp add: offset_def frag_off_def unat_word_ariths(2))
  then show "unat (offset div 8) = frag_off h div 8" by (simp add: unat_div)
qed

text \<open>With unit 1 missing the scan stops there.\<close>

lemma scan_stops:
  assumes "\<not> f 1" "2 \<le> num"
  shows "\<exists>u. find (\<lambda>u. MAX_FRAGMENTS \<le> u \<or> \<not> f u) [0..<num] = Some u \<and> u < MAX_FRAGMENTS"
proof -
  have "[0..<num] = 0 # 1 # [2..<num]"
    using assms(2) by (simp add: upt_conv_Cons numeral_2_eq_2)
  then show ?thesis using assms(1) by (auto simp: MAX_FRAGMENTS_def)
qed

lemma reassemble_outside:
  assumes "stores_outside (get_header (pkt_data (packet_at s p)))"
    and "rb_take (get_header (pkt_data (packet_at s p))) s = Inr it"
  shows "ipv4_reassemble_packet p s = None"
proof -
  let ?h = "get_header (pkt_data (packet_at s p))"
  have "64 \<le> frag_off ?h div 8 \<or> 65536 < frag_off ?h + frag_len ?h"
    using assms(1) by (auto simp: stores_outside_def)
  then show ?thesis
    using assms(2) frag_words [of ?h]
    by (cases it) (auto simp: ipv4_reassemble_packet_def Let_def MAX_FRAGMENTS_def frag_len_def)
qed

lemma reassemble_waiting:
  fixes s :: "'a ipv4_scheme"
  assumes w: "waiting s" and h: "skips_unit_1 (get_header (pkt_data (packet_at s p)))"
    and inside: "\<not> stores_outside (get_header (pkt_data (packet_at s p)))
      \<or> isl (rb_take (get_header (pkt_data (packet_at s p))) s)"
  shows "\<exists>t. ipv4_reassemble_packet p s = Some (0, t) \<and> waiting t \<and> packet_at t = packet_at s"
proof -
  define g where "g = get_header (pkt_data (packet_at s p))"
  define offset where "offset = (flags_offset g AND IPV4_FRAGMENT_OFFSET_MASK) * 8"
  note fw = frag_words [of g, folded offset_def]
  have u1: "frag_off g div 8 \<noteq> 1"
    using h by (auto simp: skips_unit_1_def frag_off_def simp flip: g_def)
  show ?thesis
  proof (cases "rb_take g s")
    case (Inl t)
    then show ?thesis using rb_take_waiting [OF w, of g]
      by (simp add: ipv4_reassemble_packet_def Let_def flip: g_def)
  next
    case (Inr it)
    then have "\<not> stores_outside g" using inside by (simp flip: g_def)
    then have hs: "frag_off g < 512" "frag_off g + frag_len g \<le> 65536"
        "flags_offset g AND IPV4_FLAG_MORE_FRAGMENTS = 0 \<Longrightarrow> frag_off g + frag_len g = 0 \<or> 8 < frag_off g + frag_len g"
      using h by (auto simp: skips_unit_1_def stores_outside_def simp flip: g_def)
    obtain i t where "it = (i, t)" by fastforce
    with Inr have tk: "rb_take g s = Inr (i, t)" by simp
    then have it: "i < MAX_FRAGMENTS" "waiting t" "packet_at t = packet_at s"
      using rb_take_waiting [OF w, of g] by simp_all
    define t2 where "t2 = set_rb i (\<lambda>b. b\<lparr>rb_bytes := put_at (unat offset)
         (get_at 20 (unat (total_length g - 20)) (pkt_data (packet_at t p))) (rb_bytes b),
       fragments := (fragments b)(unat (offset div 8) := True), fragment_count := fragment_count b + 1\<rparr>) t"
    define t3 where "t3 = (if flags_offset g AND IPV4_FLAG_MORE_FRAGMENTS = 0
        then set_rb i (rb_total_length_update (\<lambda>_. offset + (total_length g - 20))) t2 else t2)"
    let ?b = "reassembly_buffers t3 i"
    have total: "unat (offset + (total_length g - 20)) = (frag_off g + frag_len g) mod 65536"
      using fw by (simp add: unat_word_ariths(1) frag_len_def)
    have last: "offset + (total_length g - 20) = 0 \<or> 8 < unat (offset + (total_length g - 20))"
      if "flags_offset g AND IPV4_FLAG_MORE_FRAGMENTS = 0"
    proof (cases "frag_off g + frag_len g = 0 \<or> frag_off g + frag_len g = 65536")
      case True
      then have "unat (offset + (total_length g - 20)) = 0" unfolding total by auto
      then show ?thesis by (simp only: unat_eq_0) simp
    next
      case False
      then have "8 < unat (offset + (total_length g - 20))" using hs(2) hs(3) [OF that] unfolding total by auto
      then show ?thesis ..
    qed
    have "waiting t3"
      using it(1,2) u1 fw(2) last by (auto simp: waiting_def t3_def t2_def Let_def)
    moreover have "packet_at t3 = packet_at s" using it(3) by (simp add: t3_def t2_def)
    moreover have "ipv4_reassemble_packet p s = Some (0, t3)"
    proof -
      have ok: "\<not> (65536 < unat offset + unat (total_length g - 20) \<or> MAX_FRAGMENTS \<le> unat (offset div 8))"
        using fw hs(1,2) by (simp add: MAX_FRAGMENTS_def less_mult_imp_div_less frag_len_def)
      have w3: "\<not> fragments ?b 1" "rb_total_length ?b = 0 \<or> 8 < unat (rb_total_length ?b)"
        using \<open>waiting t3\<close> it(1) by (auto simp: waiting_def Let_def)
      obtain u where u: "rb_total_length ?b \<noteq> 0 \<Longrightarrow>
          find (\<lambda>u. MAX_FRAGMENTS \<le> u \<or> \<not> fragments ?b u) [0..<(unat (rb_total_length ?b) + 7) div 8] = Some u
          \<and> u < MAX_FRAGMENTS"
        using scan_stops [of "fragments ?b", OF w3(1), of "(unat (rb_total_length ?b) + 7) div 8"] w3(2) by fastforce
      have "ipv4_reassemble_packet p s =
          (if rb_total_length ?b = 0 then Some (0, t3)
           else case find (\<lambda>u. MAX_FRAGMENTS \<le> u \<or> \<not> fragments ?b u) [0..<(unat (rb_total_length ?b) + 7) div 8] of
             Some u \<Rightarrow> if MAX_FRAGMENTS \<le> u then None else Some (0, t3)
           | None \<Rightarrow> Some (rb_complete i g t3))"
        unfolding ipv4_reassemble_packet_def g_def [symmetric] Let_def offset_def [symmetric] tk
          sum.case prod.case if_not_P [OF ok] t2_def [symmetric] t3_def [symmetric] ..
      then show ?thesis using u by (cases "rb_total_length ?b = 0") (auto simp: not_le)
    qed
    ultimately show ?thesis by blast
  qed
qed

lemma feed_waiting:
  fixes s :: "'a ipv4_scheme"
  assumes "\<forall>p \<in> set ps. skips_unit_1 (get_header (pkt_data (packet_at s p)))" and "waiting s"
  shows "case feed ps s of None \<Rightarrow> \<exists>p \<in> set ps. stores_outside (get_header (pkt_data (packet_at s p)))
    | Some (rs, t) \<Rightarrow> rs = replicate (length ps) 0"
  using assms
proof (induction ps arbitrary: s)
  case (Cons p ps)
  let ?h = "get_header (pkt_data (packet_at s p))"
  show ?case
  proof (cases "stores_outside ?h \<and> \<not> isl (rb_take ?h s)")
    case True
    then have "ipv4_reassemble_packet p s = None" by (cases "rb_take ?h s") (auto intro: reassemble_outside)
    then show ?thesis using True by auto
  next
    case False
    then obtain t where t: "ipv4_reassemble_packet p s = Some (0, t)" "waiting t" "packet_at t = packet_at s"
      using reassemble_waiting [OF Cons.prems(2), of p] Cons.prems(1) by auto
    have "\<forall>q \<in> set ps. skips_unit_1 (get_header (pkt_data (packet_at t q)))" using Cons.prems(1) t(3) by simp
    from Cons.IH [OF this t(2)] show ?thesis using t(1,3) by (auto split: option.splits)
  qed
qed simp

subsection \<open>Properties\<close>

text \<open>C15: datagrams cut into fragments of more than 8 bytes are never reassembled.  After
  \<open>ipv4_init\<close>, whatever fragments arrive, in any order and from any number of datagrams, if
  none of them starts at byte 8 and every last one ends behind byte 8 (or is empty at byte 0),
  no call of \<open>ipv4_reassemble_packet\<close> returns a packet, because only a fragment starting at byte 8 could
  mark that unit as received: the calls return \<open>NULL\<close>, unless a fragment starts at byte 512 or
  later or its data ends behind byte 65536.  Such a fragment, as the second one of a datagram cut
  for an MTU of 1500, is stored outside the arrays as soon as it gets a reassembly buffer.\<close>

theorem ipv4_reassembly_never_completes:
  fixes s :: "'a ipv4_scheme"
  assumes "\<forall>p \<in> set ps. skips_unit_1 (get_header (pkt_data (packet_at s p)))"
  shows "(case feed ps (ipv4_init s) of
        None \<Rightarrow> \<exists>p \<in> set ps. stores_outside (get_header (pkt_data (packet_at s p)))
      | Some (rs, t) \<Rightarrow> rs = replicate (length ps) 0)
    \<and> (\<forall>p it (t :: 'a ipv4_scheme). stores_outside (get_header (pkt_data (packet_at t p)))
        \<and> rb_take (get_header (pkt_data (packet_at t p))) t = Inr it \<longrightarrow> ipv4_reassemble_packet p t = None)"
proof -
  have "waiting (ipv4_init s)"
    by (simp add: waiting_def ipv4_init_def kprint_def no_buffer_def)
  moreover have pk: "packet_at (ipv4_init s) = packet_at s" by (simp add: ipv4_init_def kprint_def)
  ultimately show ?thesis
    using feed_waiting [of ps "ipv4_init s", unfolded pk] assms reassemble_outside by blast
qed

text \<open>Two fragments of 16 bytes, and one that starts at byte 1480.\<close>

definition sample_fragment :: "u8 \<Rightarrow> u8 \<Rightarrow> net_packet" where
  "sample_fragment fl off = sample_packet\<lparr>pkt_length := 36,
     pkt_data := (\<lambda>i. if i = 2 then 36 else if i = 7 then fl else if i = 6 then off else 0)\<rparr>"

definition reassembly_state :: "unit ipv4_scheme" where
  "reassembly_state = set_packet 0x3000 (\<lambda>_. sample_fragment 0 185) (set_packet 0x2000 (\<lambda>_. sample_fragment 0x20 0)
     (set_packet 0x1000 (\<lambda>_. sample_fragment 0 2) (sample_ipv4 [] ())))"

lemmas fragment_eval = reassembly_state_def skips_unit_1_def stores_outside_def frag_off_def frag_len_def
  sample_fragment_def get_header_def get16_def word16_def IPV4_FRAGMENT_OFFSET_MASK_def
  IPV4_FLAG_MORE_FRAGMENTS_def

lemma reassembly_state_fragments:
  "p \<in> {0x1000, 0x2000, 0x3000} \<Longrightarrow> skips_unit_1 (get_header (pkt_data (packet_at reassembly_state p)))"
  "p \<in> {0x1000, 0x2000} \<Longrightarrow> \<not> stores_outside (get_header (pkt_data (packet_at reassembly_state p)))"
  "stores_outside (get_header (pkt_data (packet_at reassembly_state 0x3000)))"
  by (auto simp: fragment_eval)

theorem ipv4_reassembly_never_completes_witness:
  "(\<exists>t. feed [0x2000, 0x1000] (ipv4_init reassembly_state) = Some ([0, 0], t))
   \<and> stores_outside (get_header (pkt_data (packet_at reassembly_state 0x3000)))"
  using ipv4_reassembly_never_completes [of "[0x2000, 0x1000]" reassembly_state]
    reassembly_state_fragments
  by (auto simp: numeral_2_eq_2 split: option.splits)

end
