(* ===== verification/Udp.thy ===== *)
theory Udp
  imports Ipv4_Fragment
begin

text \<open>
  UDP, net/udp.c: sockets, their receive buffers, datagrams sent and received.  Sockets are
  structs in a store indexed by address; \<open>sockets\<close> is the linked list of their addresses,
  every node of it freshly allocated.  \<open>None\<close> is a store past the blocks of a buffer, or
  what \<open>ipv4_send_packet\<close> means by it.
\<close>

subsection \<open>Data (udp.h)\<close>

definition MAX_UDP_SOCKETS :: u32 where "MAX_UDP_SOCKETS = 256"
definition UDP_HEADER_LEN :: nat where "UDP_HEADER_LEN = 8"

record udp_config =
  buffer_size :: u16
  use_checksum :: bool
  timeout :: u32

record udp_stats =
  udp_packets_sent :: u64
  udp_packets_received :: u64
  udp_bytes_sent :: u64
  udp_bytes_received :: u64
  checksum_errors :: u64
  buffer_overflows :: u64
  no_port_errors :: u64

record udp_socket =
  sock_addr :: ipv4_addr
  sock_port :: u16
  sock_config :: udp_config
  sock_stats :: udp_stats
  recv_buf :: u32
  recv_bytes :: buffer
  recv_len :: u32
  recv_start :: u32

record udp = ipv4 +
  sockets :: "u32 list"
  socket_count :: u32
  socket_at :: "u32 \<Rightarrow> udp_socket"

definition no_udp_stats :: udp_stats where
  "no_udp_stats = \<lparr>udp_packets_sent = 0, udp_packets_received = 0, udp_bytes_sent = 0,
     udp_bytes_received = 0, checksum_errors = 0, buffer_overflows = 0, no_port_errors = 0\<rparr>"

definition udp_default_config :: udp_config where
  "udp_default_config = \<lparr>buffer_size = 8192, use_checksum = True, timeout = 0\<rparr>"

definition set_socket :: "u32 \<Rightarrow> (udp_socket \<Rightarrow> udp_socket) \<Rightarrow> 'a udp_scheme \<Rightarrow> 'a udp_scheme" where
  "set_socket k f s = s\<lparr>socket_at := (socket_at s)(k := f (socket_at s k))\<rparr>"

definition upd_udp_stats :: "(udp_stats \<Rightarrow> udp_stats) \<Rightarrow> udp_socket \<Rightarrow> udp_socket" where
  "upd_udp_stats f k = k\<lparr>sock_stats := f (sock_stats k)\<rparr>"

text \<open>Blocks of a receive buffer of \<open>n\<close> bytes.\<close>

definition buf_blocks :: "u16 \<Rightarrow> u32" where
  "buf_blocks n = (ucast n + 4096 - 1) div 4096"

subsection \<open>Sockets\<close>

definition udp_init :: "'a udp_scheme \<Rightarrow> 'a udp_scheme" where
  "udp_init s = kprint (Puts (''UDP: Protocol initialized'' @ newline)) (s\<lparr>sockets := [], socket_count := 0\<rparr>)"

definition port_taken :: "ipv4_addr \<Rightarrow> u16 \<Rightarrow> 'a udp_scheme \<Rightarrow> bool" where
  "port_taken addr port s \<longleftrightarrow> (\<exists>k \<in> set (sockets s).
     sock_port (socket_at s k) = port \<and> ipv4_addr_equals (sock_addr (socket_at s k)) addr)"

definition udp_create_socket ::
  "ipv4_addr \<Rightarrow> u16 \<Rightarrow> udp_config option \<Rightarrow> 'a udp_scheme \<Rightarrow> u32 \<times> 'a udp_scheme"
where
  "udp_create_socket addr port config s =
     (if MAX_UDP_SOCKETS \<le> socket_count s then (0, s)
      else if port_taken addr port s then (0, s)
      else case pmm_alloc_blocks 1 s of (k, s1) \<Rightarrow>
        if k = 0 then (0, s1)
        else
          let cfg = (case config of None \<Rightarrow> udp_default_config | Some c \<Rightarrow> c);
              s2 = set_socket k (\<lambda>_. \<lparr>sock_addr = addr, sock_port = port, sock_config = cfg,
                     sock_stats = no_udp_stats, recv_buf = 0, recv_bytes = (\<lambda>_. 0), recv_len = 0,
                     recv_start = 0\<rparr>) s1
          in case pmm_alloc_blocks (buf_blocks (buffer_size cfg)) s2 of (buf, s3) \<Rightarrow>
            let s4 = set_socket k (\<lambda>x. x\<lparr>recv_buf := buf,
                       recv_bytes := (\<lambda>i. get_byte (buf + of_nat i) s3)\<rparr>) s3
            in if buf = 0 then (0, pmm_free_blocks k 1 s4)
               else (k, s4\<lparr>sockets := k # sockets s4, socket_count := socket_count s4 + 1\<rparr>))"

definition udp_close_socket :: "u32 \<Rightarrow> 'a udp_scheme \<Rightarrow> 'a udp_scheme" where
  "udp_close_socket k s =
     (if k = 0 then s
      else
        let s1 = (if k \<in> set (sockets s)
                  then s\<lparr>sockets := remove1 k (sockets s), socket_count := socket_count s - 1\<rparr> else s);
            x = socket_at s1 k;
            s2 = (if recv_buf x \<noteq> 0
                  then pmm_free_blocks (recv_buf x) (buf_blocks (buffer_size (sock_config x))) s1 else s1)
        in pmm_free_blocks k 1 s2)"

definition udp_cleanup :: "'a udp_scheme \<Rightarrow> 'a udp_scheme" where
  "udp_cleanup s = fold udp_close_socket (sockets s) s"

subsection \<open>Datagrams\<close>

definition udp_header_bytes :: "u16 \<Rightarrow> u16 \<Rightarrow> u16 \<Rightarrow> u16 \<Rightarrow> u8 list" where
  "udp_header_bytes sp dp len chk = bytes16 sp @ bytes16 dp @ bytes16 len @ bytes16 chk"

text \<open>The datagram as it stands in the packet before it is handed to IPv4.\<close>

definition udp_datagram :: "udp_socket \<Rightarrow> ipv4_addr \<Rightarrow> u16 \<Rightarrow> u8 list \<Rightarrow> u8 list" where
  "udp_datagram x dest port bs =
     (let len = 8 + of_nat (length bs) :: u16;
          plain = udp_header_bytes (sock_port x) port len 0 @ bs
      in if use_checksum (sock_config x)
         then udp_header_bytes (sock_port x) port len
                (udp_checksum (octets (sock_addr x)) (octets dest) (take (unat len) plain)) @ bs
         else plain)"

definition udp_send ::
  "'a udp_scheme callees \<Rightarrow> u32 \<Rightarrow> ipv4_addr \<Rightarrow> u16 \<Rightarrow> u8 list \<Rightarrow> 'a udp_scheme
    \<Rightarrow> (bool \<times> 'a udp_scheme) option"
where
  "udp_send d k dest port bs s =
     (if k = 0 \<or> bs = [] then Some (False, s)
      else if 65535 - UDP_HEADER_LEN < length bs then Some (False, s)
      else case net_alloc_packet (8 + of_nat (length bs)) s of (packet, s1) \<Rightarrow>
        if packet = 0 then Some (False, s1)
        else
          let s2 = set_packet packet (\<lambda>p. p\<lparr>pkt_data := put_at 0 (udp_datagram (socket_at s1 k) dest port bs) (pkt_data p),
                     protocol := NET_PROTO_UDP, pkt_length := ucast (8 + of_nat (length bs) :: u16)\<rparr>) s1
          in case ipv4_send_packet d packet dest IPV4_PROTO_UDP 0 s2 of
               None \<Rightarrow> None
             | Some (success, s3) \<Rightarrow>
                 Some (success,
                   if success
                   then set_socket k (upd_udp_stats (\<lambda>st. st\<lparr>udp_packets_sent := udp_packets_sent st + 1,
                          udp_bytes_sent := udp_bytes_sent st + of_nat (length bs)\<rparr>)) s3
                   else s3))"

text \<open>The bytes copied to the caller; the source address and port are never filled in.\<close>

definition udp_receive :: "u32 \<Rightarrow> u32 \<Rightarrow> 'a udp_scheme \<Rightarrow> u8 list \<times> 'a udp_scheme" where
  "udp_receive k max_length s =
     (let x = socket_at s k in
      if k = 0 \<or> max_length = 0 \<or> recv_len x = 0 then ([], s)
      else
        let n = (if max_length < recv_len x then max_length else recv_len x);
            bs = get_at (unat (recv_start x)) (unat n) (recv_bytes x);
            x1 = x\<lparr>recv_start := recv_start x + n, recv_len := recv_len x - n\<rparr>;
            x2 = (if recv_len x1 = 0 then x1\<lparr>recv_start := 0\<rparr> else x1)
        in (bs, set_socket k (\<lambda>_. x2) s))"

definition buf_capacity :: "udp_socket \<Rightarrow> nat" where
  "buf_capacity x = 4096 * unat (buf_blocks (buffer_size (sock_config x)))"

definition find_socket :: "u16 \<Rightarrow> ipv4_addr \<Rightarrow> 'a udp_scheme \<Rightarrow> u32 option" where
  "find_socket port addr s = find (\<lambda>k. sock_port (socket_at s k) = port
     \<and> ipv4_addr_equals (sock_addr (socket_at s k)) addr) (sockets s)"

definition udp_receive_packet :: "u32 \<Rightarrow> u32 \<Rightarrow> 'a udp_scheme \<Rightarrow> 'a udp_scheme option" where
  "udp_receive_packet iface packet s =
     (let p = packet_at s packet; b = pkt_data p; hlen = get16 4 b in
      if iface = 0 \<or> packet = 0 \<or> unat (pkt_length p) < UDP_HEADER_LEN then Some s
      else if pkt_length p < ucast hlen then Some s
      else case find_socket (get16 2 b) (dest_addr p) s of
        None \<Rightarrow> Some s
      | Some k \<Rightarrow>
          let x = socket_at s k;
              orig = get16 6 b;
              zeroed = put_at 6 [0, 0] b;
              s0 = set_packet packet (\<lambda>p. p\<lparr>pkt_data := zeroed\<rparr>) s
          in if use_checksum (sock_config x)
                \<and> udp_checksum (octets (src_addr p)) (octets (dest_addr p)) (get_at 0 (unat hlen) zeroed) \<noteq> orig
             then Some (set_socket k (upd_udp_stats (\<lambda>st. st\<lparr>checksum_errors := checksum_errors st + 1\<rparr>)) s0)
             else
               let data_len = (ucast hlen - 8) :: u32
               in if ucast (buffer_size (sock_config x)) < recv_len x + data_len
                  then Some (set_socket k (upd_udp_stats (\<lambda>st. st\<lparr>buffer_overflows := buffer_overflows st + 1\<rparr>)) s)
                  else
                    let off = recv_start x + recv_len x
                    in if buf_capacity x < unat off + unat data_len then None
                       else Some (set_socket k (\<lambda>x. upd_udp_stats (\<lambda>st. st\<lparr>
                                udp_packets_received := udp_packets_received st + 1,
                                udp_bytes_received := udp_bytes_received st + ucast data_len\<rparr>)
                              (x\<lparr>recv_bytes := put_at (unat off) (get_at 8 (unat data_len) b) (recv_bytes x),
                                 recv_len := recv_len x + data_len\<rparr>)) s))"

definition udp_get_stats :: "u32 \<Rightarrow> 'a udp_scheme \<Rightarrow> udp_stats" where
  "udp_get_stats k s = sock_stats (socket_at s k)"

definition udp_reset_stats :: "u32 \<Rightarrow> 'a udp_scheme \<Rightarrow> 'a udp_scheme" where
  "udp_reset_stats k s = (if k \<noteq> 0 then set_socket k (\<lambda>x. x\<lparr>sock_stats := no_udp_stats\<rparr>) s else s)"

end
