(* ===== verification/Udp_Sockets.thy ===== *)
theory Udp_Sockets
  imports Udp
begin

text \<open>
  Properties of UDP: the receive buffer as a byte queue, where it overruns, and what a
  datagram sent looks like on the wire.
\<close>

definition pending :: "udp_socket \<Rightarrow> u8 list" where
  "pending x = get_at (unat (recv_start x)) (unat (recv_len x)) (recv_bytes x)"

lemma socket_at_set [simp]:
  "socket_at (set_socket k f s) j = (if j = k then f (socket_at s k) else socket_at s j)"
  "packet_at (set_socket k f s) = packet_at s" "sockets (set_socket k f s) = sockets s"
  by (simp_all add: set_socket_def)

lemma pending_stats [simp]: "pending (upd_udp_stats f x) = pending x"
  by (simp add: pending_def upd_udp_stats_def)

lemma capacity_bounds: "unat (buffer_size (sock_config x)) \<le> buf_capacity x" "buf_capacity x \<le> 65536 + 4096"
proof -
  let ?n = "unat (buffer_size (sock_config x))"
  have n: "?n < 65536" using unsigned_less [of "buffer_size (sock_config x)", where 'a = nat] by simp
  have "unat (ucast (buffer_size (sock_config x)) + 4095 :: u32) = ?n + 4095"
    using n by (subst unat_add_small) (simp_all add: unat_ucast_up)
  then have "unat (buf_blocks (buffer_size (sock_config x))) = (?n + 4095) div 4096"
    using add_diff_eq [of "ucast (buffer_size (sock_config x))" 4096 "1 :: u32"]
    by (simp only: buf_blocks_def unat_div flip: add_diff_eq) simp
  then have "buf_capacity x = 4096 * ((?n + 4095) div 4096)" by (simp add: buf_capacity_def)
  then show "?n \<le> buf_capacity x" "buf_capacity x \<le> 65536 + 4096" using n by linarith+
qed

text \<open>A datagram for socket \<open>k\<close> with \<open>n\<close> bytes of data.\<close>

definition datagram_for :: "u32 \<Rightarrow> u32 \<Rightarrow> u32 \<Rightarrow> nat \<Rightarrow> 'a udp_scheme \<Rightarrow> bool" where
  "datagram_for iface packet k n s \<longleftrightarrow>
     (let p = packet_at s packet; hlen = get16 4 (pkt_data p) in
      iface \<noteq> 0 \<and> packet \<noteq> 0 \<and> unat hlen = 8 + n \<and> unat hlen \<le> unat (pkt_length p)
      \<and> find_socket (get16 2 (pkt_data p)) (dest_addr p) s = Some k)"

text \<open>Its checksum is right, or the socket does not look at it.\<close>

definition checksum_ok :: "u32 \<Rightarrow> u32 \<Rightarrow> 'a udp_scheme \<Rightarrow> bool" where
  "checksum_ok packet k s \<longleftrightarrow>
     (let p = packet_at s packet; b = pkt_data p in
      use_checksum (sock_config (socket_at s k))
      \<longrightarrow> udp_checksum (octets (src_addr p)) (octets (dest_addr p))
            (get_at 0 (unat (get16 4 b)) (put_at 6 [0, 0] b)) = get16 6 b)"

lemma receive_corrupt:
  assumes d: "datagram_for iface packet k n s" and "\<not> checksum_ok packet k s"
  shows "\<exists>t. udp_receive_packet iface packet s = Some t
    \<and> socket_at t k = upd_udp_stats (\<lambda>st. st\<lparr>checksum_errors := checksum_errors st + 1\<rparr>) (socket_at s k)"
proof -
  let ?p = "packet_at s packet"
  let ?h = "get16 4 (pkt_data ?p)"
  have "unat ?h = 8 + n" "unat ?h \<le> unat (pkt_length ?p)" using d by (simp_all add: datagram_for_def Let_def)
  then have "\<not> (pkt_length ?p < ucast ?h)" "\<not> unat (pkt_length ?p) < UDP_HEADER_LEN"
    by (simp_all add: word_less_nat_alt unat_ucast_up UDP_HEADER_LEN_def)
  then show ?thesis
    using assms by (simp add: udp_receive_packet_def datagram_for_def checksum_ok_def Let_def set_packet_def)
qed

lemma receive_plain:
  assumes d: "datagram_for iface packet k n s" and ok: "checksum_ok packet k s"
    and r: "unat (recv_start (socket_at s k)) + unat (recv_len (socket_at s k)) \<le> buf_capacity (socket_at s k)"
  defines "x \<equiv> socket_at s k"
  shows "udp_receive_packet iface packet s =
    (if unat (buffer_size (sock_config x)) < unat (recv_len x) + n
     then Some (set_socket k (upd_udp_stats (\<lambda>st. st\<lparr>buffer_overflows := buffer_overflows st + 1\<rparr>)) s)
     else if buf_capacity x < unat (recv_start x) + unat (recv_len x) + n then None
     else Some (set_socket k (\<lambda>_. upd_udp_stats (\<lambda>st. st\<lparr>
                  udp_packets_received := udp_packets_received st + 1,
                  udp_bytes_received := udp_bytes_received st + of_nat n\<rparr>)
                (x\<lparr>recv_bytes := put_at (unat (recv_start x) + unat (recv_len x))
                     (get_at 8 n (pkt_data (packet_at s packet))) (recv_bytes x),
                   recv_len := recv_len x + of_nat n\<rparr>)) s))"
proof -
  let ?p = "packet_at s packet"
  let ?h = "get16 4 (pkt_data ?p)"
  have h: "unat ?h = 8 + n" "unat ?h \<le> unat (pkt_length ?p)" using d by (simp_all add: datagram_for_def Let_def)
  have n: "n < 65536" using h(1) unsigned_less [of ?h, where 'a = nat] by simp
  have dl: "ucast ?h - 8 = (of_nat n :: u32)"
    using h n by (intro word_unat_eqI) (simp add: unat_sub_if' unat_ucast_up unat_of_nat)
  have un: "unat (of_nat n :: u32) = n" "unat (of_nat n :: u64) = n"
    using n by (simp_all add: unat_of_nat)
  have off: "unat (recv_start x + recv_len x) = unat (recv_start x) + unat (recv_len x)"
    using r capacity_bounds(2) [of x] by (simp add: unat_add_small flip: x_def)
  have len: "unat (recv_len x + of_nat n) = unat (recv_len x) + n"
    using r capacity_bounds(2) [of x] n un(1) by (simp add: unat_add_small flip: x_def)
  have u64: "(ucast (of_nat n :: u32) :: u64) = of_nat n"
    using un by (intro word_unat_eqI) (simp add: unat_ucast_up)
  have c: "(ucast (buffer_size (sock_config x)) < recv_len x + (of_nat n :: u32))
      \<longleftrightarrow> unat (buffer_size (sock_config x)) < unat (recv_len x) + n"
    using len by (simp add: word_less_nat_alt unat_ucast_up)
  have lp: "\<not> (pkt_length ?p < ucast ?h)" "\<not> unat (pkt_length ?p) < UDP_HEADER_LEN"
    using h by (simp_all add: word_less_nat_alt unat_ucast_up UDP_HEADER_LEN_def)
  show ?thesis
    using d ok lp by (simp add: udp_receive_packet_def datagram_for_def checksum_ok_def Let_def dl c off un u64 add.assoc set_socket_def flip: x_def)
      blast
qed

lemma receive_takes:
  fixes s :: "'a udp_scheme"
  assumes "k \<noteq> 0" and "recv_len (socket_at s k) \<noteq> 0" and "m \<noteq> 0"
    and "unat (recv_start (socket_at s k)) + unat (recv_len (socket_at s k)) < 2 ^ 32"
  defines "x \<equiv> socket_at s k"
  defines "n \<equiv> min (unat m) (unat (recv_len x))"
  defines "y \<equiv> socket_at (snd (udp_receive k m s)) k"
  shows "fst (udp_receive k m s) = take n (pending x)" and "pending y = drop n (pending x)"
    and "unat (recv_len y) = unat (recv_len x) - n"
    and "unat (recv_start y) = (if unat (recv_len x) = n then 0 else unat (recv_start x) + n)"
    and "sock_config y = sock_config x"
    and "\<And>j. j \<noteq> k \<Longrightarrow> socket_at (snd (udp_receive k m s)) j = socket_at s j"
    and "packet_at (snd (udp_receive k m s)) = packet_at s" "sockets (snd (udp_receive k m s)) = sockets s"
    and "sock_port y = sock_port x" "sock_addr y = sock_addr x"
proof -
  define w where "w = (if m < recv_len x then m else recv_len x)"
  have w: "unat w = n" by (auto simp: w_def n_def word_less_nat_alt)
  have le: "n \<le> unat (recv_len x)" by (simp add: n_def)
  have len: "unat (recv_len x - w) = unat (recv_len x) - n"
    using le w by (simp add: unat_sub_small word_le_nat_alt)
  have start: "unat (recv_start x + w) = unat (recv_start x) + n"
    using le w assms(4) by (simp add: unat_add_small x_def)
  have zero: "recv_len x - w = 0 \<longleftrightarrow> unat (recv_len x) = n" using len le by (metis unat_eq_0 diff_is_0_eq le_antisym order_refl)
  have run: "udp_receive k m s = (get_at (unat (recv_start x)) n (recv_bytes x),
      set_socket k (\<lambda>_. if recv_len x - w = 0 then x\<lparr>recv_len := recv_len x - w, recv_start := 0\<rparr>
        else x\<lparr>recv_start := recv_start x + w, recv_len := recv_len x - w\<rparr>) s)"
    using assms(1-3) w by (simp add: udp_receive_def Let_def flip: x_def w_def)
  then show "fst (udp_receive k m s) = take n (pending x)"
    using get_at_take [OF le, of "unat (recv_start x)" "recv_bytes x"] by (simp add: pending_def)
  have y: "y = (if recv_len x - w = 0 then x\<lparr>recv_len := recv_len x - w, recv_start := 0\<rparr>
        else x\<lparr>recv_start := recv_start x + w, recv_len := recv_len x - w\<rparr>)"
    by (simp add: y_def run)
  show "unat (recv_len y) = unat (recv_len x) - n" using len w by (simp add: y)
  show "unat (recv_start y) = (if unat (recv_len x) = n then 0 else unat (recv_start x) + n)"
    using start zero by (simp add: y)
  show "pending y = drop n (pending x)"
    using len start zero le get_at_drop [OF le, of "unat (recv_start x)" "recv_bytes x"]
    by (simp add: pending_def y)
  show "sock_config y = sock_config x" "sock_port y = sock_port x" "sock_addr y = sock_addr x"
    by (simp_all add: y)
  show "\<And>j. j \<noteq> k \<Longrightarrow> socket_at (snd (udp_receive k m s)) j = socket_at s j"
    "packet_at (snd (udp_receive k m s)) = packet_at s" "sockets (snd (udp_receive k m s)) = sockets s"
    by (simp_all add: run)
qed

lemma capacity_exact:
  assumes "4096 dvd unat (buffer_size (sock_config x))"
  shows "buf_capacity x = unat (buffer_size (sock_config x))"
proof -
  obtain q where q: "unat (buffer_size (sock_config x)) = 4096 * q" using assms by (rule dvdE)
  have "unat (ucast (buffer_size (sock_config x)) + 4095 :: u32) = 4096 * q + 4095"
    using q unsigned_less [of "buffer_size (sock_config x)", where 'a = nat]
    by (subst unat_add_small) (simp_all add: unat_ucast_up)
  moreover have "(4096 * q + 4095) div 4096 = q" by simp
  moreover have "ucast (buffer_size (sock_config x)) + 4096 - 1 = (ucast (buffer_size (sock_config x)) + 4095 :: u32)"
    by simp
  ultimately show ?thesis using q by (simp only: buf_capacity_def buf_blocks_def unat_div) simp
qed

lemma datagram_for_receive:
  assumes "datagram_for iface packet k n s" and "k \<noteq> 0" "recv_len (socket_at s k) \<noteq> 0" "m \<noteq> 0"
    "unat (recv_start (socket_at s k)) + unat (recv_len (socket_at s k)) < 2 ^ 32"
  shows "datagram_for iface packet k n (snd (udp_receive k m s))"
    and "checksum_ok packet k s \<Longrightarrow> checksum_ok packet k (snd (udp_receive k m s))"
proof -
  let ?t = "snd (udp_receive k m s)"
  note r = receive_takes [OF assms(2-5)]
  have "sock_port (socket_at ?t j) = sock_port (socket_at s j) \<and> sock_addr (socket_at ?t j) = sock_addr (socket_at s j)"
    for j using r(6) [of j] r(9,10) by (cases "j = k") auto
  then have "find_socket p a ?t = find_socket p a s" for p a using r(8) by (simp add: find_socket_def)
  then show "datagram_for iface packet k n ?t" "checksum_ok packet k s \<Longrightarrow> checksum_ok packet k ?t"
    using assms(1) r(5,7) by (simp_all add: datagram_for_def checksum_ok_def Let_def)
qed

text \<open>Reading takes bytes off the front.\<close>

lemma receive_pending:
  fixes s :: "'a udp_scheme"
  assumes "k \<noteq> 0" and "unat (recv_start (socket_at s k)) + unat (recv_len (socket_at s k)) < 2 ^ 32"
  shows "fst (udp_receive k m s) = take (unat m) (pending (socket_at s k))"
    and "pending (socket_at (snd (udp_receive k m s)) k) = drop (unat m) (pending (socket_at s k))"
proof -
  let ?x = "socket_at s k"
  have "take (min a (length xs)) xs = take a xs" "drop (min a (length xs)) xs = drop a xs" for a and xs :: "u8 list"
    by (simp_all add: min_def)
  from this [of "unat m" "pending ?x"]
  have cut: "take (min (unat m) (unat (recv_len ?x))) (pending ?x) = take (unat m) (pending ?x)"
      "drop (min (unat m) (unat (recv_len ?x))) (pending ?x) = drop (unat m) (pending ?x)"
    by (simp_all add: pending_def)
  have "fst (udp_receive k m s) = take (unat m) (pending ?x)
      \<and> pending (socket_at (snd (udp_receive k m s)) k) = drop (unat m) (pending ?x)"
  proof (cases "m = 0 \<or> recv_len ?x = 0")
    case True
    then show ?thesis by (auto simp: udp_receive_def Let_def pending_def)
  next
    case False
    then show ?thesis using receive_takes(1,2) [OF assms(1) _ _ assms(2), of m] cut by simp
  qed
  then show "fst (udp_receive k m s) = take (unat m) (pending ?x)"
    "pending (socket_at (snd (udp_receive k m s)) k) = drop (unat m) (pending ?x)" by blast+
qed

subsection \<open>Sending\<close>

definition udp_transmits :: "u8 list list udp_scheme callees \<Rightarrow> bool" where
  "udp_transmits d \<longleftrightarrow> (\<forall>f i p s. call_send d f i p s = (True, s\<lparr>udp.more := udp.more s @ [frame_of p s]\<rparr>))"

lemma udp_fields_net:
  assumes "net.more t = net.more (s :: 'a udp_scheme)"
  shows "routes t = routes s" "config_at t = config_at s" "ip_id t = ip_id s" "udp.more t = udp.more s"
    and "socket_at t = socket_at s"
  using assms by (cases s; cases t; simp)+

lemma udp_datagram_drop: "drop 20 (udp_datagram x dest port bs) = drop 12 bs"
  by (simp add: udp_datagram_def udp_header_bytes_def Let_def)

lemma length_udp_datagram: "length (udp_datagram x dest port bs) = 8 + length bs"
  by (simp add: udp_datagram_def udp_header_bytes_def Let_def)

lemma header_over_datagram:
  assumes "length dg = n"
  shows "get_at 0 n (put_header h (put_at 0 dg b)) = take n (header_bytes h) @ drop 20 dg"
proof (rule nth_equalityI)
  fix i
  assume "i < length (get_at 0 n (put_header h (put_at 0 dg b)))"
  then show "get_at 0 n (put_header h (put_at 0 dg b)) ! i = (take n (header_bytes h) @ drop 20 dg) ! i"
    using assms by (auto simp: put_header_def put_at_def nth_append)
qed (use assms in simp)

text \<open>IPv4 sending a packet that needs no fragmentation.\<close>

lemma ipv4_send_small:
  fixes s :: "'a ipv4_scheme"
  assumes "p \<noteq> 0" and "ipv4_find_route dest s = Some (r, route)" and "route_iface route \<noteq> 0"
    and "driver_data (iface_at s (route_iface route)) \<noteq> 0"
    and "20 + unat (pkt_length (packet_at s p)) \<le> unat (mtu (iface_at s (route_iface route)))"
    and "20 + unat (pkt_length (packet_at s p)) < 65536"
  shows "\<exists>h t. ipv4_send_packet d p dest proto lt s = Some (net_send_packet d (route_iface route) p t)
    \<and> unat (total_length h) = 20 + unat (pkt_length (packet_at s p)) \<and> hdr_dest h = dest
    \<and> iface_at t = iface_at s \<and> ipv4.more t = ipv4.more s
    \<and> packet_at t p = (packet_at s p)\<lparr>pkt_data := put_header h (pkt_data (packet_at s p))\<rparr>"
proof -
  let ?i = "route_iface route"
  define h where "h = checksum_header \<lparr>version_ihl = 0x45, tos = 0,
      total_length = ucast (IPV4_HEADER_LEN + pkt_length (packet_at s p)), hdr_id = ip_id s,
      flags_offset = 0, ttl = (if lt \<noteq> 0 then lt else IPV4_TTL_DEFAULT), hdr_protocol = proto, hdr_checksum = 0,
      hdr_src = cfg_addr (config_at s (driver_data (iface_at s ?i))), hdr_dest = dest\<rparr>"
  define s3 where "s3 = upd_header p (\<lambda>_. h) (s\<lparr>ip_id := ip_id s + 1\<rparr>)"
  define s4 where "s4 = s3\<lparr>ip_stats := (ip_stats s3)\<lparr>packets_sent := packets_sent (ip_stats s3) + 1,
      bytes_sent := bytes_sent (ip_stats s3) + ucast (pkt_length (packet_at s3 p))\<rparr>\<rparr>"
  have tl: "unat (total_length h) = 20 + unat (pkt_length (packet_at s p))"
    using assms(6) by (simp add: h_def checksum_header_def Let_def IPV4_HEADER_LEN_def
        unsigned_ucast_eq unat_add_small take_bit_nat_eq_self)
  then have small: "\<not> mtu (iface_at s3 ?i) < ucast (total_length h)"
    using assms(5) by (simp add: s3_def upd_header_def set_packet_def word_less_nat_alt unat_ucast_up)
  have "ipv4_send_packet d p dest proto lt s = Some (net_send_packet d ?i p s4)"
    using assms(1-4) small
    by (simp add: ipv4_send_packet_def ipv4_get_interface_config_def Let_def flip: h_def s3_def s4_def)
  moreover have "hdr_dest h = dest" by (simp add: h_def checksum_header_def Let_def)
  moreover have "iface_at s4 = iface_at s" "ipv4.more s4 = ipv4.more s"
      "packet_at s4 p = (packet_at s p)\<lparr>pkt_data := put_header h (pkt_data (packet_at s p))\<rparr>"
    by (simp_all add: s4_def s3_def upd_header_def set_packet_def)
  ultimately show ?thesis using tl by blast
qed

subsection \<open>A socket on port 53\<close>

definition sample_route :: ipv4_route where
  "sample_route = \<lparr>network = Addr 10 0 0 0, netmask = Addr 255 0 0 0, gateway = Addr 0 0 0 0,
     route_iface = 0x100, metric = 5\<rparr>"

definition sample_socket :: "u32 \<Rightarrow> udp_socket" where
  "sample_socket len = \<lparr>sock_addr = Addr 10 0 0 1, sock_port = 53,
     sock_config = \<lparr>buffer_size = 4096, use_checksum = False, timeout = 0\<rparr>,
     sock_stats = no_udp_stats, recv_buf = 0x10000, recv_bytes = (\<lambda>_. 0), recv_len = len, recv_start = 0\<rparr>"

definition sample_query :: net_packet where
  "sample_query = sample_packet\<lparr>pkt_length := 12, dest_addr := Addr 10 0 0 1,
     pkt_data := put_at 0 (udp_header_bytes 1024 53 12 0 @ [1, 2, 3, 4]) (\<lambda>_. 0)\<rparr>"

definition sample_udp :: "u32 \<Rightarrow> 'a \<Rightarrow> 'a udp_scheme" where
  "sample_udp len x = set_packet 0x1000 (\<lambda>_. sample_query)
     (set_iface 0x100 (driver_data_update (\<lambda>_. 0x3000))
       (sample_ipv4 [(0x2000, sample_route)]
         \<lparr>sockets = [0x3000], socket_count = 1, socket_at = (\<lambda>_. sample_socket len), \<dots> = x\<rparr>))"

lemma sample_udp_fields [simp]:
  "socket_at (sample_udp len x) k = sample_socket len" "sockets (sample_udp len x) = [0x3000]"
  "packet_at (sample_udp len x) 0x1000 = sample_query" "routes (sample_udp len x) = [(0x2000, sample_route)]"
  "iface_at (sample_udp len x) 0x100 = sample_iface\<lparr>driver_data := 0x3000\<rparr>"
  "udp.more (sample_udp len x) = x" "free_count (sample_udp len x) = 28" "pmm_inv (sample_udp len x)"
proof -
  show "pmm_inv (sample_udp len x)" by (simp add: sample_udp_def sample_ipv4_def sample_state_inv)
  show "free_count (sample_udp len x) = 28"
    by (simp add: sample_udp_def sample_ipv4_def) (simp add: sample_state_def free_count_def)
qed (simp_all add: sample_udp_def set_packet_def set_iface_def sample_ipv4_def sample_state_def)

lemma sample_query_plain:
  "datagram_for 0x100 0x1000 0x3000 4 (sample_udp len x)" "checksum_ok 0x1000 0x3000 (sample_udp len x)"
proof -
  have "get16 4 (pkt_data sample_query) = 12" "get16 2 (pkt_data sample_query) = 53"
    by (simp_all add: sample_query_def get16_def put_at_def udp_header_bytes_def bytes16_def word16_def)
  moreover have "pkt_length sample_query = 12" "dest_addr sample_query = Addr 10 0 0 1"
    by (simp_all add: sample_query_def)
  moreover have "\<not> use_checksum (sock_config (sample_socket len))" "sock_port (sample_socket len) = 53"
      "sock_addr (sample_socket len) = Addr 10 0 0 1"
    by (simp_all add: sample_socket_def)
  ultimately show "datagram_for 0x100 0x1000 0x3000 4 (sample_udp len x)"
      "checksum_ok 0x1000 0x3000 (sample_udp len x)"
    by (simp_all add: datagram_for_def checksum_ok_def find_socket_def Let_def)
qed

lemma sample_capacity: "buf_capacity (sample_socket len) = 4096"
  using capacity_exact [of "sample_socket len"] by (simp add: sample_socket_def)

subsection \<open>Properties\<close>

text \<open>C18: a datagram loses its header on the way out.  When \<open>udp_send\<close> succeeds without
  fragmentation, the one frame it hands to the driver is as long as the UDP datagram and
  begins with the IP header, written over the UDP header and the first 12 bytes of data,
  although the IP header announces 20 bytes more than the frame has.\<close>

theorem udp_send_overwrites_header:
  fixes s :: "u8 list list udp_scheme"
  assumes "udp_transmits d" and "pmm_inv s" and "2 \<le> free_count s" and "k \<noteq> 0" and "bs \<noteq> []"
    and "ipv4_find_route dest s = Some (r, route)" and "route_iface route \<noteq> 0"
    and "driver_data (iface_at s (route_iface route)) \<noteq> 0" and "send_fn (iface_at s (route_iface route)) \<noteq> 0"
    and "28 + length bs \<le> unat (mtu (iface_at s (route_iface route)))" and "length bs \<le> 1500"
  shows "\<exists>t h. udp_send d k dest port bs s = Some (True, t)
    \<and> udp.more t = udp.more s @ [take (8 + length bs) (header_bytes h) @ drop 12 bs]
    \<and> unat (total_length h) = 28 + length bs \<and> hdr_dest h = dest"
proof -
  let ?n = "length bs" and ?i = "route_iface route"
  let ?sz = "8 + of_nat ?n :: u32"
  have n: "unat ?sz = 8 + ?n" "unat (8 + of_nat ?n :: u16) = 8 + ?n"
    using assms(11) by (simp_all add: unat_add_small unat_of_nat)
  obtain p s1 where al: "net_alloc_packet ?sz s = (p, s1)" by fastforce
  have lim: "0 < ?sz" "?sz \<le> NET_MAX_PACKET_SIZE"
    using n(1) assms(11) by (simp_all add: word_less_nat_alt word_le_nat_alt NET_MAX_PACKET_SIZE_def)
  note a = net_alloc_packet_cases [OF assms(2) lim al]
  have p: "p \<noteq> 0" using a(3) assms(3) by simp
  define s2 where "s2 = set_packet p (\<lambda>x. x\<lparr>pkt_data := put_at 0 (udp_datagram (socket_at s1 k) dest port bs) (pkt_data x),
      protocol := NET_PROTO_UDP, pkt_length := ucast (8 + of_nat ?n :: u16)\<rparr>) s1"
  have k2: "iface_at s2 = iface_at s" "net.more s2 = net.more s" using a(1) by (simp_all add: s2_def)
  note f = udp_fields_net [OF k2(2)]
  have len: "unat (pkt_length (packet_at s2 p)) = 8 + ?n" using n by (simp add: s2_def unat_ucast_up)
  have "ipv4_find_route dest s2 = Some (r, route)" using assms(6) f(1) by (simp add: ipv4_find_route_def)
  then obtain h s4 where h: "ipv4_send_packet d p dest IPV4_PROTO_UDP 0 s2 = Some (net_send_packet d ?i p s4)"
      "unat (total_length h) = 28 + ?n" "hdr_dest h = dest" "iface_at s4 = iface_at s" "ipv4.more s4 = ipv4.more s2"
      "packet_at s4 p = (packet_at s2 p)\<lparr>pkt_data := put_header h (pkt_data (packet_at s2 p))\<rparr>"
    using ipv4_send_small [of p dest s2 r route d IPV4_PROTO_UDP 0] p assms(7,8,10,11) len k2(1) by auto
  have m4: "udp.more s4 = udp.more s" using f(4) h(5) by (cases s4; cases s2) simp
  have fr: "frame_of p (set_iface ?i g s4) = take (8 + ?n) (header_bytes h) @ drop 12 bs" for g
    using len header_over_datagram [OF length_udp_datagram]
    by (simp add: frame_of_def h(6)) (simp add: s2_def udp_datagram_drop)
  have "\<exists>t. net_send_packet d ?i p s4 = (True, t)
      \<and> udp.more t = udp.more s @ [take (8 + ?n) (header_bytes h) @ drop 12 bs]"
    using assms(1,7,9) p h(4) m4
    by (simp add: net_send_packet_def Let_def udp_transmits_def fr set_iface_def [symmetric])
      (simp add: set_iface_def)
  then obtain t where t: "net_send_packet d ?i p s4 = (True, t)"
      "udp.more t = udp.more s @ [take (8 + ?n) (header_bytes h) @ drop 12 bs]" by blast
  have "\<exists>u. udp_send d k dest port bs s = Some (True, u) \<and> udp.more u = udp.more t"
    using assms(4,5,11) al p h(1) t(1) by (simp add: udp_send_def UDP_HEADER_LEN_def set_socket_def flip: s2_def)
  then show ?thesis using t(2) h(2,3) by metis
qed

theorem udp_send_overwrites_header_witness:
  "\<exists>t h. udp_send (sample_callees\<lparr>call_send := \<lambda>f i p s. (True, s\<lparr>udp.more := udp.more s @ [frame_of p s]\<rparr>)\<rparr>)
      0x3000 (Addr 10 1 2 3) 53 [1, 2] (sample_udp 0 []) = Some (True, t)
    \<and> udp.more t = [take 10 (header_bytes h)]"
proof -
  have tr: "udp_transmits (sample_callees\<lparr>call_send := \<lambda>f i p s. (True, s\<lparr>udp.more := udp.more s @ [frame_of p s]\<rparr>)\<rparr>)"
    by (simp add: udp_transmits_def)
  have "{0..<4} = {0, 1, 2, 3 :: nat}" by auto
  then have "route_matches (Addr 10 1 2 3) sample_route" by (simp add: route_matches_def sample_route_def)
  then have r: "ipv4_find_route (Addr 10 1 2 3) (sample_udp 0 []) = Some (0x2000, sample_route)"
    by (simp add: ipv4_find_route_def)
  have i: "route_iface sample_route = 0x100" by (simp add: sample_route_def)
  show ?thesis
    using udp_send_overwrites_header [OF tr _ _ _ _ r, of "0x3000" "[1, 2]" 53] i
    by (auto simp: sample_iface_def)
qed

text \<open>C19: a socket is a queue of bytes.  As long as a datagram fits behind the bytes not yet
  read, receiving it appends its payload to them, or nothing when the socket verifies checksums and
  the datagram's is wrong; and \<open>udp_receive\<close> takes bytes off the front, up to the number asked for.
  The boundaries between datagrams are not kept.\<close>

theorem udp_socket_queue:
  assumes "datagram_for iface packet k n s" and "k \<noteq> 0"
    and "unat (recv_len (socket_at s k)) + n \<le> unat (buffer_size (sock_config (socket_at s k)))"
    and "unat (recv_start (socket_at s k)) + unat (recv_len (socket_at s k)) + n \<le> buf_capacity (socket_at s k)"
  shows "\<exists>t. udp_receive_packet iface packet s = Some t
    \<and> pending (socket_at t k) = pending (socket_at s k)
        @ (if checksum_ok packet k s then get_at 8 n (pkt_data (packet_at s packet)) else [])
    \<and> fst (udp_receive k m t) = take (unat m) (pending (socket_at t k))
    \<and> pending (socket_at (snd (udp_receive k m t)) k) = drop (unat m) (pending (socket_at t k))"
proof -
  let ?x = "socket_at s k"
  have "\<exists>t. udp_receive_packet iface packet s = Some t
    \<and> pending (socket_at t k) = pending ?x
        @ (if checksum_ok packet k s then get_at 8 n (pkt_data (packet_at s packet)) else [])
    \<and> unat (recv_start (socket_at t k)) + unat (recv_len (socket_at t k)) < 2 ^ 32"
  proof (cases "checksum_ok packet k s")
    case True
    have n: "n < 65536"
      using assms(3) unsigned_less [of "buffer_size (sock_config ?x)", where 'a = nat] by simp
    obtain t where t: "udp_receive_packet iface packet s = Some t"
        "recv_len (socket_at t k) = recv_len ?x + of_nat n" "recv_start (socket_at t k) = recv_start ?x"
        "recv_bytes (socket_at t k) = put_at (unat (recv_start ?x) + unat (recv_len ?x))
           (get_at 8 n (pkt_data (packet_at s packet))) (recv_bytes ?x)"
      using receive_plain [OF assms(1) True] assms(3,4) by (simp add: upd_udp_stats_def)
    have len: "unat (recv_len (socket_at t k)) = unat (recv_len ?x) + n"
      using n assms(4) capacity_bounds(2) [of ?x] by (simp add: t(2) unat_add_small unat_of_nat)
    then have "pending (socket_at t k) = pending ?x @ get_at 8 n (pkt_data (packet_at s packet))"
      by (simp add: pending_def t(3,4) get_at_append)
    then show ?thesis using t(1,3) True len assms(4) capacity_bounds(2) [of ?x] by simp
  next
    case False
    obtain t where "udp_receive_packet iface packet s = Some t"
        "socket_at t k = upd_udp_stats (\<lambda>st. st\<lparr>checksum_errors := checksum_errors st + 1\<rparr>) ?x"
      using receive_corrupt [OF assms(1) False] by blast
    then show ?thesis using False assms(4) capacity_bounds(2) [of ?x] by (simp add: upd_udp_stats_def pending_def)
  qed
  then show ?thesis using receive_pending [OF assms(2)] by blast
qed

theorem udp_socket_queue_witness:
  "\<exists>t. udp_receive_packet 0x100 0x1000 (sample_udp 0 ()) = Some t
    \<and> fst (udp_receive 0x3000 3 t) = [1, 2, 3]"
proof -
  have "pending (sample_socket 0) = []" by (simp add: pending_def sample_socket_def)
  moreover have "get_at 8 4 (pkt_data sample_query) = [1, 2, 3, 4]"
    by (simp add: sample_query_def get_at_def put_at_def udp_header_bytes_def bytes16_def upt_rec)
  moreover have "unat (recv_len (sample_socket 0)) = 0" "unat (recv_start (sample_socket 0)) = 0"
      "unat (buffer_size (sock_config (sample_socket 0))) = 4096"
    by (simp_all add: sample_socket_def)
  ultimately show ?thesis
    using udp_socket_queue [OF sample_query_plain(1), of 0 "()" 3] sample_query_plain(2) [of 0 "()"] sample_capacity [of 0]
    by auto
qed

text \<open>C39: the space check of \<open>udp_receive_packet\<close> does not protect the buffer.  Reading part
  of a full buffer moves its start but not its contents; the check compares the length
  alone, so the next datagram that is no longer than what was read passes it and is
  written past the end of the buffer's blocks.\<close>

theorem udp_partial_read_overruns:
  assumes "datagram_for iface packet k n s" and "checksum_ok packet k s" and "k \<noteq> 0"
    and "4096 dvd unat (buffer_size (sock_config (socket_at s k)))"
    and "recv_start (socket_at s k) = 0"
    and "unat (recv_len (socket_at s k)) = unat (buffer_size (sock_config (socket_at s k)))"
    and "0 < unat m" and "unat m < unat (recv_len (socket_at s k))" and "0 < n" and "n \<le> unat m"
  shows "udp_receive_packet iface packet (snd (udp_receive k m s)) = None"
proof -
  let ?x = "socket_at s k" and ?t = "snd (udp_receive k m s)"
  have nz: "recv_len ?x \<noteq> 0" "m \<noteq> 0" using assms(7,8) by auto
  have sm: "unat (recv_start ?x) + unat (recv_len ?x) < 2 ^ 32" using assms(5) unsigned_less [of "recv_len ?x", where 'a = nat] by simp
  note r = receive_takes [OF assms(3) nz sm]
  let ?y = "socket_at ?t k"
  have y: "unat (recv_start ?y) = unat m" "unat (recv_len ?y) = unat (recv_len ?x) - unat m"
      "sock_config ?y = sock_config ?x"
    using r(3,4,5) assms(5,8) by auto
  have "buf_capacity ?y = unat (recv_len ?x)"
    using capacity_exact [of ?y] y(3) assms(4,6) by simp
  then show ?thesis
    using receive_plain [OF datagram_for_receive(1) [OF assms(1,3) nz sm] datagram_for_receive(2) [OF assms(1,3) nz sm assms(2)]] y assms(6,8-10) by simp
qed

theorem udp_partial_read_overruns_witness:
  "udp_receive_packet 0x100 0x1000 (snd (udp_receive 0x3000 100 (sample_udp 4096 ()))) = None"
  by (rule udp_partial_read_overruns [OF sample_query_plain]) (simp_all add: sample_socket_def)

end
