(* ===== verification/Tcp.thy ===== *)
theory Tcp
  imports Udp
begin

text \<open>
  TCP, net/tcp.c: connections with their send and receive buffers, segments received, and
  the option field of the header.  Connections are structs in a store indexed by address;
  \<open>connections\<close> is the linked list of their addresses.  \<open>None\<close> is a store past the
  blocks of a buffer.  Nothing in tcp.c hands a packet to IPv4: \<open>tcp_send\<close> only queues.
\<close>

subsection \<open>Data (tcp.h)\<close>

definition MAX_TCP_CONNECTIONS :: u32 where "MAX_TCP_CONNECTIONS = 256"
definition TCP_HEADER_LEN :: nat where "TCP_HEADER_LEN = 20"
definition TCP_FLAG_ACK :: u8 where "TCP_FLAG_ACK = 0x10"
definition TCP_OPT_END :: u8 where "TCP_OPT_END = 0"
definition TCP_OPT_NOP :: u8 where "TCP_OPT_NOP = 1"
definition TCP_OPT_MSS :: u8 where "TCP_OPT_MSS = 2"
definition TCP_OPT_WSCALE :: u8 where "TCP_OPT_WSCALE = 3"
definition TCP_OPT_SACK_PERM :: u8 where "TCP_OPT_SACK_PERM = 4"
definition TCP_OPT_TIMESTAMP :: u8 where "TCP_OPT_TIMESTAMP = 8"

datatype tcp_state = TCP_CLOSED | TCP_LISTEN | TCP_SYN_SENT | TCP_SYN_RECEIVED | TCP_ESTABLISHED
  | TCP_FIN_WAIT_1 | TCP_FIN_WAIT_2 | TCP_CLOSE_WAIT | TCP_CLOSING | TCP_LAST_ACK | TCP_TIME_WAIT

record tcp_config =
  mss :: u16
  window_scale :: u8
  sack_permitted :: bool
  timestamps :: bool
  initial_seq :: u32
  window_size :: u16
  retransmit_time :: u32
  keepalive_time :: u32

record tcp_stats =
  tcp_packets_sent :: u64
  tcp_packets_received :: u64
  tcp_bytes_sent :: u64
  tcp_bytes_received :: u64
  retransmissions :: u64
  duplicate_acks :: u64
  out_of_order :: u64
  window_probes :: u64
  keepalives_sent :: u64
  keepalives_received :: u64
  resets_sent :: u64
  resets_received :: u64
  segments_dropped :: u64

record tcp_conn =
  conn_local :: ipv4_addr
  conn_remote :: ipv4_addr
  conn_local_port :: u16
  conn_remote_port :: u16
  conn_state :: tcp_state
  conn_config :: tcp_config
  conn_stats :: tcp_stats
  snd_una :: u32
  snd_nxt :: u32
  snd_wnd :: u32
  rcv_nxt :: u32
  rcv_wnd :: u32
  conn_rto :: u32
  conn_srtt :: u32
  conn_rttvar :: u32
  conn_last_ack :: u32
  conn_keepalive :: u32
  conn_send_buf :: u32
  send_bytes :: buffer
  send_len :: u32
  conn_recv_buf :: u32
  conn_recv_bytes :: buffer
  conn_recv_len :: u32

record tcp = udp +
  connections :: "u32 list"
  connection_count :: u32
  current_time :: u32
  conn_at :: "u32 \<Rightarrow> tcp_conn"

definition no_tcp_stats :: tcp_stats where
  "no_tcp_stats = \<lparr>tcp_packets_sent = 0, tcp_packets_received = 0, tcp_bytes_sent = 0,
     tcp_bytes_received = 0, retransmissions = 0, duplicate_acks = 0, out_of_order = 0,
     window_probes = 0, keepalives_sent = 0, keepalives_received = 0, resets_sent = 0,
     resets_received = 0, segments_dropped = 0\<rparr>"

definition tcp_default_config :: tcp_config where
  "tcp_default_config = \<lparr>mss = 1460, window_scale = 0, sack_permitted = False, timestamps = False,
     initial_seq = 0, window_size = 65535, retransmit_time = 1000, keepalive_time = 7200000\<rparr>"

definition set_conn :: "u32 \<Rightarrow> (tcp_conn \<Rightarrow> tcp_conn) \<Rightarrow> 'a tcp_scheme \<Rightarrow> 'a tcp_scheme" where
  "set_conn k f s = s\<lparr>conn_at := (conn_at s)(k := f (conn_at s k))\<rparr>"

definition upd_tcp_stats :: "(tcp_stats \<Rightarrow> tcp_stats) \<Rightarrow> tcp_conn \<Rightarrow> tcp_conn" where
  "upd_tcp_stats f c = c\<lparr>conn_stats := f (conn_stats c)\<rparr>"

definition conn_blocks :: "tcp_conn \<Rightarrow> u32" where
  "conn_blocks c = buf_blocks (window_size (conn_config c))"

definition conn_capacity :: "tcp_conn \<Rightarrow> nat" where
  "conn_capacity c = 4096 * unat (conn_blocks c)"

subsection \<open>Connections\<close>

definition tcp_init :: "'a tcp_scheme \<Rightarrow> 'a tcp_scheme" where
  "tcp_init s = kprint (Puts (''TCP: Protocol initialized'' @ newline))
     (s\<lparr>connections := [], connection_count := 0, current_time := 0\<rparr>)"

text \<open>The struct after \<open>memset\<close>, the addresses and the configuration.\<close>

definition new_conn :: "ipv4_addr \<Rightarrow> u16 \<Rightarrow> ipv4_addr \<Rightarrow> u16 \<Rightarrow> tcp_config option \<Rightarrow> tcp_conn" where
  "new_conn laddr lport raddr rport config =
     \<lparr>conn_local = laddr, conn_remote = raddr, conn_local_port = lport, conn_remote_port = rport,
      conn_state = TCP_CLOSED,
      conn_config = (case config of None \<Rightarrow> tcp_default_config | Some c \<Rightarrow> c),
      conn_stats = no_tcp_stats, snd_una = 0, snd_nxt = 0, snd_wnd = 0, rcv_nxt = 0, rcv_wnd = 0,
      conn_rto = 0, conn_srtt = 0, conn_rttvar = 0, conn_last_ack = 0, conn_keepalive = 0,
      conn_send_buf = 0, send_bytes = (\<lambda>_. 0), send_len = 0,
      conn_recv_buf = 0, conn_recv_bytes = (\<lambda>_. 0), conn_recv_len = 0\<rparr>"

text \<open>The buffers and the fields set once both are there.\<close>

definition start_conn :: "u32 \<Rightarrow> u32 \<Rightarrow> 'a tcp_scheme \<Rightarrow> tcp_conn \<Rightarrow> tcp_conn" where
  "start_conn sbuf rbuf s c =
     (let cfg = conn_config c in
      c\<lparr>conn_send_buf := sbuf, send_bytes := (\<lambda>i. get_byte (sbuf + of_nat i) s),
        conn_recv_buf := rbuf, conn_recv_bytes := (\<lambda>i. get_byte (rbuf + of_nat i) s),
        snd_una := initial_seq cfg, snd_nxt := initial_seq cfg,
        snd_wnd := ucast (window_size cfg), rcv_wnd := ucast (window_size cfg),
        conn_rto := retransmit_time cfg, conn_keepalive := current_time s + keepalive_time cfg\<rparr>)"

definition tcp_create_connection ::
  "ipv4_addr \<Rightarrow> u16 \<Rightarrow> ipv4_addr \<Rightarrow> u16 \<Rightarrow> tcp_config option \<Rightarrow> 'a tcp_scheme \<Rightarrow> u32 \<times> 'a tcp_scheme"
where
  "tcp_create_connection laddr lport raddr rport config s =
     (if MAX_TCP_CONNECTIONS \<le> connection_count s then (0, s)
      else case pmm_alloc_blocks 1 s of (k, s1) \<Rightarrow>
        if k = 0 then (0, s1)
        else
          let c = new_conn laddr lport raddr rport config; n = conn_blocks c;
              s2 = set_conn k (\<lambda>_. c) s1
          in case pmm_alloc_blocks n s2 of (sbuf, s3) \<Rightarrow>
             case pmm_alloc_blocks n s3 of (rbuf, s4) \<Rightarrow>
               let s5 = set_conn k (start_conn sbuf rbuf s4) s4
               in if sbuf = 0 \<or> rbuf = 0
                  then
                    let s6 = set_conn k (\<lambda>c. c\<lparr>conn_send_buf := sbuf, conn_recv_buf := rbuf\<rparr>) s4;
                        s7 = (if sbuf \<noteq> 0 then pmm_free_blocks sbuf n s6 else s6);
                        s8 = (if rbuf \<noteq> 0 then pmm_free_blocks rbuf n s7 else s7)
                    in (0, pmm_free_blocks k 1 s8)
                  else (k, s5\<lparr>connections := k # connections s5,
                               connection_count := connection_count s5 + 1\<rparr>))"

definition tcp_close_connection :: "u32 \<Rightarrow> 'a tcp_scheme \<Rightarrow> 'a tcp_scheme" where
  "tcp_close_connection k s =
     (if k = 0 then s
      else
        let s1 = (if k \<in> set (connections s)
                  then s\<lparr>connections := remove1 k (connections s), connection_count := connection_count s - 1\<rparr>
                  else s);
            c = conn_at s1 k;
            s2 = (if conn_send_buf c \<noteq> 0 then pmm_free_blocks (conn_send_buf c) (conn_blocks c) s1 else s1);
            s3 = (if conn_recv_buf c \<noteq> 0 then pmm_free_blocks (conn_recv_buf c) (conn_blocks c) s2 else s2)
        in pmm_free_blocks k 1 s3)"

definition tcp_cleanup :: "'a tcp_scheme \<Rightarrow> 'a tcp_scheme" where
  "tcp_cleanup s = fold tcp_close_connection (connections s) s"

subsection \<open>Data transfer\<close>

definition tcp_send :: "u32 \<Rightarrow> u8 list \<Rightarrow> 'a tcp_scheme \<Rightarrow> (bool \<times> 'a tcp_scheme) option" where
  "tcp_send k bs s =
     (let c = conn_at s k; n = of_nat (length bs) :: u32 in
      if k = 0 \<or> bs = [] then Some (False, s)
      else if conn_state c \<noteq> TCP_ESTABLISHED then Some (False, s)
      else if ucast (window_size (conn_config c)) < send_len c + n then Some (False, s)
      else if conn_capacity c < unat (send_len c) + length bs then None
      else Some (True, set_conn k (\<lambda>c. upd_tcp_stats (\<lambda>st. st\<lparr>tcp_bytes_sent := tcp_bytes_sent st + ucast n\<rparr>)
             (c\<lparr>send_bytes := put_at (unat (send_len c)) bs (send_bytes c), send_len := send_len c + n\<rparr>)) s))"

definition tcp_receive :: "u32 \<Rightarrow> u32 \<Rightarrow> 'a tcp_scheme \<Rightarrow> u8 list \<times> 'a tcp_scheme" where
  "tcp_receive k max_length s =
     (let c = conn_at s k; n = (if max_length < conn_recv_len c then max_length else conn_recv_len c) in
      if k = 0 \<or> max_length = 0 then ([], s)
      else if conn_state c \<noteq> TCP_ESTABLISHED then ([], s)
      else if n = 0 then ([], s)
      else (get_at 0 (unat n) (conn_recv_bytes c),
            set_conn k (\<lambda>c. c\<lparr>conn_recv_bytes := shift_down (unat n) (unat (conn_recv_len c - n)) (conn_recv_bytes c),
              conn_recv_len := conn_recv_len c - n, rcv_wnd := rcv_wnd c + n\<rparr>) s))"

subsection \<open>Segments received\<close>

definition header_len :: "buffer \<Rightarrow> u32" where
  "header_len b = push_bit 2 (ucast (drop_bit 4 (b 12)))"

definition find_conn :: "u16 \<Rightarrow> u16 \<Rightarrow> ipv4_addr \<Rightarrow> ipv4_addr \<Rightarrow> 'a tcp_scheme \<Rightarrow> u32 option" where
  "find_conn dport sport dest src s = find (\<lambda>k. let c = conn_at s k in
     conn_local_port c = dport \<and> conn_remote_port c = sport
     \<and> ipv4_addr_equals (conn_local c) dest \<and> ipv4_addr_equals (conn_remote c) src) (connections s)"

definition process_ack :: "u8 \<Rightarrow> u32 \<Rightarrow> tcp_conn \<Rightarrow> tcp_conn" where
  "process_ack flags ack c =
     (let acked = ack - snd_una c in
      if flags AND TCP_FLAG_ACK \<noteq> 0 \<and> 0 < acked \<and> acked \<le> send_len c
      then c\<lparr>send_bytes := shift_down (unat acked) (unat (send_len c - acked)) (send_bytes c),
             send_len := send_len c - acked, snd_una := ack\<rparr>
      else c)"

definition process_data :: "u32 \<Rightarrow> u8 list \<Rightarrow> tcp_conn \<Rightarrow> tcp_conn option" where
  "process_data seq payload c =
     (let n = of_nat (length payload) :: u32 in
      if payload = [] then Some c
      else if seq = rcv_nxt c \<and> conn_recv_len c + n \<le> ucast (window_size (conn_config c))
      then if conn_capacity c < unat (conn_recv_len c) + length payload then None
           else Some (upd_tcp_stats (\<lambda>st. st\<lparr>tcp_bytes_received := tcp_bytes_received st + ucast n\<rparr>)
                  (c\<lparr>conn_recv_bytes := put_at (unat (conn_recv_len c)) payload (conn_recv_bytes c),
                     conn_recv_len := conn_recv_len c + n, rcv_nxt := rcv_nxt c + n, rcv_wnd := rcv_wnd c - n\<rparr>))
      else Some (upd_tcp_stats (\<lambda>st. st\<lparr>out_of_order := out_of_order st + 1\<rparr>) c))"

text \<open>The \<open>switch\<close>: only an established connection does anything.\<close>

definition process_segment :: "net_packet \<Rightarrow> tcp_conn \<Rightarrow> tcp_conn option" where
  "process_segment p c =
     (let b = pkt_data p; hl = unat (header_len b) in
      if conn_state c = TCP_ESTABLISHED
      then process_data (get32 4 b) (get_at hl (unat (pkt_length p) - hl) b)
             (process_ack (b 13) (get32 8 b) (c\<lparr>snd_wnd := ucast (get16 14 b)\<rparr>))
      else Some c)"

definition tcp_receive_packet :: "u32 \<Rightarrow> u32 \<Rightarrow> 'a tcp_scheme \<Rightarrow> 'a tcp_scheme option" where
  "tcp_receive_packet iface packet s =
     (let p = packet_at s packet; b = pkt_data p in
      if iface = 0 \<or> packet = 0 \<or> unat (pkt_length p) < TCP_HEADER_LEN then Some s
      else if unat (header_len b) < TCP_HEADER_LEN \<or> pkt_length p < header_len b then Some s
      else case find_conn (get16 2 b) (get16 0 b) (dest_addr p) (src_addr p) s of
        None \<Rightarrow> Some s
      | Some k \<Rightarrow> (case process_segment p (conn_at s k) of
            None \<Rightarrow> None
          | Some c \<Rightarrow> Some (set_conn k (\<lambda>_. upd_tcp_stats
                (\<lambda>st. st\<lparr>tcp_packets_received := tcp_packets_received st + 1\<rparr>) c) s)))"

definition tcp_get_stats :: "u32 \<Rightarrow> 'a tcp_scheme \<Rightarrow> tcp_stats" where
  "tcp_get_stats k s = conn_stats (conn_at s k)"

definition tcp_reset_stats :: "u32 \<Rightarrow> 'a tcp_scheme \<Rightarrow> 'a tcp_scheme" where
  "tcp_reset_stats k s = (if k \<noteq> 0 then set_conn k (\<lambda>c. c\<lparr>conn_stats := no_tcp_stats\<rparr>) s else s)"

fun tcp_state_to_string :: "tcp_state \<Rightarrow> string" where
  "tcp_state_to_string TCP_CLOSED = ''CLOSED''"
| "tcp_state_to_string TCP_LISTEN = ''LISTEN''"
| "tcp_state_to_string TCP_SYN_SENT = ''SYN_SENT''"
| "tcp_state_to_string TCP_SYN_RECEIVED = ''SYN_RECEIVED''"
| "tcp_state_to_string TCP_ESTABLISHED = ''ESTABLISHED''"
| "tcp_state_to_string TCP_FIN_WAIT_1 = ''FIN_WAIT_1''"
| "tcp_state_to_string TCP_FIN_WAIT_2 = ''FIN_WAIT_2''"
| "tcp_state_to_string TCP_CLOSE_WAIT = ''CLOSE_WAIT''"
| "tcp_state_to_string TCP_CLOSING = ''CLOSING''"
| "tcp_state_to_string TCP_LAST_ACK = ''LAST_ACK''"
| "tcp_state_to_string TCP_TIME_WAIT = ''TIME_WAIT''"

subsection \<open>Options\<close>

text \<open>What the \<open>switch\<close> on the kind does to the configuration; \<open>l\<close> is the length byte.\<close>

definition apply_option :: "u8 \<Rightarrow> u8 \<Rightarrow> nat \<Rightarrow> buffer \<Rightarrow> tcp_config \<Rightarrow> tcp_config" where
  "apply_option kind l pos b cfg =
     (if kind = TCP_OPT_MSS then if l = 4 then cfg\<lparr>mss := get16 (pos + 2) b\<rparr> else cfg
      else if kind = TCP_OPT_WSCALE then if l = 3 then cfg\<lparr>window_scale := b (pos + 2)\<rparr> else cfg
      else if kind = TCP_OPT_SACK_PERM then if l = 2 then cfg\<lparr>sack_permitted := True\<rparr> else cfg
      else if kind = TCP_OPT_TIMESTAMP then if l = 10 then cfg\<lparr>timestamps := True\<rparr> else cfg
      else cfg)"

fun options_loop :: "nat \<Rightarrow> nat \<Rightarrow> buffer \<Rightarrow> tcp_config \<Rightarrow> bool \<times> tcp_config" where
  "options_loop pos options_len b cfg =
     (if options_len = 0 then (True, cfg)
      else if b pos = TCP_OPT_END then (True, cfg)
      else if b pos = TCP_OPT_NOP then options_loop (pos + 1) (options_len - 1) b cfg
      else if options_len < 2 then (False, cfg)
      else if unat (b (pos + 1)) < 2 \<or> options_len < unat (b (pos + 1)) then (False, cfg)
      else options_loop (pos + unat (b (pos + 1))) (options_len - unat (b (pos + 1))) b
             (apply_option (b pos) (b (pos + 1)) pos b cfg))"

declare options_loop.simps [simp del]

text \<open>The length of the options wraps around for a data offset below 5.\<close>

definition tcp_parse_options :: "buffer \<Rightarrow> tcp_config \<Rightarrow> bool \<times> tcp_config" where
  "tcp_parse_options b cfg = options_loop 20 (unat (header_len b - 20)) b cfg"

definition option_bytes :: "tcp_config \<Rightarrow> u8 list" where
  "option_bytes cfg =
     [TCP_OPT_MSS, 4] @ bytes16 (mss cfg)
     @ (if 0 < window_scale cfg then [TCP_OPT_WSCALE, 3, window_scale cfg] else [])
     @ (if sack_permitted cfg then [TCP_OPT_SACK_PERM, 2] else [])
     @ (if timestamps cfg then [TCP_OPT_TIMESTAMP, 10] @ bytes32 0 @ bytes32 0 else [])"

text \<open>\<open>while (offset & 3) options[offset++] = TCP_OPT_NOP\<close>\<close>

definition pad_options :: "u8 list \<Rightarrow> u8 list" where
  "pad_options bs = bs @ replicate ((4 - length bs mod 4) mod 4) TCP_OPT_NOP"

definition tcp_build_options :: "tcp_config \<Rightarrow> buffer \<Rightarrow> buffer" where
  "tcp_build_options cfg b =
     (let bs = pad_options (option_bytes cfg)
      in put_at 12 [push_bit 4 (of_nat ((20 + length bs) div 4))] (put_at 20 bs b))"

end
