(* ===== verification/Tcp_Stream.thy ===== *)
theory Tcp_Stream
  imports Tcp Udp_Sockets "HOL-Library.Sublist"
begin

text \<open>
  TCP connections as streams.  Whatever the network does with the segments of the peer (loss,
  duplication, reordering), what the application reads is a prefix of the peer's stream, and
  whatever acknowledgements arrive, the send buffer holds what has been sent and not been
  acknowledged.
\<close>

definition sendq :: "tcp_conn \<Rightarrow> u8 list" where
  "sendq c = get_at 0 (unat (send_len c)) (send_bytes c)"

definition recvq :: "tcp_conn \<Rightarrow> u8 list" where
  "recvq c = get_at 0 (unat (conn_recv_len c)) (conn_recv_bytes c)"

abbreviation conn_window :: "tcp_conn \<Rightarrow> nat" where
  "conn_window c \<equiv> unat (window_size (conn_config c))"

text \<open>The buffers stay within the window, and the receive window is what is left of it.\<close>

definition conn_ok :: "tcp_conn \<Rightarrow> bool" where
  "conn_ok c \<longleftrightarrow> conn_state c = TCP_ESTABLISHED \<and> unat (send_len c) \<le> conn_window c
     \<and> unat (conn_recv_len c) + unat (rcv_wnd c) = conn_window c"

lemma length_queues [simp]: "length (sendq c) = unat (send_len c)" "length (recvq c) = unat (conn_recv_len c)"
  by (simp_all add: sendq_def recvq_def)

lemma window_less: "conn_window c < 65536"
  using unsigned_less [of "window_size (conn_config c)", where 'a = nat] by simp

lemma conn_capacity_window: "conn_window c \<le> conn_capacity c"
  using capacity_bounds(1) [of "\<lparr>sock_addr = undefined, sock_port = undefined,
    sock_config = \<lparr>buffer_size = window_size (conn_config c), use_checksum = undefined, timeout = undefined\<rparr>,
    sock_stats = undefined, recv_buf = undefined, recv_bytes = undefined, recv_len = undefined, recv_start = undefined\<rparr>"]
  by (simp add: buf_capacity_def conn_capacity_def conn_blocks_def)

lemma conn_at_set [simp]:
  "conn_at (set_conn k f s) j = (if j = k then f (conn_at s k) else conn_at s j)"
  "connections (set_conn k f s) = connections s" "packet_at (set_conn k f s) = packet_at s"
  by (simp_all add: set_conn_def)

lemma conn_at_packet [simp]: "conn_at (set_packet q f s) = conn_at s"
  by (simp add: set_packet_def)

lemma upd_tcp_stats_fields [simp]:
  "sendq (upd_tcp_stats f c) = sendq c" "recvq (upd_tcp_stats f c) = recvq c"
  "conn_ok (upd_tcp_stats f c) = conn_ok c" "snd_una (upd_tcp_stats f c) = snd_una c"
  "rcv_nxt (upd_tcp_stats f c) = rcv_nxt c" "conn_config (upd_tcp_stats f c) = conn_config c"
  by (simp_all add: upd_tcp_stats_def sendq_def recvq_def conn_ok_def)

subsection \<open>One operation\<close>

text \<open>Same receive side, and the first \<open>a\<close> bytes of the send buffer acknowledged.\<close>

definition acked_by :: "nat \<Rightarrow> tcp_conn \<Rightarrow> tcp_conn \<Rightarrow> bool" where
  "acked_by a c c' \<longleftrightarrow> conn_ok c' \<and> recvq c' = recvq c \<and> rcv_nxt c' = rcv_nxt c
     \<and> conn_config c' = conn_config c
     \<and> a \<le> length (sendq c) \<and> sendq c' = drop a (sendq c) \<and> snd_una c' = snd_una c + of_nat a"

lemma process_ack_effect:
  assumes "conn_ok c"
  shows "\<exists>a. acked_by a c (process_ack flags ack c)"
proof -
  let ?n = "ack - snd_una c"
  show ?thesis
  proof (cases "flags AND TCP_FLAG_ACK \<noteq> 0 \<and> 0 < ?n \<and> ?n \<le> send_len c")
    case True
    then have le: "unat ?n \<le> unat (send_len c)" by (simp add: word_le_nat_alt)
    then have d: "unat (send_len c - ?n) = unat (send_len c) - unat ?n" using True by (blast intro: unat_sub_small)
    have w: "unat (send_len c) - unat ?n \<le> conn_window c" using assms by (auto simp: conn_ok_def)
    have "acked_by (unat ?n) c (process_ack flags ack c)"
      using assms True le d w get_at_drop [OF le, of 0 "send_bytes c"]
      by (simp add: acked_by_def process_ack_def Let_def conn_ok_def sendq_def recvq_def get_at_shift_down)
    then show ?thesis ..
  next
    case False
    then have "process_ack flags ack c = c" by (auto simp: process_ack_def Let_def)
    then have "acked_by 0 c (process_ack flags ack c)" using assms by (simp add: acked_by_def)
    then show ?thesis ..
  qed
qed

definition in_order :: "u32 \<Rightarrow> u8 list \<Rightarrow> tcp_conn \<Rightarrow> bool" where
  "in_order seq payload c \<longleftrightarrow> seq = rcv_nxt c \<and> length (recvq c) + length payload \<le> conn_window c"

definition data_taken :: "u32 \<Rightarrow> u8 list \<Rightarrow> tcp_conn \<Rightarrow> tcp_conn \<Rightarrow> bool" where
  "data_taken seq payload c c' \<longleftrightarrow> conn_ok c' \<and> sendq c' = sendq c \<and> snd_una c' = snd_una c
     \<and> conn_config c' = conn_config c
     \<and> recvq c' = recvq c @ (if in_order seq payload c then payload else [])
     \<and> rcv_nxt c' = rcv_nxt c + (if in_order seq payload c then of_nat (length payload) else 0)"

lemma process_data_effect:
  assumes ok: "conn_ok c" and small: "length payload < 2 ^ 32 - 65536"
  shows "\<exists>c'. process_data seq payload c = Some c' \<and> data_taken seq payload c c'"
proof -
  let ?n = "length payload"
  have w: "unat (conn_recv_len c) \<le> conn_window c" "conn_window c < 65536"
    using ok window_less [of c] by (simp_all add: conn_ok_def)
  have n: "unat (of_nat ?n :: u32) = ?n" using small by (simp add: unat_of_nat)
  have s: "unat (conn_recv_len c + of_nat ?n) = unat (conn_recv_len c) + ?n"
    using n w small by (subst unat_add_small) simp_all
  have fits: "conn_recv_len c + of_nat ?n \<le> ucast (window_size (conn_config c))
      \<longleftrightarrow> unat (conn_recv_len c) + ?n \<le> conn_window c"
    using s by (simp add: word_le_nat_alt unat_ucast_up)
  show ?thesis
  proof (cases "in_order seq payload c \<and> payload \<noteq> []")
    case True
    then have "?n \<le> unat (rcv_wnd c)" using ok by (simp add: in_order_def conn_ok_def)
    then have "unat (rcv_wnd c - of_nat ?n) = unat (rcv_wnd c) - ?n"
      using n by (metis unat_sub_small word_le_nat_alt)
    then show ?thesis
      using True ok s n fits conn_capacity_window [of c] get_at_append [of payload ?n 0 "unat (conn_recv_len c)"]
      by (simp add: process_data_def in_order_def Let_def data_taken_def conn_ok_def upd_tcp_stats_def
            sendq_def recvq_def)
  next
    case False
    then show ?thesis
      using ok fits by (auto simp: process_data_def in_order_def Let_def data_taken_def)
  qed
qed

text \<open>A segment for the connection.\<close>

definition segment_payload :: "net_packet \<Rightarrow> u8 list" where
  "segment_payload p = (let hl = unat (header_len (pkt_data p)) in get_at hl (unat (pkt_length p) - hl) (pkt_data p))"

abbreviation segment_seq :: "net_packet \<Rightarrow> u32" where
  "segment_seq p \<equiv> get32 4 (pkt_data p)"

lemma process_segment_effect:
  assumes ok: "conn_ok c" and small: "unat (pkt_length p) < 2 ^ 32 - 65536"
  shows "\<exists>a c1 c'. process_segment p c = Some c' \<and> acked_by a c c1
    \<and> data_taken (segment_seq p) (segment_payload p) c1 c'"
proof -
  let ?c0 = "c\<lparr>snd_wnd := ucast (get16 14 (pkt_data p))\<rparr>"
  have "conn_ok ?c0" using ok by (simp add: conn_ok_def)
  then obtain a where a: "acked_by a ?c0 (process_ack (pkt_data p 13) (get32 8 (pkt_data p)) ?c0)"
    using process_ack_effect by blast
  let ?c1 = "process_ack (pkt_data p 13) (get32 8 (pkt_data p)) ?c0"
  have "length (segment_payload p) < 2 ^ 32 - 65536" using small by (simp add: segment_payload_def Let_def)
  then obtain c' where c': "process_data (segment_seq p) (segment_payload p) ?c1 = Some c'"
      "data_taken (segment_seq p) (segment_payload p) ?c1 c'"
    using process_data_effect [of ?c1] a by (auto simp: acked_by_def)
  have "acked_by a c ?c1" using a by (simp add: acked_by_def recvq_def sendq_def)
  then show ?thesis
    using c' ok by (intro exI [of _ a] exI [of _ ?c1] exI [of _ c'])
      (simp add: process_segment_def Let_def conn_ok_def segment_payload_def)
qed

lemma tcp_send_effect:
  assumes ok: "conn_ok (conn_at s k)" and run: "tcp_send k bs s = Some (r, t)"
  shows "conn_ok (conn_at t k) \<and> recvq (conn_at t k) = recvq (conn_at s k)
    \<and> rcv_nxt (conn_at t k) = rcv_nxt (conn_at s k) \<and> snd_una (conn_at t k) = snd_una (conn_at s k)
    \<and> sendq (conn_at t k) = sendq (conn_at s k) @ (if r then bs else [])"
proof (cases r)
  case False
  then have "t = s" using run by (auto simp: tcp_send_def Let_def split: if_splits)
  then show ?thesis using ok False by simp
next
  case True
  let ?c = "conn_at s k"
  have run': "\<not> ucast (window_size (conn_config ?c)) < send_len ?c + of_nat (length bs)"
      "unat (send_len ?c) + length bs \<le> conn_capacity ?c"
    and t: "conn_at t k = upd_tcp_stats
        (\<lambda>st. st\<lparr>tcp_bytes_sent := tcp_bytes_sent st + ucast (of_nat (length bs) :: u32)\<rparr>)
        (?c\<lparr>send_bytes := put_at (unat (send_len ?c)) bs (send_bytes ?c),
            send_len := send_len ?c + of_nat (length bs)\<rparr>)"
    using run True by (auto simp: tcp_send_def Let_def split: if_splits)
  have "conn_capacity ?c \<le> 65536 + 4096"
    using capacity_bounds(2) [of "\<lparr>sock_addr = undefined, sock_port = undefined,
      sock_config = \<lparr>buffer_size = window_size (conn_config ?c), use_checksum = undefined, timeout = undefined\<rparr>,
      sock_stats = undefined, recv_buf = undefined, recv_bytes = undefined, recv_len = undefined, recv_start = undefined\<rparr>"]
    by (simp add: buf_capacity_def conn_capacity_def conn_blocks_def)
  then have small: "unat (send_len ?c) + length bs \<le> 69632" using run'(2) by simp
  then have n: "unat (of_nat (length bs) :: u32) = length bs" by (simp add: unat_of_nat)
  have len: "unat (send_len ?c + of_nat (length bs)) = unat (send_len ?c) + length bs"
    using small n by (subst unat_add_small) simp_all
  have "unat (send_len ?c) + length bs \<le> conn_window ?c"
    using run'(1) len by (simp add: word_less_nat_alt unat_ucast_up)
  then show ?thesis
    using ok True len get_at_append [of bs "length bs" 0 "unat (send_len ?c)"]
    by (simp add: t conn_ok_def upd_tcp_stats_def sendq_def recvq_def)
qed

lemma tcp_receive_effect:
  assumes k: "k \<noteq> 0" and ok: "conn_ok (conn_at s k)" and run: "tcp_receive k m s = (bs, t)"
  shows "conn_ok (conn_at t k) \<and> bs @ recvq (conn_at t k) = recvq (conn_at s k)
    \<and> bs = take (unat m) (recvq (conn_at s k))
    \<and> rcv_nxt (conn_at t k) = rcv_nxt (conn_at s k) \<and> snd_una (conn_at t k) = snd_una (conn_at s k)
    \<and> sendq (conn_at t k) = sendq (conn_at s k)"
proof -
  let ?c = "conn_at s k"
  define n where "n = (if m < conn_recv_len ?c then m else conn_recv_len ?c)"
  have n: "unat n = min (unat m) (unat (conn_recv_len ?c))" by (auto simp: n_def word_less_nat_alt)
  have le: "n \<le> conn_recv_len ?c" "unat n \<le> unat (conn_recv_len ?c)"
    by (auto simp: n_def n word_le_nat_alt word_less_nat_alt)
  have tk: "take (unat n) (recvq ?c) = take (unat m) (recvq ?c)" by (auto simp: n min_def)
  have st: "conn_state ?c = TCP_ESTABLISHED" using ok by (simp add: conn_ok_def)
  show ?thesis
  proof (cases "n = 0")
    case True
    then have "unat m = 0 \<or> unat (conn_recv_len ?c) = 0" using n by (simp add: min_def split: if_splits)
    then have "take (unat m) (recvq ?c) = []" by (metis length_queues(2) length_0_conv take_Nil take_0)
    moreover have "bs = []" "t = s"
      using run k st True by (auto simp: tcp_receive_def Let_def simp flip: n_def split: if_splits)
    ultimately show ?thesis using ok by simp
  next
    case False
    then have m: "m \<noteq> 0" by (auto simp: n_def word_gt_0 split: if_splits)
    have bs: "bs = get_at 0 (unat n) (conn_recv_bytes ?c)"
      and t: "t = set_conn k (\<lambda>c. c\<lparr>conn_recv_bytes := shift_down (unat n) (unat (conn_recv_len c - n)) (conn_recv_bytes c),
              conn_recv_len := conn_recv_len c - n, rcv_wnd := rcv_wnd c + n\<rparr>) s"
      using run k st m False by (auto simp: tcp_receive_def Let_def simp flip: n_def)
    have take: "bs = take (unat n) (recvq ?c)" using le get_at_take [of "unat n" _ 0] by (simp add: bs recvq_def)
    have d: "unat (conn_recv_len ?c - n) = unat (conn_recv_len ?c) - unat n"
      using le(1) by (rule unat_sub_small)
    have q: "recvq (conn_at t k) = drop (unat n) (recvq ?c)"
      using d get_at_drop [OF le(2), of 0] by (simp add: t recvq_def get_at_shift_down)
    have "unat (rcv_wnd ?c + n) = unat (rcv_wnd ?c) + unat n"
      using ok le window_less [of ?c] by (subst unat_add_small) (auto simp: conn_ok_def)
    then have "conn_ok (conn_at t k)" using ok le(2) d by (simp add: t conn_ok_def)
    moreover have "bs @ recvq (conn_at t k) = recvq ?c" using take q by (simp only: append_take_drop_id)
    ultimately show ?thesis using take tk by (simp add: t sendq_def)
  qed
qed

subsection \<open>Any history of a connection\<close>

text \<open>A segment that reaches the connection carries a piece of the peer's stream \<open>S\<close>, the
  sequence number telling which one.\<close>

definition truthful :: "u32 \<Rightarrow> u8 list \<Rightarrow> u32 \<Rightarrow> net_packet \<Rightarrow> 'a tcp_scheme \<Rightarrow> bool" where
  "truthful k S base p s \<longleftrightarrow>
     (find_conn (get16 2 (pkt_data p)) (get16 0 (pkt_data p)) (dest_addr p) (src_addr p) s = Some k \<longrightarrow>
       (\<exists>i \<le> length S. segment_seq p = base + of_nat i
          \<and> segment_payload p = take (length (segment_payload p)) (drop i S)))"

text \<open>\<open>stream_run k S base s0 sent out s\<close>: from \<open>s0\<close> the state \<open>s\<close> can be reached by calls
  for any connections and segments in any order; \<open>sent\<close> is what \<open>tcp_send\<close> accepted for
  connection \<open>k\<close> on the way and \<open>out\<close> what \<open>tcp_receive\<close> returned for it.\<close>

inductive stream_run :: "u32 \<Rightarrow> u8 list \<Rightarrow> u32 \<Rightarrow> 'a tcp_scheme \<Rightarrow> u8 list \<Rightarrow> u8 list \<Rightarrow> 'a tcp_scheme \<Rightarrow> bool"
  for k S base s0
where
  start: "stream_run k S base s0 [] [] s0"
| send: "\<lbrakk>stream_run k S base s0 sent out s; tcp_send k bs s = Some (r, t)\<rbrakk>
    \<Longrightarrow> stream_run k S base s0 (sent @ (if r then bs else [])) out t"
| send_other: "\<lbrakk>stream_run k S base s0 sent out s; j \<noteq> k; tcp_send j bs s = Some (r, t)\<rbrakk>
    \<Longrightarrow> stream_run k S base s0 sent out t"
| read: "\<lbrakk>stream_run k S base s0 sent out s; tcp_receive k m s = (bs, t)\<rbrakk>
    \<Longrightarrow> stream_run k S base s0 sent (out @ bs) t"
| read_other: "\<lbrakk>stream_run k S base s0 sent out s; j \<noteq> k; tcp_receive j m s = (bs, t)\<rbrakk>
    \<Longrightarrow> stream_run k S base s0 sent out t"
| segment: "\<lbrakk>stream_run k S base s0 sent out s; truthful k S base p s;
      unat (pkt_length p) < 2 ^ 32 - 65536; tcp_receive_packet i q (set_packet q (\<lambda>_. p) s) = Some t\<rbrakk>
    \<Longrightarrow> stream_run k S base s0 sent out t"

definition fresh_stream :: "u32 \<Rightarrow> u32 \<Rightarrow> 'a tcp_scheme \<Rightarrow> bool" where
  "fresh_stream k base s \<longleftrightarrow> k \<noteq> 0 \<and> conn_ok (conn_at s k) \<and> send_len (conn_at s k) = 0
     \<and> conn_recv_len (conn_at s k) = 0 \<and> rcv_nxt (conn_at s k) = base"

definition stream_inv :: "u8 list \<Rightarrow> u32 \<Rightarrow> u32 \<Rightarrow> u8 list \<Rightarrow> u8 list \<Rightarrow> tcp_conn \<Rightarrow> bool" where
  "stream_inv S base una sent out c \<longleftrightarrow> conn_ok c
     \<and> (\<exists>n \<le> length S. out @ recvq c = take n S \<and> rcv_nxt c = base + of_nat n)
     \<and> (\<exists>a \<le> length sent. sendq c = drop a sent \<and> snd_una c = una + of_nat a)"

lemma stream_inv_acked:
  assumes "stream_inv S base una sent out c" and "acked_by a c c'"
  shows "stream_inv S base una sent out c'"
proof -
  obtain b where b: "b \<le> length sent" "sendq c = drop b sent" "snd_una c = una + of_nat b"
    using assms(1) by (auto simp: stream_inv_def)
  have "sendq c' = drop (b + a) sent" "snd_una c' = una + of_nat (b + a)" "a \<le> length sent - b"
    using assms(2) b by (simp_all add: acked_by_def add.commute)
  moreover from this(3) have "b + a \<le> length sent" using b(1) by linarith
  ultimately show ?thesis using assms unfolding stream_inv_def acked_by_def by metis
qed

lemma stream_inv_data:
  assumes inv: "stream_inv S base una sent out c" and taken: "data_taken seq payload c c'"
    and S: "length S < 2 ^ 32" and i: "i \<le> length S" "seq = base + of_nat i"
    and payload: "payload = take (length payload) (drop i S)"
  shows "stream_inv S base una sent out c'"
proof (cases "in_order seq payload c")
  case False
  then show ?thesis using inv taken by (simp add: stream_inv_def data_taken_def)
next
  case True
  obtain n where n: "n \<le> length S" "out @ recvq c = take n S" "rcv_nxt c = base + of_nat n"
    using inv by (auto simp: stream_inv_def)
  have "(of_nat i :: u32) = of_nat n" using True i(2) n(3) by (simp add: in_order_def)
  then have "unat (of_nat i :: u32) = unat (of_nat n :: u32)" by simp
  then have "i = n" using S i(1) n(1) by (simp add: unat_of_nat)
  moreover have "length payload \<le> length S - i" using payload by (metis length_drop length_take min.cobounded2 min.commute)
  ultimately have "out @ recvq c' = take (n + length payload) S" "n + length payload \<le> length S"
    using True taken n payload i(1) by (simp_all add: data_taken_def take_add flip: append_assoc)
  moreover have "rcv_nxt c' = base + of_nat (n + length payload)"
    using True taken n(3) by (simp add: data_taken_def)
  ultimately show ?thesis
    using inv taken unfolding stream_inv_def data_taken_def by metis
qed

lemma stream_inv_stats [simp]: "stream_inv S base una sent out (upd_tcp_stats f c) = stream_inv S base una sent out c"
  by (simp add: stream_inv_def)

lemma stream_inv_segment:
  assumes inv: "stream_inv S base una sent out (conn_at s k)" and S: "length S < 2 ^ 32"
    and p: "truthful k S base p s" "unat (pkt_length p) < 2 ^ 32 - 65536"
    and run: "tcp_receive_packet i q (set_packet q (\<lambda>_. p) s) = Some t"
  shows "stream_inv S base una sent out (conn_at t k)"
proof -
  let ?s = "set_packet q (\<lambda>_. p) s"
  have pk: "packet_at ?s q = p" by (simp add: set_packet_def)
  have fc: "find_conn a b c d ?s = find_conn a b c d s" for a b c d
    by (simp add: find_conn_def) (simp add: set_packet_def)
  let ?f = "find_conn (get16 2 (pkt_data p)) (get16 0 (pkt_data p)) (dest_addr p) (src_addr p) s"
  show ?thesis
  proof (cases "conn_at t k = conn_at s k")
    case True
    then show ?thesis using inv by simp
  next
    case False
    then obtain c' where f: "?f = Some k" and c': "process_segment p (conn_at s k) = Some c'"
      and t: "conn_at t k = upd_tcp_stats (\<lambda>st. st\<lparr>tcp_packets_received := tcp_packets_received st + 1\<rparr>) c'"
      using run by (auto simp: tcp_receive_packet_def Let_def pk fc split: if_splits option.splits)
    obtain j where j: "j \<le> length S" "segment_seq p = base + of_nat j"
        "segment_payload p = take (length (segment_payload p)) (drop j S)"
      using p(1) f by (auto simp: truthful_def)
    obtain a c1 where "acked_by a (conn_at s k) c1" "data_taken (segment_seq p) (segment_payload p) c1 c'"
      using process_segment_effect [OF _ p(2), of "conn_at s k"] c' inv by (auto simp: stream_inv_def)
    then have "stream_inv S base una sent out c'"
      using stream_inv_acked [OF inv] stream_inv_data [OF _ _ S j(1,2,3)] by blast
    then show ?thesis by (simp add: t)
  qed
qed

lemma other_connection:
  "j \<noteq> k \<Longrightarrow> tcp_send j bs s = Some (r, t) \<Longrightarrow> conn_at t k = conn_at s k"
  "j \<noteq> k \<Longrightarrow> tcp_receive j m s = (xs, t) \<Longrightarrow> conn_at t k = conn_at s k"
  by (auto simp: tcp_send_def tcp_receive_def Let_def split: if_splits)

lemma stream_run_inv:
  assumes "stream_run k S base s0 sent out s" and fresh: "fresh_stream k base s0" and S: "length S < 2 ^ 32"
  shows "stream_inv S base (snd_una (conn_at s0 k)) sent out (conn_at s k)"
  using assms(1)
proof (induction rule: stream_run.induct)
  case start
  have "sendq (conn_at s0 k) = []" "recvq (conn_at s0 k) = []"
    using fresh by (simp_all add: fresh_stream_def sendq_def recvq_def)
  then show ?case using fresh by (auto simp: stream_inv_def fresh_stream_def intro!: exI [of _ 0])
next
  case (send sent out s bs r t)
  let ?d = "if r then bs else []"
  have ok: "conn_ok (conn_at s k)" using send.IH by (simp add: stream_inv_def)
  note e = tcp_send_effect [OF ok send.hyps(2)]
  obtain a where "a \<le> length sent" "sendq (conn_at s k) = drop a sent"
      "snd_una (conn_at s k) = snd_una (conn_at s0 k) + of_nat a"
    using send.IH by (auto simp: stream_inv_def)
  then have "a \<le> length (sent @ ?d) \<and> sendq (conn_at t k) = drop a (sent @ ?d)
      \<and> snd_una (conn_at t k) = snd_una (conn_at s0 k) + of_nat a" using e by simp
  then show ?case using send.IH e unfolding stream_inv_def by metis
next
  case (read sent out s m bs t)
  have ok: "conn_ok (conn_at s k)" using read.IH by (simp add: stream_inv_def)
  have k: "k \<noteq> 0" using fresh by (simp add: fresh_stream_def)
  show ?case using read.IH tcp_receive_effect [OF k ok read.hyps(2)]
    by (simp add: stream_inv_def) (metis append_assoc)
qed (use other_connection stream_inv_segment [OF _ S] in metis)+

subsection \<open>Properties\<close>

text \<open>A connection with a window of 8 bytes, and a segment of 3 bytes for it.\<close>

definition sample_conn :: tcp_conn where
  "sample_conn = (new_conn (Addr 10 0 0 1) 80 (Addr 10 0 0 2) 1024
       (Some (tcp_default_config\<lparr>window_size := 8\<rparr>)))
     \<lparr>conn_state := TCP_ESTABLISHED, rcv_wnd := 8, rcv_nxt := 5\<rparr>"

definition sample_tcp :: tcp where
  "sample_tcp = sample_udp 0 (tcp.fields [0x100] 1 0 (\<lambda>_. sample_conn))"

definition sample_segment :: "net_packet" where
  "sample_segment = sample_packet\<lparr>pkt_length := 23, dest_addr := Addr 10 0 0 1, src_addr := Addr 10 0 0 2,
     pkt_data := put_at 0 ([0, 4, 80, 0, 5, 0, 0, 0, 0, 0, 0, 0, 0x50, 0, 8, 0, 0, 0, 0, 0] @ [1, 2, 3])
       (\<lambda>_. 0)\<rparr>"

text \<open>C4: what the application reads is the peer's stream.  Take any history of a connection
  that starts with empty buffers: calls of \<open>tcp_send\<close> and \<open>tcp_receive\<close> for any connection and
  segments in any order, lost, repeated or reordered, those for the connection carrying pieces
  of the peer's stream \<open>S\<close> of less than 4 GB.  The bytes read, followed by those waiting in the
  receive buffer, are a prefix of \<open>S\<close> and \<open>rcv_nxt\<close> is the number of the byte after it; the
  send buffer holds exactly the accepted bytes not yet acknowledged, however bad the
  acknowledgements; both buffers stay within the window, and the receive window announced is
  the room left.\<close>

theorem tcp_stream_in_order:
  assumes "fresh_stream k base s0" and "length S < 2 ^ 32" and "stream_run k S base s0 sent out s"
  defines "c \<equiv> conn_at s k"
  shows "prefix (out @ recvq c) S \<and> rcv_nxt c = base + of_nat (length (out @ recvq c))
    \<and> suffix (sendq c) sent \<and> snd_una c = snd_una (conn_at s0 k) + of_nat (length sent - length (sendq c))
    \<and> length (sendq c) \<le> conn_window c \<and> length (recvq c) + unat (rcv_wnd c) = conn_window c"
proof -
  have inv: "stream_inv S base (snd_una (conn_at s0 k)) sent out c"
    using stream_run_inv [OF assms(3,1,2)] by (simp add: c_def)
  then obtain n a where n: "n \<le> length S" "out @ recvq c = take n S" "rcv_nxt c = base + of_nat n"
    and a: "a \<le> length sent" "sendq c = drop a sent" "snd_una c = snd_una (conn_at s0 k) + of_nat a"
    by (auto simp: stream_inv_def)
  have "length (out @ recvq c) = n" "length sent - length (sendq c) = a"
    unfolding n(2) a(2) using n(1) a(1) by simp_all
  moreover have "length (sendq c) \<le> conn_window c" "length (recvq c) + unat (rcv_wnd c) = conn_window c"
    using inv by (simp_all add: stream_inv_def conn_ok_def)
  moreover have "prefix (out @ recvq c) S" "suffix (sendq c) sent"
    by (simp_all add: n(2) a(2) take_is_prefix suffix_drop)
  ultimately show ?thesis using n(3) a(3) by (simp only: simp_thms)
qed

lemma sample_tcp_fields [simp]:
  "conn_at sample_tcp = (\<lambda>_. sample_conn)" "connections sample_tcp = [0x100]"
  by (simp_all add: sample_tcp_def sample_udp_def sample_ipv4_def sample_state_def set_packet_def set_iface_def
        tcp.defs)

lemma sample_segment_fields:
  "header_len (pkt_data sample_segment) = 20" "get16 2 (pkt_data sample_segment) = 80"
  "get16 0 (pkt_data sample_segment) = 1024" "segment_seq sample_segment = 5"
  "pkt_data sample_segment 13 = 0" "pkt_length sample_segment = 23"
  "dest_addr sample_segment = Addr 10 0 0 1" "src_addr sample_segment = Addr 10 0 0 2"
  "get_at 20 3 (pkt_data sample_segment) = [1, 2, 3]"
  by (simp_all add: sample_segment_def header_len_def get16_def get32_def word16_def word32_def put_at_def get_at_def
        upt_rec)

text \<open>The segment arrives and the application reads two bytes.\<close>

lemma sample_run: "\<exists>t. stream_run 0x100 [1, 2, 3, 4] 5 sample_tcp [] [1, 2] t"
proof -
  let ?s = "set_packet 0x3000 (\<lambda>_. sample_segment) sample_tcp"
  have pk: "packet_at ?s 0x3000 = sample_segment" by (simp add: set_packet_def)
  have fc: "find_conn 80 1024 (Addr 10 0 0 1) (Addr 10 0 0 2) ?s = Some 0x100"
    "find_conn 80 1024 (Addr 10 0 0 1) (Addr 10 0 0 2) sample_tcp = Some 0x100"
    by (simp_all add: find_conn_def set_packet_def sample_conn_def new_conn_def)
  have ok: "conn_ok sample_conn" by (simp add: sample_conn_def conn_ok_def new_conn_def)
  have pl: "segment_payload sample_segment = [1, 2, 3]"
    by (simp add: segment_payload_def Let_def sample_segment_fields)
  have tr: "truthful 0x100 [1, 2, 3, 4] 5 sample_segment sample_tcp"
    by (auto simp: truthful_def sample_segment_fields fc pl intro!: exI [of _ 0])
  obtain a c1 c' where c': "process_segment sample_segment sample_conn = Some c'" "acked_by a sample_conn c1"
      "data_taken 5 [1, 2, 3] c1 c'"
    using process_segment_effect [OF ok, of sample_segment] by (auto simp: sample_segment_fields pl)
  let ?t = "set_conn 0x100 (\<lambda>_. upd_tcp_stats (\<lambda>st. st\<lparr>tcp_packets_received := tcp_packets_received st + 1\<rparr>) c') ?s"
  have "recvq sample_conn = []" "rcv_nxt sample_conn = 5" "conn_window sample_conn = 8"
    by (simp_all add: sample_conn_def recvq_def new_conn_def)
  then have "in_order 5 [1, 2, 3] c1"
    using c'(2) by (simp add: acked_by_def in_order_def)
  then have q: "recvq (conn_at ?t 0x100) = [1, 2, 3]" "conn_ok (conn_at ?t 0x100)"
    using c'(2,3) \<open>recvq sample_conn = []\<close> by (simp_all add: data_taken_def acked_by_def)
  have "tcp_receive_packet 0x200 0x3000 ?s = Some ?t"
    by (simp add: tcp_receive_packet_def Let_def pk sample_segment_fields fc c' TCP_HEADER_LEN_def)
  then have r: "stream_run 0x100 [1, 2, 3, 4] 5 sample_tcp [] [] ?t"
    using stream_run.segment [OF stream_run.start tr] by (simp add: sample_segment_fields)
  obtain bs t where t: "tcp_receive 0x100 2 ?t = (bs, t)" by force
  have "bs = [1, 2]" using tcp_receive_effect [OF _ q(2) t] q(1) by simp
  then show ?thesis using stream_run.read [OF r t] by auto
qed

theorem tcp_stream_in_order_witness:
  "\<exists>t. stream_run 0x100 [1, 2, 3, 4] 5 sample_tcp [] [1, 2] t
     \<and> prefix ([1, 2] @ recvq (conn_at t 0x100)) [1, 2, 3, 4]"
proof -
  have fresh: "fresh_stream 0x100 5 sample_tcp"
    by (simp add: fresh_stream_def sample_conn_def conn_ok_def new_conn_def)
  obtain t where t: "stream_run 0x100 [1, 2, 3, 4] 5 sample_tcp [] [1, 2] t" using sample_run by blast
  then show ?thesis using tcp_stream_in_order [OF fresh _ t] by auto
qed

end
