(* ===== verification/Tcp_States.thy ===== *)
theory Tcp_States
  imports Tcp_Stream
begin

text \<open>
  The states a TCP connection reaches through the functions of net/tcp.c.
\<close>

lemma tcp_mem_only:
  fixes s :: "'a tcp_scheme"
  assumes "mem_only s t"
  shows "connections t = connections s" "conn_at t = conn_at s" "connection_count t = connection_count s"
  using assms by (auto simp: mem_only_def)

lemma tcp_free_blocks [simp]:
  fixes s :: "'a tcp_scheme"
  shows "connections (pmm_free_blocks p n s) = connections s" "conn_at (pmm_free_blocks p n s) = conn_at s"
  by (simp_all add: tcp_mem_only)

lemma tcp_alloc_blocks:
  fixes s :: "'a tcp_scheme"
  shows "pmm_alloc_blocks n s = (p, t) \<Longrightarrow> connections t = connections s \<and> conn_at t = conn_at s"
  using mem_only_pmm(3) [of s n] by (simp add: tcp_mem_only)

text \<open>Everything a caller can do, with other code of the kernel in between that does not touch
  the connections.\<close>

inductive tcp_reachable :: "'a tcp_scheme \<Rightarrow> bool" where
  init: "tcp_reachable (tcp_init s)"
| create: "tcp_reachable s \<Longrightarrow> tcp_create_connection la lp ra rp config s = (k, t) \<Longrightarrow> tcp_reachable t"
| close: "tcp_reachable s \<Longrightarrow> tcp_reachable (tcp_close_connection k s)"
| cleanup: "tcp_reachable s \<Longrightarrow> tcp_reachable (tcp_cleanup s)"
| send: "tcp_reachable s \<Longrightarrow> tcp_send k bs s = Some (r, t) \<Longrightarrow> tcp_reachable t"
| receive: "tcp_reachable s \<Longrightarrow> tcp_receive k m s = (bs, t) \<Longrightarrow> tcp_reachable t"
| packet: "tcp_reachable s \<Longrightarrow> tcp_receive_packet i p s = Some t \<Longrightarrow> tcp_reachable t"
| reset: "tcp_reachable s \<Longrightarrow> tcp_reachable (tcp_reset_stats k s)"
| other: "tcp_reachable s \<Longrightarrow> connections t = connections s \<Longrightarrow> conn_at t = conn_at s \<Longrightarrow> tcp_reachable t"

definition all_closed :: "'a tcp_scheme \<Rightarrow> bool" where
  "all_closed s \<longleftrightarrow> (\<forall>k \<in> set (connections s). conn_state (conn_at s k) = TCP_CLOSED)"

lemma all_closedI:
  "all_closed s \<Longrightarrow> set (connections t) \<subseteq> set (connections s)
   \<Longrightarrow> (\<And>k. k \<in> set (connections s) \<Longrightarrow> conn_state (conn_at t k) = conn_state (conn_at s k)) \<Longrightarrow> all_closed t"
  unfolding all_closed_def by auto

lemma close_closed: "all_closed s \<Longrightarrow> all_closed (tcp_close_connection k s)"
  by (rule all_closedI [of s]) (auto simp: tcp_close_connection_def Let_def dest: set_remove1_subset [THEN subsetD])

lemma create_closed:
  assumes "all_closed s" and "tcp_create_connection la lp ra rp config s = (k, t)"
  shows "all_closed t"
proof -
  have n: "conn_state (new_conn la lp ra rp config) = TCP_CLOSED" by (simp add: new_conn_def)
  have "set (connections t) \<subseteq> insert k (set (connections s)) \<and> (\<forall>j \<in> set (connections t).
      conn_state (conn_at t j) = TCP_CLOSED \<or> conn_at t j = conn_at s j \<and> j \<in> set (connections s))"
    using assms(2) n
    by (auto simp: tcp_create_connection_def Let_def start_conn_def split: prod.splits if_splits
          dest!: tcp_alloc_blocks)
  then show ?thesis using assms(1) by (auto simp: all_closed_def)
qed

lemma process_segment_state: "process_segment p c = Some c' \<Longrightarrow> conn_state c' = conn_state c"
  by (auto simp: process_segment_def process_data_def process_ack_def upd_tcp_stats_def Let_def split: if_splits)

lemma reachable_closed: "tcp_reachable s \<Longrightarrow> all_closed s"
proof (induction rule: tcp_reachable.induct)
  case (cleanup s)
  have "all_closed (fold tcp_close_connection ks t)" if "all_closed t" for ks and t :: "'a tcp_scheme"
    using that by (induction ks arbitrary: t) (simp_all add: close_closed)
  then show ?case using cleanup.IH by (simp add: tcp_cleanup_def)
next
  case (send s k bs r t)
  then show ?case
    by (auto simp: tcp_send_def Let_def upd_tcp_stats_def split: if_splits elim!: all_closedI)
next
  case (receive s k m bs t)
  then show ?case
    by (auto simp: tcp_receive_def Let_def split: if_splits elim!: all_closedI)
next
  case (packet s i p t)
  then show ?case
    by (auto simp: tcp_receive_packet_def Let_def upd_tcp_stats_def process_segment_state
          split: if_splits option.splits elim!: all_closedI)
next
  case (reset s k)
  then show ?case by (auto simp: tcp_reset_stats_def elim!: all_closedI)
qed (auto simp: tcp_init_def kprint_def all_closed_def close_closed [unfolded all_closed_def]
      dest: create_closed [unfolded all_closed_def])

subsection \<open>Creating a connection\<close>

lemma set_conn_pmm [simp]:
  "pmm_inv (set_conn k f s) = pmm_inv s" "free_count (set_conn k f s) = free_count s"
  "connection_count (set_conn k f s) = connection_count s"
  by (simp_all add: set_conn_def pmm_inv_def pmm_geom_def used_set_def pmm_test_block_def bm_addr_def
      rd32_def free_count_def)

lemma alloc_one:
  assumes "pmm_inv s" and "0 < free_count s"
  obtains p t where "pmm_alloc_blocks 1 s = (p, t)" "p \<noteq> 0" "pmm_inv t" "free_count s = Suc (free_count t)"
proof -
  obtain p t where a: "pmm_alloc_block s = (p, t)" by fastforce
  then show ?thesis
    using that [of p t] alloc_block_room [OF assms(1) a] pmm.alloc_inv [OF assms(1) a] assms
    by (simp add: pmm_alloc_blocks_1)
qed

text \<open>With three free blocks and a small window a connection is created.\<close>

lemma tcp_create_room:
  assumes "pmm_inv s" and room: "2 < free_count s" and "connection_count s < MAX_TCP_CONNECTIONS"
    and one: "conn_blocks (new_conn la lp ra rp config) = 1"
  shows "\<exists>k t. tcp_create_connection la lp ra rp config s = (k, t) \<and> k \<in> set (connections t)"
proof -
  let ?c = "new_conn la lp ra rp config"
  obtain k s1 where k: "pmm_alloc_blocks 1 s = (k, s1)" "k \<noteq> 0" "pmm_inv s1" "free_count s = Suc (free_count s1)"
    by (rule alloc_one [OF assms(1)]) (use room in auto)
  let ?s2 = "set_conn k (\<lambda>_. ?c) s1"
  obtain p s3 where p: "pmm_alloc_blocks 1 ?s2 = (p, s3)" "p \<noteq> 0" "pmm_inv s3" "free_count ?s2 = Suc (free_count s3)"
    by (rule alloc_one [of ?s2]) (use k room in auto)
  obtain q s4 where q: "pmm_alloc_blocks 1 s3 = (q, s4)" "q \<noteq> 0"
    by (rule alloc_one [OF p(3)]) (use k p(4) room in auto)
  show ?thesis
    using assms(3) k(1,2) p(1,2) q by (simp add: tcp_create_connection_def one Let_def not_le [symmetric])
qed

subsection \<open>Properties\<close>

text \<open>C22: no TCP connection is ever established.  Whatever is called, and whatever segments
  arrive, a connection created by \<open>tcp_create_connection\<close> stays in the state CLOSED, so that
  \<open>tcp_send\<close> refuses every byte and \<open>tcp_receive\<close> returns none, and a segment that reaches it
  changes nothing but a counter.\<close>

theorem tcp_never_established:
  assumes "tcp_reachable s" and "k \<in> set (connections s)"
  shows "conn_state (conn_at s k) = TCP_CLOSED \<and> tcp_send k bs s = Some (False, s)
    \<and> tcp_receive k m s = ([], s) \<and> process_segment p (conn_at s k) = Some (conn_at s k)"
  using reachable_closed [OF assms(1)] assms(2)
  by (simp add: all_closed_def tcp_send_def tcp_receive_def process_segment_def Let_def)

lemma sample_boot: "\<exists>(t :: tcp) k. tcp_reachable t \<and> k \<in> set (connections t)"
proof -
  define s :: tcp where "s = tcp_init (sample_udp 0 (tcp.fields [] 0 0 (\<lambda>_. sample_conn)))"
  have "pmm_inv s" "free_count s = 28"
    using sample_udp_fields(7,8) [of 0 "tcp.fields [] 0 0 (\<lambda>_. sample_conn)"]
    by (simp_all add: s_def tcp_init_def pmm_inv_def pmm_geom_def used_set_def free_count_def)
      (simp_all add: pmm_test_block_def bm_addr_def rd32_def kprint_def)
  moreover have "connection_count s = 0" by (simp add: s_def tcp_init_def kprint_def)
  moreover have "conn_blocks (new_conn a b c d (Some (tcp_default_config\<lparr>window_size := 8\<rparr>))) = 1" for a b c d
    by (simp add: conn_blocks_def new_conn_def buf_blocks_def)
  ultimately obtain k t where "tcp_create_connection (Addr 10 0 0 1) 80 (Addr 10 0 0 2) 1024
        (Some (tcp_default_config\<lparr>window_size := 8\<rparr>)) s = (k, t)" "k \<in> set (connections t)"
    using tcp_create_room [of s "Addr 10 0 0 1" 80 "Addr 10 0 0 2" 1024
      "Some (tcp_default_config\<lparr>window_size := 8\<rparr>)"] by (auto simp: MAX_TCP_CONNECTIONS_def)
  moreover have "tcp_reachable s" unfolding s_def by (rule tcp_reachable.init)
  ultimately show ?thesis using tcp_reachable.create by blast
qed

theorem tcp_never_established_witness:
  "\<exists>(t :: tcp) k. tcp_reachable t \<and> k \<in> set (connections t) \<and> tcp_send k [1] t = Some (False, t)"
proof -
  obtain t :: tcp and k where "tcp_reachable t" "k \<in> set (connections t)" using sample_boot by blast
  then show ?thesis using tcp_never_established [of t k "[1]"] by blast
qed

end
