(* ===== verification/Tcp_Options.thy ===== *)
theory Tcp_Options
  imports Tcp
begin

text \<open>
  The option field of the TCP header: a reference encoding, what the parser makes of it, and
  the round trip with the builder.
\<close>

text \<open>Options as the RFC sees them: the no-operation byte, or a kind with its data.\<close>

datatype tcp_option = Nop | Opt (opt_kind: u8) (opt_data: "u8 list")

fun encode_option :: "tcp_option \<Rightarrow> u8 list" where
  "encode_option Nop = [TCP_OPT_NOP]"
| "encode_option (Opt kind xs) = [kind, of_nat (2 + length xs)] @ xs"

fun well_formed :: "tcp_option \<Rightarrow> bool" where
  "well_formed Nop = True"
| "well_formed (Opt kind xs) = (kind \<noteq> TCP_OPT_END \<and> kind \<noteq> TCP_OPT_NOP \<and> length xs < 254)"

text \<open>What an option says about the configuration; options of other kinds or lengths say
  nothing.\<close>

fun option_effect :: "tcp_option \<Rightarrow> tcp_config \<Rightarrow> tcp_config" where
  "option_effect Nop cfg = cfg"
| "option_effect (Opt kind xs) cfg =
     (if kind = TCP_OPT_MSS \<and> length xs = 2 then cfg\<lparr>mss := word16 (xs ! 0) (xs ! 1)\<rparr>
      else if kind = TCP_OPT_WSCALE \<and> length xs = 1 then cfg\<lparr>window_scale := xs ! 0\<rparr>
      else if kind = TCP_OPT_SACK_PERM \<and> length xs = 0 then cfg\<lparr>sack_permitted := True\<rparr>
      else if kind = TCP_OPT_TIMESTAMP \<and> length xs = 8 then cfg\<lparr>timestamps := True\<rparr>
      else cfg)"

abbreviation encode_options :: "tcp_option list \<Rightarrow> u8 list" where
  "encode_options os \<equiv> concat (map encode_option os)"

lemmas opt_consts = TCP_OPT_END_def TCP_OPT_NOP_def TCP_OPT_MSS_def TCP_OPT_WSCALE_def
  TCP_OPT_SACK_PERM_def TCP_OPT_TIMESTAMP_def

lemma u8_of_nat: "n < 256 \<Longrightarrow> unat (of_nat n :: u8) = n"
  by (simp add: unat_of_nat)

lemma u8_inj: "m < 256 \<Longrightarrow> n < 256 \<Longrightarrow> (of_nat m :: u8) = of_nat n \<longleftrightarrow> m = n"
proof
  assume "m < 256" "n < 256" "(of_nat m :: u8) = of_nat n"
  then have "unat (of_nat m :: u8) = unat (of_nat n :: u8)" by simp
  then show "m = n" using \<open>m < 256\<close> \<open>n < 256\<close> by (simp add: unat_of_nat)
qed simp

text \<open>Reading at the position of an encoded list.\<close>

lemma get_at_Cons: "get_at off (Suc n) b = x # ys \<longleftrightarrow> b off = x \<and> get_at (Suc off) n b = ys"
  by (simp add: get_at_def upt_conv_Cons del: upt_Suc)

lemma get_at_app:
  "get_at off (m + n) b = xs @ ys \<Longrightarrow> length xs = m \<Longrightarrow> get_at off m b = xs \<and> get_at (off + m) n b = ys"
  by (simp add: get_at_split)

lemma apply_option_effect:
  assumes "well_formed (Opt kind xs)" and "get_at pos (length xs + 2) b = encode_option (Opt kind xs)"
  shows "apply_option kind (of_nat (2 + length xs)) pos b cfg = option_effect (Opt kind xs) cfg"
proof -
  have d: "b (pos + 2 + i) = xs ! i" if "i < length xs" for i
  proof -
    have "b (pos + 2 + i) = get_at pos (length xs + 2) b ! (i + 2)"
      using that by (subst nth_get_at) (simp_all add: ac_simps)
    then show ?thesis unfolding assms(2) by simp
  qed
  let ?l = "of_nat (2 + length xs) :: u8"
  have l: "length xs < 254" using assms(1) by simp
  then have "?l = 4 \<longleftrightarrow> length xs = 2" "?l = 3 \<longleftrightarrow> length xs = 1" "?l = 2 \<longleftrightarrow> length xs = 0"
      "?l = 10 \<longleftrightarrow> length xs = 8"
    using u8_inj [of "2 + length xs" 4] u8_inj [of "2 + length xs" 3] u8_inj [of "2 + length xs" 2]
      u8_inj [of "2 + length xs" 10] by simp_all
  then show ?thesis
    using d [of 0] d [of 1] by (auto simp: apply_option_def opt_consts get16_def simp del: of_nat_add)
qed

text \<open>The parser takes a list of well-formed options one by one.\<close>

lemma options_loop_encoded:
  assumes "list_all well_formed os" and "get_at pos (length (encode_options os)) b = encode_options os"
  shows "options_loop pos (length (encode_options os) + rest) b cfg
    = options_loop (pos + length (encode_options os)) rest b (fold option_effect os cfg)"
  using assms
proof (induction os arbitrary: pos cfg)
  case (Cons opt os)
  let ?n = "length (encode_options os)"
  have here: "get_at pos (length (encode_option opt)) b = encode_option opt"
    and after: "get_at (pos + length (encode_option opt)) ?n b = encode_options os"
    using get_at_app [of pos "length (encode_option opt)" ?n b "encode_option opt" "encode_options os"]
      Cons.prems(2) by simp_all
  show ?case
  proof (cases opt)
    case Nop
    then have "b pos = TCP_OPT_NOP" using here by (simp add: get_at_def)
    then show ?thesis
      using Cons.IH [of "pos + 1"] Cons.prems(1) after Nop
      by (subst options_loop.simps) (simp add: opt_consts)
  next
    case (Opt kind xs)
    let ?m = "length xs + 2"
    have l: "length xs < 254" using Cons.prems(1) Opt by simp
    define w :: u8 where "w = of_nat (2 + length xs)"
    have m: "unat w = ?m" using l u8_of_nat [of "2 + length xs"] by (simp add: w_def del: of_nat_add)
    have enc: "get_at pos ?m b = encode_option (Opt kind xs)" using here Opt by simp
    have b: "b pos = kind" "b (pos + 1) = w"
      using nth_get_at [of 0 ?m pos b] nth_get_at [of 1 ?m pos b] unfolding enc w_def by simp_all
    have eff: "apply_option kind w pos b cfg = option_effect opt cfg"
      using apply_option_effect [OF _ enc] Cons.prems(1) Opt unfolding w_def by simp
    have "options_loop pos (?m + (?n + rest)) b cfg = options_loop (pos + ?m) (?n + rest) b (option_effect opt cfg)"
      using Cons.prems(1) Opt b eff m by (subst options_loop.simps) (simp del: option_effect.simps)
    then show ?thesis
      using Cons.IH [of "pos + ?m"] Cons.prems(1) after Opt by (simp add: add.assoc del: option_effect.simps)
  qed
qed simp

text \<open>A whole header whose data offset says that the options fill the rest of it.\<close>

lemma tcp_parse_encoded:
  assumes "list_all well_formed os" and "length (encode_options os) \<le> 40"
    and "header_len b = of_nat (20 + length (encode_options os))"
    and "get_at 20 (length (encode_options os)) b = encode_options os"
  shows "tcp_parse_options b cfg = (True, fold option_effect os cfg)"
proof -
  let ?n = "length (encode_options os)"
  have "unat (header_len b - 20) = ?n" using assms(2) by (simp add: assms(3) unat_of_nat)
  moreover have "options_loop p 0 b c = (True, c)" for p c by (simp add: options_loop.simps)
  ultimately show ?thesis
    using options_loop_encoded [OF assms(1,4), of 0] by (simp add: tcp_parse_options_def)
qed

text \<open>The options the builder writes.\<close>

definition config_options :: "tcp_config \<Rightarrow> tcp_option list" where
  "config_options cfg =
     [Opt TCP_OPT_MSS (bytes16 (mss cfg))]
     @ (if 0 < window_scale cfg then [Opt TCP_OPT_WSCALE [window_scale cfg]] else [])
     @ (if sack_permitted cfg then [Opt TCP_OPT_SACK_PERM []] else [])
     @ (if timestamps cfg then [Opt TCP_OPT_TIMESTAMP (bytes32 0 @ bytes32 0)] else [])"

definition padding :: "tcp_config \<Rightarrow> nat" where
  "padding cfg = (4 - length (option_bytes cfg) mod 4) mod 4"

lemma encode_config: "encode_options (config_options cfg) = option_bytes cfg"
  by (simp add: config_options_def option_bytes_def)

lemma encode_padding: "encode_options (replicate n Nop) = replicate n TCP_OPT_NOP"
  by (induction n) simp_all

lemma encode_build: "encode_options (config_options cfg @ replicate (padding cfg) Nop) = pad_options (option_bytes cfg)"
  by (simp add: encode_config encode_padding pad_options_def padding_def)

lemma config_options_fine: "list_all well_formed (config_options cfg @ replicate n Nop)"
  by (auto simp: config_options_def opt_consts list_all_iff bytes16_def bytes32_def)

lemma effect_padding: "(option_effect Nop ^^ n) cfg = cfg"
  by (induction n) simp_all

lemma config_effect:
  "fold option_effect (config_options cfg) d = d\<lparr>mss := mss cfg,
     window_scale := (if 0 < window_scale cfg then window_scale cfg else window_scale d),
     sack_permitted := (sack_permitted cfg \<or> sack_permitted d), timestamps := (timestamps cfg \<or> timestamps d)\<rparr>"
  by (simp add: config_options_def opt_consts bytes16_def bytes32_def)

lemma build_length:
  fixes cfg :: tcp_config
  defines "n \<equiv> length (pad_options (option_bytes cfg))"
  shows "4 dvd n \<and> n \<le> 20"
proof -
  have "length (option_bytes cfg) \<in> {4, 6, 7, 9, 14, 16, 17, 19}" by (simp add: option_bytes_def)
  then show ?thesis by (auto simp: n_def pad_options_def)
qed

lemma build_header:
  "header_len (tcp_build_options cfg b) = of_nat (20 + length (pad_options (option_bytes cfg)))"
proof -
  obtain q where q: "length (pad_options (option_bytes cfg)) = 4 * q" "q \<le> 5"
    using build_length [of cfg] by (elim conjE dvdE) simp
  then have "q \<in> {0, 1, 2, 3, 4, 5}" by auto
  then show ?thesis
    by (auto simp: header_len_def tcp_build_options_def Let_def put_at_def q)
qed

text \<open>C21: the options written by \<open>tcp_build_options\<close> are read back by \<open>tcp_parse_options\<close>: the
  parser succeeds and takes over the segment size, the window scale when one is announced, and
  the two permissions.  The options end on a word boundary as the data offset says, and the
  rest of the header is untouched.\<close>

theorem tcp_options_roundtrip:
  fixes cfg :: tcp_config
  defines "n \<equiv> length (pad_options (option_bytes cfg))"
  shows "tcp_parse_options (tcp_build_options cfg b) d = (True, d\<lparr>mss := mss cfg,
      window_scale := (if 0 < window_scale cfg then window_scale cfg else window_scale d),
      sack_permitted := (sack_permitted cfg \<or> sack_permitted d), timestamps := (timestamps cfg \<or> timestamps d)\<rparr>)
    \<and> header_len (tcp_build_options cfg b) = of_nat (20 + n) \<and> 4 dvd n \<and> n \<le> 20
    \<and> get_at 0 12 (tcp_build_options cfg b) = get_at 0 12 b
    \<and> get_at 13 7 (tcp_build_options cfg b) = get_at 13 7 b"
proof -
  let ?b = "tcp_build_options cfg b"
  have opts: "get_at 20 (n) ?b = pad_options (option_bytes cfg)"
    by (simp add: n_def tcp_build_options_def Let_def get_at_put_apart)
  have le: "length (pad_options (option_bytes cfg)) \<le> 40" using build_length [of cfg] by simp
  have "tcp_parse_options ?b d = (True, fold option_effect (config_options cfg @ replicate (padding cfg) Nop) d)"
    using opts build_header [of cfg b] le
    by (intro tcp_parse_encoded [OF config_options_fine]) (simp_all only: encode_build n_def)
  then show ?thesis
    using build_header [of cfg b] build_length [of cfg]
    by (simp add: config_effect effect_padding n_def tcp_build_options_def Let_def get_at_put_apart)
qed

end
