(* ===== verification/Fifo.thy ===== *)
theory Fifo
  imports Prelude
begin

text \<open>
  The ring buffers of the drivers.  The locale \<open>fifo\<close> is the contract of a bounded queue with
  a refusing \<open>put\<close> and a \<open>take\<close>; inside it the order of everything that passes through the
  queue is proved once.  The second half is the arithmetic all rings of the program share:
  an array of \<open>n\<close> slots with the index to write next and the index to read next.
\<close>

subsection \<open>The contract\<close>

datatype 'x fifo_op = Put 'x | Take

locale fifo =
  fixes put :: "'x \<Rightarrow> 's \<Rightarrow> bool \<times> 's" and take_one :: "'s \<Rightarrow> 'x option \<times> 's"
    and contents :: "'s \<Rightarrow> 'x list" and ok :: "'s \<Rightarrow> bool" and accepts :: "'x \<Rightarrow> bool" and capacity :: nat
  assumes put_law: "ok s \<Longrightarrow> accepts x \<Longrightarrow> put x s = (b, t) \<Longrightarrow>
          ok t \<and> b = (length (contents s) < capacity)
          \<and> contents t = contents s @ (if b then [x] else [])"
    and take_law: "ok s \<Longrightarrow> take_one s = (r, t) \<Longrightarrow>
          ok t \<and> (case contents s of [] \<Rightarrow> r = None \<and> contents t = []
                   | x # xs \<Rightarrow> r = Some x \<and> contents t = xs)"
begin

text \<open>What a sequence of calls puts in and takes out.\<close>

fun run :: "'x fifo_op list \<Rightarrow> 's \<Rightarrow> 'x list \<times> 'x list \<times> 's" where
  "run [] s = ([], [], s)"
| "run (Put x # ops) s = (case put x s of (b, t) \<Rightarrow>
     case run ops t of (accepted, taken, u) \<Rightarrow> ((if b then x # accepted else accepted), taken, u))"
| "run (Take # ops) s = (case take_one s of (r, t) \<Rightarrow>
     case run ops t of (accepted, taken, u) \<Rightarrow>
       (accepted, (case r of None \<Rightarrow> taken | Some x \<Rightarrow> x # taken), u))"

text \<open>First in, first out; and never more than the capacity inside.\<close>

lemma fifo_order:
  assumes "ok s" and "list_all (\<lambda>c. case c of Put x \<Rightarrow> accepts x | Take \<Rightarrow> True) ops"
    and "length (contents s) \<le> capacity" and "run ops s = (accepted, taken, t)"
  shows "ok t \<and> contents s @ accepted = taken @ contents t \<and> length (contents t) \<le> capacity"
  using assms
proof (induction ops arbitrary: s accepted taken)
  case (Cons c ops)
  show ?case
  proof (cases c)
    case (Put x)
    obtain b u where u: "put x s = (b, u)" by fastforce
    obtain a' w where r: "run ops u = (a', taken, t)" and a: "accepted = (if b then x # a' else a')"
      using Cons.prems(4) u Put by (auto split: prod.splits)
    have law: "ok u" "b = (length (contents s) < capacity)" "contents u = contents s @ (if b then [x] else [])"
      using put_law [OF Cons.prems(1) _ u] Cons.prems(2) Put by auto
    then have "length (contents u) \<le> capacity" using Cons.prems(3) by auto
    then have "ok t \<and> contents u @ a' = taken @ contents t \<and> length (contents t) \<le> capacity"
      using Cons.IH [OF law(1) _ _ r] Cons.prems(2) by simp
    then show ?thesis using law(3) a by auto
  next
    case Take
    obtain v u where u: "take_one s = (v, u)" by fastforce
    obtain t' where r: "run ops u = (accepted, t', t)" and a: "taken = (case v of None \<Rightarrow> t' | Some x \<Rightarrow> x # t')"
      using Cons.prems(4) u Take by (auto split: prod.splits)
    have law: "ok u" "case contents s of [] \<Rightarrow> v = None \<and> contents u = []
          | x # xs \<Rightarrow> v = Some x \<and> contents u = xs"
      using take_law [OF Cons.prems(1) u] by auto
    then have "length (contents u) \<le> capacity" using Cons.prems(3) by (auto split: list.splits)
    then have "ok t \<and> contents u @ accepted = t' @ contents t \<and> length (contents t) \<le> capacity"
      using Cons.IH [OF law(1) _ _ r] Cons.prems(2) by simp
    then show ?thesis using law(2) a by (auto split: list.splits)
  qed
qed simp

end

subsection \<open>Rings\<close>

text \<open>The elements from the read index to the write index of a ring of \<open>n\<close> slots.\<close>

definition ring_count :: "nat \<Rightarrow> nat \<Rightarrow> nat \<Rightarrow> nat" where
  "ring_count n head tail = (head + n - tail) mod n"

definition ring :: "nat \<Rightarrow> (nat \<Rightarrow> 'x) \<Rightarrow> nat \<Rightarrow> nat \<Rightarrow> 'x list" where
  "ring n slots head tail = map (\<lambda>i. slots ((tail + i) mod n)) [0..<ring_count n head tail]"

lemma length_ring [simp]: "length (ring n slots head tail) = ring_count n head tail"
  by (simp add: ring_def)

lemma ring_count_less: "0 < n \<Longrightarrow> ring_count n head tail < n"
  by (simp add: ring_count_def)

lemma ring_count_cases:
  assumes "head < n" and "tail < n"
  shows "ring_count n head tail = (if tail \<le> head then head - tail else head + n - tail)"
proof (cases "tail \<le> head")
  case True
  then have eq: "head + n - tail = (head - tail) + n" by simp
  show ?thesis unfolding ring_count_def eq mod_add_self2 using assms True by simp
next
  case False
  then show ?thesis using assms by (simp add: ring_count_def)
qed

lemma mod_once: "a < 2 * n \<Longrightarrow> a mod n = (if a < n then a else a - n)" for a n :: nat
  by (simp add: le_mod_geq)

lemma Suc_mod: "i < n \<Longrightarrow> Suc i mod n = (if Suc i = n then 0 else Suc i)"
  by simp

lemma ring_empty: "head < n \<Longrightarrow> tail < n \<Longrightarrow> head = tail \<longleftrightarrow> ring n slots head tail = []"
  by (auto simp: ring_def ring_count_cases)

lemma ring_full:
  assumes "head < n" and "tail < n"
  shows "Suc head mod n = tail \<longleftrightarrow> \<not> ring_count n head tail < n - 1"
  using assms by (auto simp: ring_count_cases Suc_mod)

lemma ring_put:
  assumes "head < n" and "tail < n" and "Suc head mod n \<noteq> tail"
  shows "ring n (slots(head := x)) (Suc head mod n) tail = ring n slots head tail @ [x]"
proof -
  let ?k = "ring_count n head tail"
  have "ring_count n (Suc head mod n) tail = Suc ?k"
    using assms by (auto simp: ring_count_cases Suc_mod)
  moreover have at: "(tail + i) mod n = (if tail + i < n then tail + i else tail + i - n)" if "i \<le> ?k" for i
    using assms that by (intro mod_once) (simp add: ring_count_cases split: if_splits)
  then have "(tail + ?k) mod n = head" using assms by (simp add: ring_count_cases)
  moreover have "(tail + i) mod n \<noteq> head" if "i < ?k" for i
    using at [of i] assms that by (auto simp: ring_count_cases split: if_splits)
  ultimately show ?thesis by (simp add: ring_def)
qed

lemma ring_take:
  assumes "head < n" and "tail < n" and "head \<noteq> tail"
  shows "ring n slots head tail = slots tail # ring n slots head (Suc tail mod n)"
proof -
  let ?k = "ring_count n head (Suc tail mod n)"
  have k: "ring_count n head tail = Suc ?k" using assms by (auto simp: ring_count_cases Suc_mod)
  have "(Suc tail mod n + i) mod n = (tail + Suc i) mod n" for i by (simp add: mod_simps)
  then show ?thesis
    using assms by (simp add: ring_def k map_upt_Suc del: upt_Suc)
qed

text \<open>The laws of the contract in terms of indices.\<close>

lemma ring_put_law:
  assumes "head < n" and "tail < n"
  shows "if Suc head mod n = tail then \<not> length (ring n slots head tail) < n - 1
    else length (ring n slots head tail) < n - 1 \<and> Suc head mod n < n
      \<and> ring n (slots(head := x)) (Suc head mod n) tail = ring n slots head tail @ [x]"
  using assms ring_full [OF assms] ring_put [OF assms, of slots x] by auto

lemma ring_take_law:
  assumes "head < n" and "tail < n"
  shows "if head = tail then ring n slots head tail = []
    else Suc tail mod n < n \<and> ring n slots head tail = slots tail # ring n slots head (Suc tail mod n)"
  using assms ring_empty [OF assms, of slots] ring_take [OF assms, of slots] by auto

end
