(* ===== verification/Keyboard.thy ===== *)
theory Keyboard
  imports Vga_Screen Fifo
begin

text \<open>
  The PS/2 keyboard driver, drivers/keyboard.c: modifier state, the ring of keys and the
  scancode automaton.  The callback is a function pointer: what calling it does is the
  argument \<open>call\<close>.  \<open>None\<close> is a read past one of the translation tables, or whatever the
  callback means by it.
\<close>

subsection \<open>Constants and state (keyboard.h)\<close>

definition KEYBOARD_DATA_PORT :: u16 where "KEYBOARD_DATA_PORT = 0x60"
definition KEYBOARD_BUFFER_SIZE :: nat where "KEYBOARD_BUFFER_SIZE = 64"
definition KEY_SPECIAL :: u16 where "KEY_SPECIAL = 0x100"
definition KEY_SHIFT :: u16 where "KEY_SHIFT = 0x200"
definition KEY_ALT :: u16 where "KEY_ALT = 0x400"
definition KEY_CTRL :: u16 where "KEY_CTRL = 0x800"
definition KEY_CAPSLOCK :: u16 where "KEY_CAPSLOCK = 0x1000"
definition KEY_NUMLOCK :: u16 where "KEY_NUMLOCK = 0x2000"
definition KEY_SCROLLLOCK :: u16 where "KEY_SCROLLLOCK = 0x4000"
definition KEY_RELEASED :: u16 where "KEY_RELEASED = 0x8000"
definition KEY_HOME :: u16 where "KEY_HOME = 0x105"
definition KEY_END :: u16 where "KEY_END = 0x106"
definition KEY_INSERT :: u16 where "KEY_INSERT = 0x107"
definition KEY_DELETE :: u16 where "KEY_DELETE = 0x108"
definition KEY_PAGE_UP :: u16 where "KEY_PAGE_UP = 0x109"
definition KEY_PAGE_DOWN :: u16 where "KEY_PAGE_DOWN = 0x10A"
definition KEY_LEFT :: u16 where "KEY_LEFT = 0x10B"
definition KEY_RIGHT :: u16 where "KEY_RIGHT = 0x10C"
definition KEY_UP :: u16 where "KEY_UP = 0x10D"
definition KEY_DOWN :: u16 where "KEY_DOWN = 0x10E"

text \<open>Functions registered for key events.\<close>

datatype callback = Console_keyboard_callback | Callback_at u32

record keyboard = vga +
  shift_pressed :: bool
  alt_pressed :: bool
  ctrl_pressed :: bool
  caps_lock :: bool
  num_lock :: bool
  scroll_lock :: bool
  keyboard_buffer :: "nat \<Rightarrow> u16"
  keyboard_buffer_head :: nat
  keyboard_buffer_tail :: nat
  keyboard_callback :: "callback option"
  extended :: bool

text \<open>US QWERTY, as byte strings; a zero byte is no character.\<close>

definition scancode_to_ascii_lower :: "u8 list" where
  "scancode_to_ascii_lower =
     [0, 0] @ map of_char ''1234567890-='' @ [8, 9] @ map of_char ''qwertyuiop[]'' @ [10, 0]
     @ map of_char ''asdfghjkl;'' @ [39, 96, 0, 92] @ map of_char ''zxcvbnm,./'' @ [0, 42, 0, 32, 0]"

definition scancode_to_ascii_upper :: "u8 list" where
  "scancode_to_ascii_upper =
     [0, 0] @ map of_char ''!@#$%^&*()_+'' @ [8, 9] @ map of_char ''QWERTYUIOP{}'' @ [10, 0]
     @ map of_char ''ASDFGHJKL:'' @ [34, 126, 0, 124] @ map of_char ''ZXCVBNM<>?'' @ [0, 42, 0, 32, 0]"

subsection \<open>The ring of keys\<close>

definition keyboard_init :: "'a keyboard_scheme \<Rightarrow> 'a keyboard_scheme option" where
  "keyboard_init s = vga_puts (''Keyboard: Initialized PS/2 keyboard driver'' @ newline)
     (irq_register_handler IRQ1 Keyboard_handler s
        \<lparr>shift_pressed := False, alt_pressed := False, ctrl_pressed := False, caps_lock := False,
         num_lock := True, scroll_lock := False, keyboard_buffer := (\<lambda>_. 0),
         keyboard_buffer_head := 0, keyboard_buffer_tail := 0\<rparr>)"

text \<open>The store of \<open>keyboard_buffer_enqueue\<close>; \<open>False\<close> when the ring is full.\<close>

definition buffer_store :: "u16 \<Rightarrow> 'a keyboard_scheme \<Rightarrow> bool \<times> 'a keyboard_scheme" where
  "buffer_store key s =
     (let nxt = Suc (keyboard_buffer_head s) mod KEYBOARD_BUFFER_SIZE
      in if nxt = keyboard_buffer_tail s then (False, s)
         else (True, s\<lparr>keyboard_buffer := (keyboard_buffer s)(keyboard_buffer_head s := key),
                       keyboard_buffer_head := nxt\<rparr>))"

definition keyboard_buffer_enqueue ::
  "(callback \<Rightarrow> u16 \<Rightarrow> 'a keyboard_scheme \<Rightarrow> 'a keyboard_scheme option) \<Rightarrow> u16
    \<Rightarrow> 'a keyboard_scheme \<Rightarrow> 'a keyboard_scheme option"
where
  "keyboard_buffer_enqueue call key s =
     (case buffer_store key s of (stored, t) \<Rightarrow>
        if stored then case keyboard_callback t of None \<Rightarrow> Some t | Some f \<Rightarrow> call f key t
        else Some t)"

definition keyboard_read_key :: "'a keyboard_scheme \<Rightarrow> u16 \<times> 'a keyboard_scheme" where
  "keyboard_read_key s =
     (if keyboard_buffer_head s = keyboard_buffer_tail s then (0, s)
      else (keyboard_buffer s (keyboard_buffer_tail s),
            s\<lparr>keyboard_buffer_tail := Suc (keyboard_buffer_tail s) mod KEYBOARD_BUFFER_SIZE\<rparr>))"

subsection \<open>Scancodes\<close>

text \<open>The \<open>switch\<close> on plain scancodes; the last two cases are behind the end of the table and
  are never reached.\<close>

definition plain_key :: "u8 \<Rightarrow> bool \<Rightarrow> 'a keyboard_scheme \<Rightarrow> u16 \<times> 'a keyboard_scheme" where
  "plain_key code keyup s =
     (if code = 0x2A \<or> code = 0x36 then (KEY_SHIFT, s\<lparr>shift_pressed := \<not> keyup\<rparr>)
      else if code = 0x1D then (KEY_CTRL, s\<lparr>ctrl_pressed := \<not> keyup\<rparr>)
      else if code = 0x38 then (KEY_ALT, s\<lparr>alt_pressed := \<not> keyup\<rparr>)
      else if code = 0x3A then (KEY_CAPSLOCK, if keyup then s else s\<lparr>caps_lock := \<not> caps_lock s\<rparr>)
      else if code = 0x45 then (KEY_NUMLOCK, if keyup then s else s\<lparr>num_lock := \<not> num_lock s\<rparr>)
      else if code = 0x46 then (KEY_SCROLLLOCK, if keyup then s else s\<lparr>scroll_lock := \<not> scroll_lock s\<rparr>)
      else (ucast (scancode_to_ascii_lower ! unat code), s))"

definition extended_key :: "u8 \<Rightarrow> bool \<Rightarrow> 'a keyboard_scheme \<Rightarrow> u16 \<times> 'a keyboard_scheme" where
  "extended_key code keyup s =
     (if code = 0x1D then (KEY_CTRL, s\<lparr>ctrl_pressed := \<not> keyup\<rparr>)
      else if code = 0x38 then (KEY_ALT, s\<lparr>alt_pressed := \<not> keyup\<rparr>)
      else if code = 0x47 then (KEY_HOME, s)
      else if code = 0x48 then (KEY_UP, s)
      else if code = 0x49 then (KEY_PAGE_UP, s)
      else if code = 0x4B then (KEY_LEFT, s)
      else if code = 0x4D then (KEY_RIGHT, s)
      else if code = 0x4F then (KEY_END, s)
      else if code = 0x50 then (KEY_DOWN, s)
      else if code = 0x51 then (KEY_PAGE_DOWN, s)
      else if code = 0x52 then (KEY_INSERT, s)
      else if code = 0x53 then (KEY_DELETE, s)
      else (0, s))"

definition keyboard_process_scancode ::
  "(callback \<Rightarrow> u16 \<Rightarrow> 'a keyboard_scheme \<Rightarrow> 'a keyboard_scheme option) \<Rightarrow> u8
    \<Rightarrow> 'a keyboard_scheme \<Rightarrow> 'a keyboard_scheme option"
where
  "keyboard_process_scancode call scancode s =
     (if scancode = 0xE0 then Some (s\<lparr>extended := True\<rparr>)
      else
        let keyup = (scancode AND 0x80 \<noteq> 0); code = scancode AND 0x7F
        in case (if \<not> extended s \<and> unat code < length scancode_to_ascii_lower then plain_key code keyup s
                 else if extended s then extended_key code keyup (s\<lparr>extended := False\<rparr>)
                 else (0, s)) of (key, t) \<Rightarrow>
             if key \<noteq> 0 \<and> \<not> keyup then keyboard_buffer_enqueue call key t else Some t)"

definition keyboard_handler ::
  "(callback \<Rightarrow> u16 \<Rightarrow> 'a keyboard_scheme \<Rightarrow> 'a keyboard_scheme option) \<Rightarrow> 'a keyboard_scheme \<Rightarrow> 'a keyboard_scheme option"
where
  "keyboard_handler call s =
     (case inb KEYBOARD_DATA_PORT s of (scancode, t) \<Rightarrow> keyboard_process_scancode call scancode t)"

definition keyboard_scancode_to_ascii :: "u16 \<Rightarrow> 'a keyboard_scheme \<Rightarrow> u8 option" where
  "keyboard_scancode_to_ascii scancode s =
     (if scancode AND KEY_SPECIAL \<noteq> 0 then Some 0
      else
        let i = unat (scancode AND 0xFF)
        in if length scancode_to_ascii_lower \<le> i then None
           else
             let ascii = scancode_to_ascii_lower ! i;
                 shift = (shift_pressed s \<or> caps_lock s \<and> of_char CHR ''a'' \<le> ascii \<and> ascii \<le> of_char CHR ''z'')
             in Some (if shift then scancode_to_ascii_upper ! i else ascii))"

definition keyboard_is_key_pressed :: "u16 \<Rightarrow> 'a keyboard_scheme \<Rightarrow> bool" where
  "keyboard_is_key_pressed key s =
     (let k = key AND NOT KEY_RELEASED in
      if k = KEY_SHIFT then shift_pressed s
      else if k = KEY_ALT then alt_pressed s
      else if k = KEY_CTRL then ctrl_pressed s
      else if k = KEY_CAPSLOCK then caps_lock s
      else if k = KEY_NUMLOCK then num_lock s
      else if k = KEY_SCROLLLOCK then scroll_lock s
      else False)"

definition keyboard_register_callback :: "callback option \<Rightarrow> 'a keyboard_scheme \<Rightarrow> 'a keyboard_scheme" where
  "keyboard_register_callback callback s = s\<lparr>keyboard_callback := callback\<rparr>"

subsection \<open>The ring is a queue\<close>

definition read_one :: "'a keyboard_scheme \<Rightarrow> u16 option \<times> 'a keyboard_scheme" where
  "read_one s = (case keyboard_read_key s of (key, t) \<Rightarrow> (if key = 0 then None else Some key, t))"

definition keys :: "'a keyboard_scheme \<Rightarrow> u16 list" where
  "keys s = ring KEYBOARD_BUFFER_SIZE (keyboard_buffer s) (keyboard_buffer_head s) (keyboard_buffer_tail s)"

definition keyboard_ok :: "'a keyboard_scheme \<Rightarrow> bool" where
  "keyboard_ok s \<longleftrightarrow> keyboard_buffer_head s < KEYBOARD_BUFFER_SIZE
     \<and> keyboard_buffer_tail s < KEYBOARD_BUFFER_SIZE \<and> 0 \<notin> set (keys s)"

interpretation kbd: fifo buffer_store read_one keys keyboard_ok "\<lambda>key. key \<noteq> 0" "KEYBOARD_BUFFER_SIZE - 1"
proof unfold_locales
  fix s t :: "'a keyboard_scheme" and x :: u16 and b :: bool
  assume ok: "keyboard_ok s" and x: "x \<noteq> 0" and put: "buffer_store x s = (b, t)"
  let ?n = KEYBOARD_BUFFER_SIZE
  have lt: "keyboard_buffer_head s < ?n" "keyboard_buffer_tail s < ?n" using ok by (simp_all add: keyboard_ok_def)
  note full = ring_full [OF lt]
  show "keyboard_ok t \<and> b = (length (keys s) < ?n - 1) \<and> keys t = keys s @ (if b then [x] else [])"
  proof (cases "Suc (keyboard_buffer_head s) mod ?n = keyboard_buffer_tail s")
    case True
    then show ?thesis using put ok full by (auto simp: buffer_store_def keys_def)
  next
    case False
    then have t: "keys t = keys s @ [x]"
      using put ring_put [OF lt False] by (auto simp: buffer_store_def keys_def Let_def)
    moreover have "Suc (keyboard_buffer_head s) mod ?n < ?n" by (simp add: KEYBOARD_BUFFER_SIZE_def)
    ultimately show ?thesis using put False full ok x
      by (auto simp: buffer_store_def keyboard_ok_def Let_def) (simp_all add: keys_def)
  qed
next
  fix s t :: "'a keyboard_scheme" and r
  assume ok: "keyboard_ok s" and get: "read_one s = (r, t)"
  let ?n = KEYBOARD_BUFFER_SIZE
  have lt: "keyboard_buffer_head s < ?n" "keyboard_buffer_tail s < ?n" using ok by (simp_all add: keyboard_ok_def)
  show "keyboard_ok t \<and> (case keys s of [] \<Rightarrow> r = None \<and> keys t = [] | x # xs \<Rightarrow> r = Some x \<and> keys t = xs)"
  proof (cases "keyboard_buffer_head s = keyboard_buffer_tail s")
    case True
    then have "keys s = []" using ring_empty [OF lt] by (simp add: keys_def)
    then show ?thesis using True get ok by (auto simp: read_one_def keyboard_read_key_def)
  next
    case False
    then have t: "t = s\<lparr>keyboard_buffer_tail := Suc (keyboard_buffer_tail s) mod ?n\<rparr>"
      using get by (auto simp: read_one_def keyboard_read_key_def)
    have k: "keys s = keyboard_buffer s (keyboard_buffer_tail s) # keys t"
      using ring_take [OF lt False, of "keyboard_buffer s"] by (simp add: keys_def t)
    then have "keyboard_buffer s (keyboard_buffer_tail s) \<noteq> 0" using ok by (auto simp: keyboard_ok_def)
    moreover have "Suc (keyboard_buffer_tail s) mod ?n < ?n" by (simp add: KEYBOARD_BUFFER_SIZE_def)
    ultimately show ?thesis using k get False ok
      by (auto simp: read_one_def keyboard_read_key_def keyboard_ok_def)
  qed
qed

subsection \<open>Properties\<close>

text \<open>C25: keys come out in the order they went in.  For any sequence of keys stored by the
  interrupt handler and calls of \<open>keyboard_read_key\<close>, the keys buffered before and those
  accepted are the keys read followed by those still buffered, at most 63 of them; a key is
  lost only when 63 are waiting.\<close>

theorem keyboard_keys_in_order:
  assumes "keyboard_ok s" and "list_all (\<lambda>c. case c of Put x \<Rightarrow> x \<noteq> 0 | Take \<Rightarrow> True) ops"
    and "kbd.run ops s = (accepted, taken, t)"
  shows "keyboard_ok t \<and> keys s @ accepted = taken @ keys t \<and> length (keys t) \<le> 63
    \<and> (x \<noteq> 0 \<longrightarrow> fst (buffer_store x t) = (length (keys t) < 63))"
proof -
  have "length (keys s) \<le> KEYBOARD_BUFFER_SIZE - 1"
    using ring_count_less [of KEYBOARD_BUFFER_SIZE] by (simp add: keys_def KEYBOARD_BUFFER_SIZE_def less_Suc_eq_le [symmetric])
  then have run: "keyboard_ok t" "keys s @ accepted = taken @ keys t" "length (keys t) \<le> KEYBOARD_BUFFER_SIZE - 1"
    using kbd.fifo_order [OF assms(1,2) _ assms(3)] by auto
  moreover have "fst (buffer_store x t) = (length (keys t) < KEYBOARD_BUFFER_SIZE - 1)" if "x \<noteq> 0"
    using kbd.put_law [OF run(1) that] by (metis prod.collapse)
  ultimately show ?thesis by (simp add: KEYBOARD_BUFFER_SIZE_def)
qed

definition sample_keyboard :: keyboard where
  "sample_keyboard = vga.extend sample_vga (keyboard.fields False False False False True False (\<lambda>_. 0) 63 63 None False)"

theorem keyboard_keys_in_order_witness:
  "\<exists>(t :: keyboard) accepted. kbd.run [Put 97, Put 98, Take] sample_keyboard = (accepted, [97], t) \<and> keys t = [98]"
proof -
  have f: "keyboard_buffer_head sample_keyboard = 63" "keyboard_buffer_tail sample_keyboard = 63"
    by (simp_all add: sample_keyboard_def vga.defs keyboard.defs sample_vga_def)
  have e: "keys sample_keyboard = []" by (simp add: keys_def ring_def ring_count_def f KEYBOARD_BUFFER_SIZE_def)
  have ok: "keyboard_ok sample_keyboard" by (simp add: keyboard_ok_def f e KEYBOARD_BUFFER_SIZE_def)
  obtain t where r: "kbd.run [Put 97, Put 98, Take] sample_keyboard = ([97, 98], [97], t)"
    using f by (simp add: buffer_store_def read_one_def keyboard_read_key_def KEYBOARD_BUFFER_SIZE_def Let_def)
  show ?thesis using keyboard_keys_in_order [OF ok _ r] r e by auto
qed

end
