(* ===== verification/Console.thy ===== *)
theory Console
  imports Keyboard
begin

text \<open>
  The console, drivers/console.c: line input from the keyboard callback, the command
  history, the command table and formatted output.  \<open>input_buffer\<close> is the array of 256
  characters; the arrays the code only copies strings into hold those strings.  Command
  handlers are called through pointers and are the argument \<open>handler\<close>; \<open>None\<close> is undefined
  behaviour, or what a handler or the screen means by it; a wait that goes on is a value of its own.
\<close>

subsection \<open>State (console.h)\<close>

definition CONSOLE_INPUT_BUFFER_SIZE :: nat where "CONSOLE_INPUT_BUFFER_SIZE = 256"
definition CONSOLE_MAX_HISTORY :: int where "CONSOLE_MAX_HISTORY = 10"
definition MAX_COMMANDS :: nat where "MAX_COMMANDS = 32"
definition CONSOLE_COLOR_BLACK :: u8 where "CONSOLE_COLOR_BLACK = 0"
definition CONSOLE_COLOR_LIGHT_GREY :: u8 where "CONSOLE_COLOR_LIGHT_GREY = 7"
definition CONSOLE_COLOR_LIGHT_CYAN :: u8 where "CONSOLE_COLOR_LIGHT_CYAN = 11"

record console_command =
  cmd_name :: string
  cmd_description :: string
  cmd_handler :: u32

record console = keyboard +
  input_buffer :: "nat \<Rightarrow> char"
  input_position :: nat
  input_ready :: bool
  history_buffer :: "int \<Rightarrow> string"
  history_count :: int
  history_position :: int
  command_table :: "console_command list"
  console_fg :: u8
  console_bg :: u8

definition console_prompt :: string where
  "console_prompt = ''REXUS> ''"

abbreviation NUL :: char where "NUL \<equiv> CHR 0x00"
abbreviation BS :: char where "BS \<equiv> CHR 0x08"

text \<open>The C string in the input buffer.\<close>

definition input_line :: "'a console_scheme \<Rightarrow> string" where
  "input_line s = takeWhile (\<lambda>c. c \<noteq> NUL) (map (input_buffer s) [0..<CONSOLE_INPUT_BUFFER_SIZE])"

text \<open>\<open>strcpy(input_buffer, str)\<close>\<close>

definition copy_input :: "string \<Rightarrow> 'a console_scheme \<Rightarrow> 'a console_scheme" where
  "copy_input str s = s\<lparr>input_buffer := (\<lambda>i. if i < length str then str ! i
      else if i = length str then NUL else input_buffer s i)\<rparr>"

definition put_input :: "nat \<Rightarrow> char \<Rightarrow> 'a console_scheme \<Rightarrow> 'a console_scheme" where
  "put_input i c s = s\<lparr>input_buffer := (input_buffer s)(i := c)\<rparr>"

subsection \<open>Output\<close>

definition console_clear :: "'a console_scheme \<Rightarrow> 'a console_scheme" where
  "console_clear s = vga_clear s"

definition console_puts :: "string \<Rightarrow> 'a console_scheme \<Rightarrow> 'a console_scheme option" where
  "console_puts str s = vga_puts str s"

definition console_putchar :: "char \<Rightarrow> 'a console_scheme \<Rightarrow> 'a console_scheme option" where
  "console_putchar c s = vga_putchar c s"

definition console_set_color :: "u8 \<Rightarrow> u8 \<Rightarrow> 'a console_scheme \<Rightarrow> 'a console_scheme" where
  "console_set_color fg bg s = vga_set_color (vga_entry_color fg bg) (s\<lparr>console_fg := fg, console_bg := bg\<rparr>)"

datatype printf_arg = Arg_int u32 | Arg_str string

definition lower_hex_char :: "nat \<Rightarrow> char" where
  "lower_hex_char d = (if d < 10 then char_of (of_char CHR ''0'' + d) else char_of (of_char CHR ''a'' + (d - 10)))"

text \<open>\<open>None\<close> where negating overflows.\<close>

definition format_int :: "u32 \<Rightarrow> string option" where
  "format_int v =
     (if v = 0 then Some ''0''
      else if sint v = - (2 ^ 31) then None
      else Some (rev (map dec_char (low_digits 10 (nat \<bar>sint v\<bar>)) @ (if sint v < 0 then ''-'' else []))))"

definition format_hex :: "u32 \<Rightarrow> string" where
  "format_hex v = (if v = 0 then ''0'' else rev (map lower_hex_char (low_digits 16 (unat v))))"

text \<open>The loop over the format; \<open>None\<close> also for a missing argument and for a \<open>%\<close> at the end of
  the format, behind which the loop reads on.\<close>

fun format_text :: "string \<Rightarrow> printf_arg list \<Rightarrow> string option" where
  "format_text [] as = Some []"
| "format_text (c # src) as =
     (if c \<noteq> CHR ''%'' then map_option ((#) c) (format_text src as)
      else case src of [] \<Rightarrow> None | d # rest \<Rightarrow>
        if d = CHR ''d'' then (case as of Arg_int v # more_args \<Rightarrow>
            Option.bind (format_int v) (\<lambda>t. map_option ((@) t) (format_text rest more_args)) | _ \<Rightarrow> None)
        else if d = CHR ''x'' then (case as of Arg_int v # more_args \<Rightarrow>
            map_option ((@) (format_hex v)) (format_text rest more_args) | _ \<Rightarrow> None)
        else if d = CHR ''s'' then (case as of Arg_str t # more_args \<Rightarrow>
            map_option ((@) t) (format_text rest more_args) | _ \<Rightarrow> None)
        else if d = CHR ''c'' then (case as of Arg_int v # more_args \<Rightarrow>
            map_option ((#) (char_of (unat (ucast v :: u8)))) (format_text rest more_args) | _ \<Rightarrow> None)
        else if d = CHR ''%'' then map_option ((#) CHR ''%'') (format_text rest as)
        else map_option ((@) [CHR ''%'', d]) (format_text rest as))"

text \<open>The text goes through a buffer of 1024 bytes that nothing protects.\<close>

definition console_printf :: "string \<Rightarrow> printf_arg list \<Rightarrow> 'a console_scheme \<Rightarrow> 'a console_scheme option" where
  "console_printf format as s =
     Option.bind (format_text format as) (\<lambda>buffer.
       if 1024 \<le> length buffer then None else console_puts (takeWhile (\<lambda>c. c \<noteq> NUL) buffer) s)"

subsection \<open>The keyboard callback\<close>

text \<open>\<open>n\<close> times the same output.\<close>

fun repeat_puts :: "nat \<Rightarrow> string \<Rightarrow> 'a console_scheme \<Rightarrow> 'a console_scheme option" where
  "repeat_puts 0 str s = Some s"
| "repeat_puts (Suc n) str s = Option.bind (vga_puts str s) (repeat_puts n str)"

text \<open>\<open>while (input_position > 0)\<close> over the three characters that should erase one.\<close>

definition erase_line :: "'a console_scheme \<Rightarrow> 'a console_scheme option" where
  "erase_line s = map_option (\<lambda>t. t\<lparr>input_position := 0\<rparr>) (repeat_puts (input_position s) [BS, CHR '' '', BS] s)"

definition add_history :: "'a console_scheme \<Rightarrow> 'a console_scheme" where
  "add_history s =
     (if 0 < input_position s then
        let s1 = (if history_count s = CONSOLE_MAX_HISTORY
                  then s\<lparr>history_buffer := (\<lambda>i. if 0 \<le> i \<and> i < CONSOLE_MAX_HISTORY - 1
                           then history_buffer s (i + 1) else history_buffer s i),
                         history_count := history_count s - 1\<rparr>
                  else s)
        in s1\<lparr>history_buffer := (history_buffer s1)(history_count s1 := input_line s1),
              history_count := history_count s1 + 1\<rparr>
      else s)"

definition key_enter :: "'a console_scheme \<Rightarrow> 'a console_scheme option" where
  "key_enter s = map_option
     (\<lambda>t. (add_history (put_input (input_position t) NUL t))\<lparr>input_ready := True, history_position := - 1\<rparr>)
     (vga_putchar CHR 0x0A s)"

definition key_backspace :: "'a console_scheme \<Rightarrow> 'a console_scheme option" where
  "key_backspace s =
     (if 0 < input_position s
      then vga_puts [BS, CHR '' '', BS]
             (put_input (input_position s - 1) NUL (s\<lparr>input_position := input_position s - 1\<rparr>))
      else Some s)"

definition key_character :: "char \<Rightarrow> 'a console_scheme \<Rightarrow> 'a console_scheme option" where
  "key_character c s =
     (let n = input_position s in
      if n < CONSOLE_INPUT_BUFFER_SIZE - 1
      then vga_putchar c (put_input (n + 1) NUL (put_input n c (s\<lparr>input_position := n + 1\<rparr>)))
      else Some s)"

text \<open>Replace the line by a string and show it.\<close>

definition show_line :: "string \<Rightarrow> 'a console_scheme \<Rightarrow> 'a console_scheme option" where
  "show_line str s = (let s1 = copy_input str s; s2 = s1\<lparr>input_position := length (input_line s1)\<rparr>
     in vga_puts (input_line s2) s2)"

definition key_up :: "'a console_scheme \<Rightarrow> 'a console_scheme option" where
  "key_up s =
     (if 0 < history_count s then
        let s1 = s\<lparr>history_position := (if history_position s = - 1 then history_count s - 1
                     else if 0 < history_position s then history_position s - 1 else history_position s)\<rparr>
        in Option.bind (erase_line s1) (\<lambda>t. show_line (history_buffer t (history_position t)) t)
      else Some s)"

definition key_down :: "'a console_scheme \<Rightarrow> 'a console_scheme option" where
  "key_down s =
     (if history_position s \<noteq> - 1 then
        Option.bind (erase_line (s\<lparr>history_position := history_position s + 1\<rparr>)) (\<lambda>t.
          if history_count t \<le> history_position t
          then let t1 = (put_input 0 NUL t)\<lparr>history_position := - 1\<rparr>;
                   t2 = t1\<lparr>input_position := length (input_line t1)\<rparr>
               in vga_puts (input_line t2) t2
          else show_line (history_buffer t (history_position t)) t)
      else Some s)"

definition key_home :: "'a console_scheme \<Rightarrow> 'a console_scheme option" where
  "key_home s = map_option (\<lambda>t. t\<lparr>input_position := 0\<rparr>) (repeat_puts (input_position s) [BS] s)"

definition key_left :: "'a console_scheme \<Rightarrow> 'a console_scheme option" where
  "key_left s =
     (if 0 < input_position s
      then map_option (\<lambda>t. t\<lparr>input_position := input_position t - 1\<rparr>) (vga_putchar BS s)
      else Some s)"

definition console_keyboard_callback :: "u16 \<Rightarrow> 'a console_scheme \<Rightarrow> 'a console_scheme option" where
  "console_keyboard_callback key s =
     (if key AND KEY_RELEASED \<noteq> 0 then Some s
      else if key AND KEY_SPECIAL = 0
      then Option.bind (keyboard_scancode_to_ascii key s) (\<lambda>a. let c = char_of (unat a) in
             if a = 0 then Some s
             else if c = CHR 0x0A \<or> c = CHR 0x0D then key_enter s
             else if c = BS then key_backspace s
             else key_character c s)
      else if key = KEY_UP then key_up s
      else if key = KEY_DOWN then key_down s
      else if key = KEY_HOME then key_home s
      else if key = KEY_LEFT then key_left s
      else Some s)"

subsection \<open>Commands\<close>

definition console_init :: "'a console_scheme \<Rightarrow> 'a console_scheme option" where
  "console_init s =
     (let s1 = s\<lparr>input_buffer := (\<lambda>_. NUL), input_position := 0, input_ready := False,
                 history_buffer := (\<lambda>_. []), history_count := 0, history_position := - 1,
                 command_table := []\<rparr>;
          s2 = console_set_color CONSOLE_COLOR_LIGHT_CYAN CONSOLE_COLOR_BLACK
                 (console_clear (keyboard_register_callback (Some Console_keyboard_callback) s1))
      in Option.bind (console_puts (''REXUS Kernel Console'' @ newline) s2) (\<lambda>s3.
         Option.bind (console_puts (''Type '' @ [CHR 0x27] @ ''help'' @ [CHR 0x27] @ '' for a list of commands''
            @ newline @ newline) s3) (\<lambda>s4.
         console_puts console_prompt (console_set_color CONSOLE_COLOR_LIGHT_GREY CONSOLE_COLOR_BLACK s4))))"

definition console_register_command :: "console_command \<Rightarrow> 'a console_scheme \<Rightarrow> 'a console_scheme" where
  "console_register_command command s =
     (if length (command_table s) < MAX_COMMANDS
      then s\<lparr>command_table := command_table s @ [command]\<rparr> else s)"

text \<open>\<open>strtok\<close> with blanks and tabs: the words of the line.\<close>

fun words_of :: "string \<Rightarrow> string \<Rightarrow> string list" where
  "words_of w [] = (if w = [] then [] else [rev w])"
| "words_of w (c # str) =
     (if c = CHR '' '' \<or> c = CHR 0x09 then (if w = [] then words_of [] str else rev w # words_of [] str)
      else words_of (c # w) str)"

definition console_parse_args :: "string \<Rightarrow> string list" where
  "console_parse_args cmd = take 16 (words_of [] cmd)"

definition console_execute_command ::
  "(u32 \<Rightarrow> string list \<Rightarrow> 'a console_scheme \<Rightarrow> (u32 \<times> 'a console_scheme) option) \<Rightarrow> string
    \<Rightarrow> 'a console_scheme \<Rightarrow> 'a console_scheme option"
where
  "console_execute_command handler command_line s =
     (if CONSOLE_INPUT_BUFFER_SIZE \<le> length command_line then None
      else case console_parse_args command_line of
        [] \<Rightarrow> Some s
      | name # args \<Rightarrow>
          (case find (\<lambda>cmd. cmd_name cmd = name) (command_table s) of
             None \<Rightarrow> console_printf (''Unknown command: %s'' @ newline) [Arg_str name] s
           | Some cmd \<Rightarrow> Option.bind (handler (cmd_handler cmd) (name # args) s) (\<lambda>(result, t).
               if result \<noteq> 0
               then console_printf (''Command returned error code: %d'' @ newline) [Arg_int result] t
               else Some t)))"

definition console_update ::
  "(u32 \<Rightarrow> string list \<Rightarrow> 'a console_scheme \<Rightarrow> (u32 \<times> 'a console_scheme) option)
    \<Rightarrow> 'a console_scheme \<Rightarrow> 'a console_scheme option"
where
  "console_update handler s =
     (if input_ready s
      then Option.bind
             (console_execute_command handler (input_line s)
                (s\<lparr>input_buffer := (\<lambda>_. NUL), input_position := 0, input_ready := False\<rparr>))
             (console_puts console_prompt)
      else Some s)"

definition console_has_input :: "'a console_scheme \<Rightarrow> bool" where
  "console_has_input s = input_ready s"

subsection \<open>Waiting for the keyboard\<close>

text \<open>What a keyboard interrupt with a given scancode does.  \<open>other\<close> stands for callbacks other
  than the console's.\<close>

definition key_interrupt ::
  "(u32 \<Rightarrow> u16 \<Rightarrow> 'a console_scheme \<Rightarrow> 'a console_scheme option) \<Rightarrow> u8
    \<Rightarrow> 'a console_scheme \<Rightarrow> 'a console_scheme option"
where
  "key_interrupt other = keyboard_process_scancode
     (\<lambda>f. case f of Console_keyboard_callback \<Rightarrow> console_keyboard_callback | Callback_at a \<Rightarrow> other a)"

fun key_interrupts ::
  "(u32 \<Rightarrow> u16 \<Rightarrow> 'a console_scheme \<Rightarrow> 'a console_scheme option) \<Rightarrow> u8 list
    \<Rightarrow> 'a console_scheme \<Rightarrow> 'a console_scheme option"
where
  "key_interrupts other [] s = Some s"
| "key_interrupts other (code # codes) s = Option.bind (key_interrupt other code s) (key_interrupts other codes)"

text \<open>A wait with \<open>hlt\<close> while the scancodes \<open>codes\<close> arrive: it is over, or still going on when
  they have all been handled.  \<open>None\<close> is undefined behaviour of a keyboard interrupt only.\<close>

datatype ('r, 's) wait = Over 'r 's | Waiting 's

fun map_wait :: "('r \<Rightarrow> 's \<Rightarrow> ('q \<times> 's) option) \<Rightarrow> ('r, 's) wait \<Rightarrow> ('q, 's) wait option" where
  "map_wait f (Over r s) = map_option (\<lambda>(q, t). Over q t) (f r s)"
| "map_wait f (Waiting s) = Some (Waiting s)"

fun wait_line ::
  "(u32 \<Rightarrow> u16 \<Rightarrow> 'a console_scheme \<Rightarrow> 'a console_scheme option) \<Rightarrow> u8 list
    \<Rightarrow> 'a console_scheme \<Rightarrow> (unit, 'a console_scheme) wait option"
where
  "wait_line other codes s =
     (if input_ready s then Some (Over () s)
      else case codes of [] \<Rightarrow> Some (Waiting s)
        | code # rest \<Rightarrow> Option.bind (key_interrupt other code s) (wait_line other rest))"

definition console_read_line ::
  "(u32 \<Rightarrow> u16 \<Rightarrow> 'a console_scheme \<Rightarrow> 'a console_scheme option) \<Rightarrow> u8 list
    \<Rightarrow> 'a console_scheme \<Rightarrow> (string, 'a console_scheme) wait option"
where
  "console_read_line other codes s =
     Option.bind (wait_line other codes (s\<lparr>input_ready := False\<rparr>)) (map_wait (\<lambda>_ t. Some (input_line t, t)))"

fun wait_key ::
  "(u32 \<Rightarrow> u16 \<Rightarrow> 'a console_scheme \<Rightarrow> 'a console_scheme option) \<Rightarrow> u8 list
    \<Rightarrow> 'a console_scheme \<Rightarrow> (u16, 'a console_scheme) wait option"
where
  "wait_key other codes s =
     (case keyboard_read_key s of (key, t) \<Rightarrow>
        if key \<noteq> 0 then Some (Over key t)
        else case codes of [] \<Rightarrow> Some (Waiting t)
          | code # rest \<Rightarrow> Option.bind (key_interrupt other code t) (wait_key other rest))"

definition console_getchar ::
  "(u32 \<Rightarrow> u16 \<Rightarrow> 'a console_scheme \<Rightarrow> 'a console_scheme option) \<Rightarrow> u8 list
    \<Rightarrow> 'a console_scheme \<Rightarrow> (u8, 'a console_scheme) wait option"
where
  "console_getchar other codes s =
     Option.bind (wait_key other codes s)
       (map_wait (\<lambda>key t. map_option (\<lambda>c. (c, t)) (keyboard_scancode_to_ascii key t)))"

declare wait_line.simps [simp del] wait_key.simps [simp del]

end
