(* ===== verification/Console_Input.thy ===== *)
theory Console_Input
  imports Console
begin

text \<open>
  Properties of the console's line input: its buffers stay within their bounds, and what the
  keyboard driver hands over is translated a second time.
\<close>

subsection \<open>Output leaves the input alone\<close>

lemma putchar_more: "vga_putchar c s = Some t \<Longrightarrow> vga.more t = vga.more s"
  by (auto simp: vga_putchar_def next_row_def scroll_effect Let_def split: if_splits)

lemma puts_more: "vga_puts str s = Some t \<Longrightarrow> vga.more t = vga.more s"
proof (induction str arbitrary: s)
  case (Cons c str)
  obtain u where u: "vga_putchar c s = Some u" "vga_puts str u = Some t"
    using Cons.prems by (auto simp: bind_eq_Some_conv)
  show ?case using putchar_more [OF u(1)] Cons.IH [OF u(2)] by simp
qed simp

lemma repeat_more: "repeat_puts n str s = Some t \<Longrightarrow> vga.more t = vga.more s"
proof (induction n arbitrary: s)
  case (Suc n)
  obtain u where u: "vga_puts str s = Some u" "repeat_puts n str u = Some t"
    using Suc.prems by (auto simp: bind_eq_Some_conv)
  show ?case using puts_more [OF u(1)] Suc.IH [OF u(2)] by simp
qed simp

lemma console_more:
  fixes s t :: "'a console_scheme"
  assumes "vga.more t = vga.more s"
  shows "input_ready t = input_ready s" "keyboard_callback t = keyboard_callback s"
    "input_position t = input_position s" "input_buffer t = input_buffer s"
    "history_buffer t = history_buffer s" "history_count t = history_count s"
    "history_position t = history_position s" "command_table t = command_table s"
  using assms by (cases s; cases t; simp)+

lemmas output_frame = putchar_more [THEN console_more(1)] putchar_more [THEN console_more(2)]
  puts_more [THEN console_more(1)] puts_more [THEN console_more(2)]
  repeat_more [THEN console_more(1)] repeat_more [THEN console_more(2)]

subsection \<open>Bounds\<close>

text \<open>The line ends inside its array and the write position is inside it; the history holds at
  most ten strings that fit the array, and the position in it is one of them or none.\<close>

definition fits :: "string \<Rightarrow> bool" where
  "fits str \<longleftrightarrow> length str < CONSOLE_INPUT_BUFFER_SIZE \<and> NUL \<notin> set str"

definition console_ok :: "'a console_scheme \<Rightarrow> bool" where
  "console_ok s \<longleftrightarrow> input_position s < CONSOLE_INPUT_BUFFER_SIZE \<and> length (input_line s) < CONSOLE_INPUT_BUFFER_SIZE
     \<and> 0 \<le> history_count s \<and> history_count s \<le> CONSOLE_MAX_HISTORY
     \<and> - 1 \<le> history_position s \<and> (history_position s = - 1 \<or> history_position s < history_count s)
     \<and> (\<forall>i. 0 \<le> i \<and> i < history_count s \<longrightarrow> fits (history_buffer s i))"

lemma takeWhile_short: "i < n \<Longrightarrow> f i = x \<Longrightarrow> length (takeWhile (\<lambda>c. c \<noteq> x) (map f [0..<n])) \<le> i"
proof (rule ccontr)
  assume i: "i < n" "f i = x" and "\<not> length (takeWhile (\<lambda>c. c \<noteq> x) (map f [0..<n])) \<le> i"
  then have l: "i < length (takeWhile (\<lambda>c. c \<noteq> x) (map f [0..<n]))" by simp
  then have "takeWhile (\<lambda>c. c \<noteq> x) (map f [0..<n]) ! i \<in> set (takeWhile (\<lambda>c. c \<noteq> x) (map f [0..<n]))"
    by (rule nth_mem)
  then show False using i takeWhile_nth [OF l] by (auto dest: set_takeWhileD)
qed

lemma takeWhile_has: "length (takeWhile (\<lambda>c. c \<noteq> x) (map f [0..<n])) < n \<Longrightarrow> \<exists>i < n. f i = x"
  using nth_length_takeWhile [of "\<lambda>c. c \<noteq> x" "map f [0..<n]"] by fastforce

text \<open>The line is shorter than the array iff there is a zero in it.\<close>

lemma input_line_short:
  "length (input_line s) < CONSOLE_INPUT_BUFFER_SIZE \<longleftrightarrow> (\<exists>i < CONSOLE_INPUT_BUFFER_SIZE. input_buffer s i = NUL)"
proof
  assume "\<exists>i < CONSOLE_INPUT_BUFFER_SIZE. input_buffer s i = NUL"
  then obtain i where "i < CONSOLE_INPUT_BUFFER_SIZE" "input_buffer s i = NUL" by blast
  then show "length (input_line s) < CONSOLE_INPUT_BUFFER_SIZE"
    using takeWhile_short [of i CONSOLE_INPUT_BUFFER_SIZE "input_buffer s" NUL] by (simp add: input_line_def)
next
  assume "length (input_line s) < CONSOLE_INPUT_BUFFER_SIZE"
  then show "\<exists>i < CONSOLE_INPUT_BUFFER_SIZE. input_buffer s i = NUL"
    unfolding input_line_def by (rule takeWhile_has)
qed

lemma input_line_no_nul: "NUL \<notin> set (input_line s)"
  unfolding input_line_def using set_takeWhileD by fastforce

lemma copy_input_line:
  assumes "fits str"
  shows "length (input_line (copy_input str s)) \<le> length str"
  using takeWhile_short [of "length str" CONSOLE_INPUT_BUFFER_SIZE "input_buffer (copy_input str s)" NUL] assms
  by (simp add: input_line_def copy_input_def fits_def)

text \<open>\<open>good\<close>: the state after an operation that worked.\<close>

definition good :: "'a console_scheme option \<Rightarrow> bool" where
  "good r \<longleftrightarrow> (\<exists>t. r = Some t \<and> on_screen t \<and> console_ok t)"

lemma goodI: "r = Some t \<Longrightarrow> on_screen t \<Longrightarrow> console_ok t \<Longrightarrow> good r"
  by (simp add: good_def)

lemma console_ok_more:
  fixes s t :: "'a console_scheme"
  assumes "vga.more t = vga.more s"
  shows "console_ok t = console_ok s" "input_line t = input_line s"
  using console_more [OF assms] by (simp_all add: console_ok_def input_line_def)

lemma puts_good: "on_screen s \<Longrightarrow> console_ok s \<Longrightarrow> good (vga_puts str s)"
  using puts_effect [of s str] console_ok_more(1) unfolding good_def screen_only_def by metis

lemma repeat_effect: "on_screen s \<Longrightarrow> \<exists>t. repeat_puts n str s = Some t \<and> on_screen t \<and> vga.more t = vga.more s"
proof (induction n arbitrary: s)
  case (Suc n)
  obtain t where t: "vga_puts str s = Some t" "on_screen t" "vga.more t = vga.more s"
    using puts_effect [OF Suc.prems, of str] by (auto simp: screen_only_def)
  then show ?case using Suc.IH [OF t(2)] by auto
qed simp

lemma console_on_screen [simp]:
  "on_screen (s\<lparr>input_position := n\<rparr>) = on_screen s" "on_screen (put_input i c s) = on_screen s"
  "on_screen (copy_input str s) = on_screen s" "on_screen (s\<lparr>history_position := k\<rparr>) = on_screen s"
  "on_screen (s\<lparr>input_ready := r\<rparr>) = on_screen s" "on_screen (add_history s) = on_screen s"
  by (simp_all add: on_screen_def put_input_def copy_input_def add_history_def Let_def)

text \<open>Clearing the line leaves everything else.\<close>

lemma erase_effect:
  assumes "on_screen s"
  shows "\<exists>t. erase_line s = Some t \<and> on_screen t \<and> input_position t = 0 \<and> input_buffer t = input_buffer s
    \<and> history_buffer t = history_buffer s \<and> history_count t = history_count s
    \<and> history_position t = history_position s"
proof -
  obtain t where t: "repeat_puts (input_position s) [BS, CHR '' '', BS] s = Some t" "on_screen t"
      "vga.more t = vga.more s"
    using repeat_effect [OF assms] by blast
  then show ?thesis using console_more [OF t(3)] by (simp add: erase_line_def)
qed

lemma show_line_good:
  assumes "on_screen s" "fits str" and "console_ok (s\<lparr>input_position := 0\<rparr>)"
  shows "good (show_line str s)"
proof -
  let ?s = "(copy_input str s)\<lparr>input_position := length (input_line (copy_input str s))\<rparr>"
  have "length (input_line (copy_input str s)) < CONSOLE_INPUT_BUFFER_SIZE"
    using copy_input_line [OF assms(2), of s] assms(2) by (simp add: fits_def)
  moreover from this have "length (input_line ?s) < CONSOLE_INPUT_BUFFER_SIZE" by (simp add: input_line_def)
  ultimately have "console_ok ?s" using assms(3) by (simp add: console_ok_def) (simp add: copy_input_def)
  then show ?thesis using puts_good [of ?s] assms(1) by (simp add: show_line_def Let_def)
qed

subsection \<open>The keys\<close>

lemma line_after_put:
  assumes "i < CONSOLE_INPUT_BUFFER_SIZE"
  shows "length (input_line (put_input i NUL s)) < CONSOLE_INPUT_BUFFER_SIZE"
  unfolding input_line_short using assms by (intro exI [of _ i]) (simp add: put_input_def)

lemma put_input_fields [simp]:
  "input_position (put_input i c s) = input_position s" "history_count (put_input i c s) = history_count s"
  "history_position (put_input i c s) = history_position s" "history_buffer (put_input i c s) = history_buffer s"
  "input_ready (put_input i c s) = input_ready s"
  by (simp_all add: put_input_def)

lemma line_update [simp]:
  "input_line (s\<lparr>input_position := n\<rparr>) = input_line s" "input_line (s\<lparr>history_position := k\<rparr>) = input_line s"
  "input_line (s\<lparr>input_ready := r\<rparr>) = input_line s"
  "input_line (s\<lparr>history_buffer := h\<rparr>) = input_line s" "input_line (s\<lparr>history_count := k\<rparr>) = input_line s"
  by (simp_all add: input_line_def)

lemma add_history_ok:
  assumes "console_ok s"
  shows "0 \<le> history_count (add_history s) \<and> history_count (add_history s) \<le> CONSOLE_MAX_HISTORY
    \<and> (\<forall>i. 0 \<le> i \<and> i < history_count (add_history s) \<longrightarrow> fits (history_buffer (add_history s) i))
    \<and> input_position (add_history s) = input_position s \<and> input_line (add_history s) = input_line s"
proof -
  have "fits (input_line s)" using assms input_line_no_nul [of s] by (simp add: fits_def console_ok_def)
  then show ?thesis
    using assms by (auto simp: add_history_def console_ok_def CONSOLE_MAX_HISTORY_def Let_def)
qed

lemma key_enter_good:
  assumes "on_screen s" "console_ok s"
  shows "good (key_enter s)"
proof -
  obtain t where t: "vga_putchar CHR 0x0A s = Some t" "on_screen t" "vga.more t = vga.more s"
    using putchar_effect [OF assms(1)] by (auto simp: screen_only_def)
  have ok: "console_ok t" using assms(2) console_ok_more(1) [OF t(3)] by simp
  have "console_ok (put_input (input_position t) NUL t)"
    using ok line_after_put [of "input_position t" t] by (simp add: console_ok_def)
  from add_history_ok [OF this] this
  have "console_ok ((add_history (put_input (input_position t) NUL t))\<lparr>input_ready := True, history_position := - 1\<rparr>)"
    by (simp add: console_ok_def)
  then show ?thesis using t by (simp add: key_enter_def good_def)
qed

lemma key_backspace_good:
  assumes "on_screen s" "console_ok s"
  shows "good (key_backspace s)"
proof (cases "0 < input_position s")
  case True
  let ?s = "put_input (input_position s - 1) NUL (s\<lparr>input_position := input_position s - 1\<rparr>)"
  have lt: "input_position s - 1 < CONSOLE_INPUT_BUFFER_SIZE" using assms(2) by (auto simp: console_ok_def)
  have "console_ok ?s"
    using assms(2) lt line_after_put [OF lt, of "s\<lparr>input_position := input_position s - 1\<rparr>"]
    by (simp add: console_ok_def)
  then show ?thesis using puts_good [of ?s] assms(1) True by (simp add: key_backspace_def del: vga_puts.simps)
qed (use assms in \<open>simp add: key_backspace_def good_def\<close>)

lemma key_character_good:
  assumes "on_screen s" "console_ok s"
  shows "good (key_character c s)"
proof (cases "input_position s < CONSOLE_INPUT_BUFFER_SIZE - 1")
  case True
  let ?n = "input_position s"
  let ?t = "put_input ?n c (s\<lparr>input_position := ?n + 1\<rparr>)"
  have "console_ok (put_input (?n + 1) NUL ?t)"
    using assms(2) True line_after_put [of "?n + 1" ?t] by (simp add: console_ok_def)
  then have "good (vga_puts [c] (put_input (?n + 1) NUL ?t))" using assms(1) by (intro puts_good) simp_all
  then show ?thesis using True by (simp add: key_character_def Let_def)
qed (use assms in \<open>simp add: key_character_def good_def Let_def\<close>)

lemma history_good:
  assumes "on_screen s" "console_ok s" "0 \<le> k" "k < history_count s"
  shows "good (Option.bind (erase_line (s\<lparr>history_position := k\<rparr>)) (\<lambda>t. show_line (history_buffer t (history_position t)) t))"
proof -
  obtain t where t: "erase_line (s\<lparr>history_position := k\<rparr>) = Some t" "on_screen t" "input_position t = 0"
      "input_buffer t = input_buffer s" "history_buffer t = history_buffer s" "history_count t = history_count s"
      "history_position t = k"
    using erase_effect [of "s\<lparr>history_position := k\<rparr>"] assms(1) by auto
  have "input_line t = input_line s" using t(4) by (simp add: input_line_def)
  then have "console_ok (t\<lparr>input_position := 0\<rparr>)" "fits (history_buffer t k)"
    using assms t by (simp_all add: console_ok_def)
  then show ?thesis using show_line_good [OF t(2)] t(1,7) by simp
qed

lemma key_up_good: "on_screen s \<Longrightarrow> console_ok s \<Longrightarrow> good (key_up s)"
  using history_good [of s "history_count s - 1"] history_good [of s "history_position s - 1"]
    history_good [of s "history_position s"]
  by (auto simp: key_up_def good_def Let_def console_ok_def)

lemma key_down_good:
  assumes s: "on_screen s" "console_ok s"
  shows "good (key_down s)"
proof (cases "history_position s = - 1 \<or> history_position s + 1 < history_count s")
  case True
  then show ?thesis
  proof
    assume "history_position s = - 1"
    then show ?thesis using s by (simp add: key_down_def good_def)
  next
    assume less: "history_position s + 1 < history_count s"
    let ?k = "history_position s + 1"
    obtain t where t: "erase_line (s\<lparr>history_position := ?k\<rparr>) = Some t" "history_count t = history_count s"
        "history_position t = ?k"
      using erase_effect [of "s\<lparr>history_position := ?k\<rparr>"] s(1) by auto
    show ?thesis
      using history_good [OF s, of ?k] less t s by (auto simp: key_down_def good_def console_ok_def)
  qed
next
  case False
  let ?k = "history_position s + 1"
  obtain t where t: "erase_line (s\<lparr>history_position := ?k\<rparr>) = Some t" "on_screen t" "input_position t = 0"
      "history_buffer t = history_buffer s" "history_count t = history_count s" "history_position t = ?k"
    using erase_effect [of "s\<lparr>history_position := ?k\<rparr>"] s(1) by auto
  let ?t = "(put_input 0 NUL t)\<lparr>history_position := - 1\<rparr>"
  have "length (input_line ?t) < CONSOLE_INPUT_BUFFER_SIZE"
    using line_after_put [of 0 t] by (simp add: CONSOLE_INPUT_BUFFER_SIZE_def)
  then have "console_ok (?t\<lparr>input_position := length (input_line ?t)\<rparr>)"
    using s(2) t by (simp add: console_ok_def)
  then have "good (vga_puts (input_line ?t) (?t\<lparr>input_position := length (input_line ?t)\<rparr>))"
    using t(2) by (intro puts_good) simp_all
  then show ?thesis using False t by (simp add: key_down_def Let_def)
qed

lemma key_home_good:
  assumes "on_screen s" "console_ok s"
  shows "good (key_home s)"
proof -
  obtain t where t: "repeat_puts (input_position s) [BS] s = Some t" "on_screen t" "vga.more t = vga.more s"
    using repeat_effect [OF assms(1)] by blast
  then have "console_ok (t\<lparr>input_position := 0\<rparr>)"
    using assms(2) console_ok_more(1) [OF t(3)] by (auto simp: console_ok_def CONSOLE_INPUT_BUFFER_SIZE_def)
  then show ?thesis using t by (simp add: key_home_def good_def)
qed

lemma key_left_good:
  assumes "on_screen s" "console_ok s"
  shows "good (key_left s)"
proof -
  obtain t where t: "vga_putchar BS s = Some t" "on_screen t" "vga.more t = vga.more s"
    using putchar_effect [OF assms(1)] by (auto simp: screen_only_def)
  then have "console_ok (t\<lparr>input_position := input_position t - 1\<rparr>)"
    using assms(2) console_ok_more(1) [OF t(3)] by (auto simp: console_ok_def)
  then show ?thesis using t assms by (simp add: key_left_def good_def)
qed

text \<open>Keys with a translation: the table is read inside its bounds.\<close>

definition translated :: "u16 \<Rightarrow> bool" where
  "translated key \<longleftrightarrow> key AND KEY_SPECIAL \<noteq> 0 \<or> unat (key AND 0xFF) < length scancode_to_ascii_lower"

lemma callback_good:
  assumes "console_ok s" and "on_screen s" and "translated key"
  shows "good (console_keyboard_callback key s)"
proof -
  have "keyboard_scancode_to_ascii key s \<noteq> None"
    using assms(3) by (auto simp: translated_def keyboard_scancode_to_ascii_def Let_def)
  then obtain a where a: "keyboard_scancode_to_ascii key s = Some a" by blast
  show ?thesis
    using a key_enter_good [OF assms(2,1)] key_backspace_good [OF assms(2,1)] key_character_good [OF assms(2,1)]
      key_up_good [OF assms(2,1)] key_down_good [OF assms(2,1)] key_home_good [OF assms(2,1)]
      key_left_good [OF assms(2,1)] goodI [OF refl assms(2,1)]
    by (auto simp: console_keyboard_callback_def Let_def)
qed

text \<open>C23: the console's buffers stay within their bounds.  From any state in which the line ends
  inside its 256 characters, the write position is inside them and the history is within its
  ten entries, with the cursor on the screen, every key whose code the translation table covers
  leads to such a state again: no store leaves the line, the history or the screen.\<close>

theorem console_key_keeps_bounds:
  assumes "console_ok s" and "on_screen s" and "translated key"
  shows "\<exists>t. console_keyboard_callback key s = Some t \<and> console_ok t \<and> on_screen t"
  using callback_good [OF assms] by (auto simp: good_def)

definition sample_console :: console where
  "sample_console = keyboard.extend (sample_keyboard\<lparr>keyboard_callback := Some Console_keyboard_callback\<rparr>)
     (console.fields (\<lambda>_. NUL) 0 False (\<lambda>_. []) 0 (- 1) [] 7 0)"

lemma sample_console_fields [simp]:
  "input_position sample_console = 0" "input_buffer sample_console = (\<lambda>_. NUL)"
  "\<not> input_ready sample_console" "keyboard_callback sample_console = Some Console_keyboard_callback"
  "on_screen sample_console" "console_ok sample_console"
proof -
  show p: "input_position sample_console = 0" "input_buffer sample_console = (\<lambda>_. NUL)"
      "\<not> input_ready sample_console" "keyboard_callback sample_console = Some Console_keyboard_callback"
      "on_screen sample_console"
    by (simp_all add: sample_console_def sample_keyboard_def vga.defs keyboard.defs console.defs sample_vga_def on_screen_def screen_consts)
  have "length (input_line sample_console) < CONSOLE_INPUT_BUFFER_SIZE"
    unfolding input_line_short p by (intro exI [of _ 0]) (simp add: CONSOLE_INPUT_BUFFER_SIZE_def)
  then show "console_ok sample_console"
    by (simp add: console_ok_def p)
      (auto simp: sample_console_def sample_keyboard_def vga.defs keyboard.defs console.defs sample_vga_def
        CONSOLE_INPUT_BUFFER_SIZE_def CONSOLE_MAX_HISTORY_def)
qed

theorem console_key_keeps_bounds_witness:
  "\<exists>t. console_keyboard_callback 10 sample_console = Some t \<and> console_ok t \<and> on_screen t"
proof -
  have "translated 10" by (simp add: translated_def KEY_SPECIAL_def scancode_to_ascii_lower_def)
  from console_key_keeps_bounds [OF sample_console_fields(6,5) this] show ?thesis .
qed

end
