(* ===== verification/Console_Line.thy ===== *)
theory Console_Line
  imports Console_Input
begin

text \<open>
  From the keyboard to the command line.  The driver enqueues characters and the console
  translates them as if they were scancodes.
\<close>

text \<open>Readiness of the line and the callback stay as they are.\<close>

definition quiet :: "'a console_scheme \<Rightarrow> 'a console_scheme option \<Rightarrow> bool" where
  "quiet s r \<longleftrightarrow> (\<forall>t. r = Some t \<longrightarrow> input_ready t = input_ready s \<and> keyboard_callback t = keyboard_callback s)"

lemma quiet_Some [simp]: "quiet s (Some t) \<longleftrightarrow> input_ready t = input_ready s \<and> keyboard_callback t = keyboard_callback s"
  by (simp add: quiet_def)

lemma quiet_None [simp]: "quiet s None"
  by (simp add: quiet_def)

lemma quiet_bind: "quiet s r \<Longrightarrow> (\<And>t. r = Some t \<Longrightarrow> quiet t (f t)) \<Longrightarrow> quiet s (Option.bind r f)"
  by (cases r) (auto simp: quiet_def)

lemma quiet_map: "quiet s r \<Longrightarrow> (\<And>t. input_ready (f t) = input_ready t \<and> keyboard_callback (f t) = keyboard_callback t)
    \<Longrightarrow> quiet s (map_option f r)"
  by (cases r) (auto simp: quiet_def)

lemma quiet_from: "quiet u r \<Longrightarrow> input_ready u = input_ready s \<Longrightarrow> keyboard_callback u = keyboard_callback s \<Longrightarrow> quiet s r"
  by (simp add: quiet_def)

lemma quiet_output [simp]:
  "quiet s (vga_putchar c s)" "quiet s (vga_puts str s)" "quiet s (repeat_puts n str s)"
  using output_frame by (fastforce simp: quiet_def)+

lemma edit_frame [simp]:
  "input_ready (copy_input str s) = input_ready s" "keyboard_callback (copy_input str s) = keyboard_callback s"
  "keyboard_callback (put_input i c s) = keyboard_callback s"
  by (simp_all add: copy_input_def put_input_def)

lemma quiet_puts_of: "input_ready u = input_ready s \<Longrightarrow> keyboard_callback u = keyboard_callback s
    \<Longrightarrow> quiet s (vga_puts str u) \<and> quiet s (vga_putchar c u)"
  using quiet_from quiet_output by blast

lemma quiet_erase [simp]: "quiet s (erase_line s)"
  unfolding erase_line_def by (rule quiet_map) simp_all

lemma quiet_show [simp]: "quiet s (show_line str s)"
  by (simp add: show_line_def Let_def quiet_puts_of del: vga_puts.simps)

lemma quiet_keys [simp]:
  "quiet s (key_backspace s)" "quiet s (key_character c s)" "quiet s (key_home s)" "quiet s (key_left s)"
  by (simp_all add: key_backspace_def key_character_def key_home_def key_left_def Let_def quiet_puts_of quiet_map
      del: vga_puts.simps)

lemma quiet_erase_at [simp]: "quiet s (erase_line (s\<lparr>history_position := k\<rparr>))"
  by (rule quiet_from [OF quiet_erase]) simp_all

lemma quiet_history [simp]: "quiet s (key_up s)" "quiet s (key_down s)"
proof -
  show "quiet s (key_up s)"
    by (auto simp: key_up_def Let_def intro!: quiet_bind)
  show "quiet s (key_down s)"
    by (auto simp: key_down_def Let_def quiet_puts_of intro!: quiet_bind simp del: vga_puts.simps)
qed

subsection \<open>Keys the driver produces\<close>

text \<open>Only index 28 of the tables holds a line end, and no entry of the lower table is 28.\<close>

lemma tables_no_enter:
  "\<forall>v \<in> set scancode_to_ascii_lower. unat v \<noteq> 28"
  "\<forall>i \<in> set [0..<59]. i \<noteq> 28 \<longrightarrow> scancode_to_ascii_lower ! i \<notin> {10, 13} \<and> scancode_to_ascii_upper ! i \<notin> {10, 13}"
  by code_simp+

lemma table_length: "length scancode_to_ascii_lower = 59"
  by code_simp

text \<open>The low byte of what the driver enqueues.\<close>

definition driver_key :: "u16 \<Rightarrow> bool" where
  "driver_key key \<longleftrightarrow> unat (key AND 0xFF) \<noteq> 28"

lemmas key_consts = KEY_SPECIAL_def KEY_SHIFT_def KEY_ALT_def KEY_CTRL_def KEY_CAPSLOCK_def KEY_NUMLOCK_def
  KEY_SCROLLLOCK_def KEY_HOME_def KEY_END_def KEY_INSERT_def KEY_DELETE_def KEY_PAGE_UP_def KEY_PAGE_DOWN_def
  KEY_LEFT_def KEY_RIGHT_def KEY_UP_def KEY_DOWN_def

lemma low_byte: "unat ((ucast (v :: u8) :: u16) AND 0xFF) = unat v"
proof -
  have "(ucast v :: u16) AND 0xFF = ucast v"
    by (rule bit_word_eqI) (auto simp: bit_simps mask_consts simp flip: mask_eq_exp_minus_1 dest: bit_imp_le_length)
  then show ?thesis by (simp add: unat_ucast_up)
qed

lemma u8_take: "take_bit 8 (unat (a :: u8)) = unat a"
  using unsigned_less [of a, where 'a = nat] by (simp add: take_bit_nat_eq_self)

lemma plain_key_driver:
  assumes "unat code < 59" and "plain_key code keyup s = (key, t)"
  shows "driver_key key"
proof -
  have "scancode_to_ascii_lower ! unat code \<in> set scancode_to_ascii_lower"
    using assms(1) by (simp add: table_length)
  then have "unat (scancode_to_ascii_lower ! unat code) \<noteq> 28"
    using tables_no_enter(1) by blast
  then show ?thesis
    using assms(2) by (auto simp: plain_key_def driver_key_def low_byte key_consts split: if_splits)
qed

lemma extended_key_driver: "extended_key code keyup s = (key, t) \<Longrightarrow> driver_key key"
  by (auto simp: extended_key_def driver_key_def key_consts split: if_splits)

lemma driver_key_quiet:
  assumes "driver_key key"
  shows "quiet s (console_keyboard_callback key s)"
proof -
  have "char_of (unat a) \<noteq> CHR 0x0A \<and> char_of (unat a) \<noteq> CHR 0x0D"
    if a: "keyboard_scancode_to_ascii key s = Some a" "key AND KEY_SPECIAL = 0" for a
  proof -
    have "a \<notin> {10, 13}"
      using a assms tables_no_enter(2)
      by (auto simp: keyboard_scancode_to_ascii_def driver_key_def table_length Let_def split: if_splits)
    then have "unat a \<noteq> 10" "unat a \<noteq> 13" using word_unat_eqI [of a 10] word_unat_eqI [of a 13] by auto
    then show ?thesis by (simp add: char_of_eq_iff u8_take)
  qed
  then show ?thesis
    by (cases "keyboard_scancode_to_ascii key s") (simp_all add: console_keyboard_callback_def Let_def)
qed

subsection \<open>One interrupt, and any number of them\<close>

text \<open>The console in operation, with no line yet.\<close>

definition console_up :: "'a console_scheme \<Rightarrow> bool" where
  "console_up s \<longleftrightarrow> console_ok s \<and> on_screen s \<and> keyboard_callback s = Some Console_keyboard_callback
     \<and> \<not> input_ready s"

text \<open>Scancodes that lead to a look inside the translation tables: releases, codes behind the
  tables, and keys whose character is itself an index of the tables.\<close>

definition covered :: "u8 \<Rightarrow> bool" where
  "covered code \<longleftrightarrow> code AND 0x80 \<noteq> 0 \<or> length scancode_to_ascii_lower \<le> unat code
     \<or> unat (scancode_to_ascii_lower ! unat code) < length scancode_to_ascii_lower"

lemma console_up_fields [simp]:
  fixes s :: "'a console_scheme"
  shows "console_up (s\<lparr>shift_pressed := p\<rparr>) = console_up s" "console_up (s\<lparr>ctrl_pressed := p\<rparr>) = console_up s"
    "console_up (s\<lparr>alt_pressed := p\<rparr>) = console_up s" "console_up (s\<lparr>caps_lock := p\<rparr>) = console_up s"
    "console_up (s\<lparr>num_lock := p\<rparr>) = console_up s" "console_up (s\<lparr>scroll_lock := p\<rparr>) = console_up s"
    "console_up (s\<lparr>extended := p\<rparr>) = console_up s" "console_up (s\<lparr>keyboard_buffer := b\<rparr>) = console_up s"
    "console_up (s\<lparr>keyboard_buffer_head := n\<rparr>) = console_up s"
  by (simp_all add: console_up_def console_ok_def input_line_def on_screen_def)

lemma key_frames:
  fixes s :: "'a console_scheme"
  shows "plain_key c k s = (key, t) \<Longrightarrow> console_up t = console_up s"
    and "extended_key c k s = (key, t) \<Longrightarrow> console_up t = console_up s"
    and "buffer_store x s = (b, t) \<Longrightarrow> console_up t = console_up s"
  by (auto simp: plain_key_def split: if_splits) (auto simp: extended_key_def buffer_store_def Let_def split: if_splits)

lemma enqueue_up:
  assumes "driver_key key" and up: "console_up s"
  shows "case keyboard_buffer_enqueue
      (\<lambda>f. case f of Console_keyboard_callback \<Rightarrow> console_keyboard_callback | Callback_at a \<Rightarrow> other a) key s of
    None \<Rightarrow> \<not> translated key | Some t \<Rightarrow> console_up t"
proof -
  obtain b t where t: "buffer_store key s = (b, t)" by fastforce
  have tup: "console_up t" using key_frames(3) [OF t] up by blast
  have q: "quiet t (console_keyboard_callback key t)" by (rule driver_key_quiet [OF assms(1)])
  have "case console_keyboard_callback key t of None \<Rightarrow> \<not> translated key | Some u \<Rightarrow> console_up u"
  proof (cases "translated key")
    case True
    then show ?thesis
      using callback_good [of t key] q tup by (auto simp: good_def console_up_def quiet_def)
  next
    case False
    then have "console_keyboard_callback key t = (if key AND KEY_RELEASED \<noteq> 0 then Some t else None)"
      by (simp add: console_keyboard_callback_def keyboard_scancode_to_ascii_def translated_def Let_def)
    then show ?thesis using False tup by simp
  qed
  then show ?thesis using tup by (simp add: keyboard_buffer_enqueue_def t console_up_def)
qed

text \<open>What a scancode leads to.\<close>

lemma and_7F: "(code :: u8) AND 0x80 = 0 \<Longrightarrow> code AND 0x7F = code"
proof (rule bit_word_eqI)
  fix n
  assume z: "code AND 0x80 = 0" and n: "n < LENGTH(8)"
  have m: "(0x80 :: u8) = 2 ^ 7" "(0x7F :: u8) = mask 7" by (simp_all add: mask_eq_exp_minus_1)
  have "\<not> bit code 7" using z and_exp_eq_0_iff_not_bit [of code 7] unfolding m(1) by simp
  then show "bit (code AND 0x7F) n \<longleftrightarrow> bit code n"
    unfolding m(2) using n by (cases "n = 7") (auto simp: bit_simps)
qed

lemma plain_key_translated:
  assumes "unat code < length scancode_to_ascii_lower" and "plain_key code keyup s = (key, t)"
    and "unat (scancode_to_ascii_lower ! unat code) < length scancode_to_ascii_lower"
  shows "translated key"
  using assms by (auto simp: plain_key_def translated_def low_byte key_consts table_length split: if_splits)

lemma extended_key_translated: "extended_key code keyup s = (key, t) \<Longrightarrow> translated key"
  by (auto simp: extended_key_def translated_def key_consts table_length split: if_splits)

lemma interrupt_up:
  assumes up: "console_up s"
  shows "case key_interrupt other code s of None \<Rightarrow> \<not> covered code | Some t \<Rightarrow> console_up t"
proof (cases "code = 0xE0")
  case True
  then show ?thesis using up by (simp add: key_interrupt_def keyboard_process_scancode_def)
next
  case False
  let ?c = "code AND 0x7F" and ?up = "code AND 0x80 \<noteq> 0"
  define r where "r = (if \<not> extended s \<and> unat ?c < length scancode_to_ascii_lower then plain_key ?c ?up s
     else if extended s then extended_key ?c ?up (s\<lparr>extended := False\<rparr>) else (0, s))"
  obtain key t where k: "r = (key, t)" by fastforce
  have t: "console_up t"
    using k up key_frames(1) [of ?c ?up s key t] key_frames(2) [of ?c ?up "s\<lparr>extended := False\<rparr>" key t]
    by (auto simp: r_def split: if_splits)
  have "driver_key key"
    using k plain_key_driver [of ?c ?up s key t] extended_key_driver [of ?c ?up "s\<lparr>extended := False\<rparr>" key t]
    by (auto simp: r_def table_length driver_key_def split: if_splits)
  note e = enqueue_up [OF this t, where other = other]
  have "translated key" if "covered code" "\<not> ?up"
    using that k and_7F [of code] plain_key_translated [of ?c ?up s key t]
      extended_key_translated [of ?c ?up "s\<lparr>extended := False\<rparr>" key t]
    by (auto simp: r_def covered_def translated_def table_length split: if_splits)
  then show ?thesis
    using False t k e
    by (auto simp: key_interrupt_def keyboard_process_scancode_def Let_def simp flip: r_def split: option.splits)
qed

lemma interrupts_up:
  assumes "console_up s"
  shows "case key_interrupts other codes s of None \<Rightarrow> \<exists>code \<in> set codes. \<not> covered code | Some t \<Rightarrow> console_up t"
  using assms
proof (induction codes arbitrary: s)
  case (Cons code codes)
  show ?case
  proof (cases "key_interrupt other code s")
    case None
    then show ?thesis using interrupt_up [OF Cons.prems, where other = other and code = code] by simp
  next
    case (Some t)
    then have "console_up t" using interrupt_up [OF Cons.prems, where other = other and code = code] by simp
    from Cons.IH [OF this] show ?thesis using Some by (auto split: option.splits)
  qed
qed simp

lemma wait_line_up:
  assumes "console_up s"
  shows "case wait_line other codes s of None \<Rightarrow> \<exists>code \<in> set codes. \<not> covered code
    | Some (Over _ _) \<Rightarrow> False | Some (Waiting t) \<Rightarrow> console_up t"
  using assms
proof (induction codes arbitrary: s)
  case Nil
  then show ?case by (simp add: console_up_def wait_line.simps [of _ "[]"])
next
  case (Cons code codes)
  have step: "wait_line other (code # codes) s = Option.bind (key_interrupt other code s) (wait_line other codes)"
    using Cons.prems by (subst wait_line.simps) (simp add: console_up_def)
  show ?case
  proof (cases "key_interrupt other code s")
    case None
    then show ?thesis using interrupt_up [OF Cons.prems, where other = other and code = code] by (simp add: step)
  next
    case (Some t)
    then have "console_up t" using interrupt_up [OF Cons.prems, where other = other and code = code] by simp
    from Cons.IH [OF this] show ?thesis using Some by (auto simp: step split: option.splits wait.splits)
  qed
qed

lemma char_key: "(ucast (v :: u8) :: u16) AND KEY_SPECIAL = 0" "(ucast (v :: u8) :: u16) AND KEY_RELEASED = 0"
proof -
  have m: "KEY_SPECIAL = 2 ^ 8" "KEY_RELEASED = 2 ^ 15" by (simp_all add: KEY_SPECIAL_def KEY_RELEASED_def)
  show "(ucast v :: u16) AND KEY_SPECIAL = 0" "(ucast v :: u16) AND KEY_RELEASED = 0"
    unfolding m and_exp_eq_0_iff_not_bit by (auto simp: bit_simps dest: bit_imp_le_length)
qed

text \<open>The modifier keys have no character.\<close>

lemma table_modifiers:
  "scancode_to_ascii_lower ! 42 = 0" "scancode_to_ascii_lower ! 54 = 0" "scancode_to_ascii_lower ! 29 = 0"
  "scancode_to_ascii_lower ! 56 = 0" "scancode_to_ascii_lower ! 58 = 0"
  by code_simp+

lemma interrupt_uncovered:
  assumes "console_up s" "\<not> extended s" and "\<not> covered code"
    and "Suc (keyboard_buffer_head s) mod KEYBOARD_BUFFER_SIZE \<noteq> keyboard_buffer_tail s"
  shows "key_interrupt other code s = None"
proof -
  have c: "code AND 0x80 = 0" "unat code < length scancode_to_ascii_lower"
      "length scancode_to_ascii_lower \<le> unat (scancode_to_ascii_lower ! unat code)"
    using assms(3) by (auto simp: covered_def)
  let ?v = "scancode_to_ascii_lower ! unat code"
  have v: "(ucast ?v :: u16) \<noteq> 0"
  proof
    assume "(ucast ?v :: u16) = 0"
    then have "unat (ucast ?v :: u16) = 0" by simp
    then show False using c(3) by (simp add: unat_ucast_up table_length)
  qed
  moreover have "code \<noteq> 0x45" "code \<noteq> 0x46" using c(2) by (auto simp: table_length)
  moreover have "code \<notin> {0x2A, 0x36, 0x1D, 0x38, 0x3A}"
    using c(3) by (auto simp: table_modifiers table_length)
  ultimately have plain: "plain_key code False s = (ucast ?v, s)" by (simp add: plain_key_def)
  have "code \<noteq> 0xE0" using c(1) by auto
  then have "key_interrupt other code s
      = keyboard_buffer_enqueue (\<lambda>f. case f of Console_keyboard_callback \<Rightarrow> console_keyboard_callback
          | Callback_at a \<Rightarrow> other a) (ucast ?v) s"
    using assms(2) c(1,2) v plain and_7F [OF c(1)]
    by (simp add: key_interrupt_def keyboard_process_scancode_def)
  moreover have "console_keyboard_callback (ucast ?v) t = None" for t :: "'a console_scheme"
    using c(3) low_byte [of ?v]
    by (simp add: console_keyboard_callback_def keyboard_scancode_to_ascii_def char_key)
  ultimately show ?thesis
    using assms(1,4) by (simp add: keyboard_buffer_enqueue_def buffer_store_def console_up_def)
qed

text \<open>C16: no command ever reaches the console.  The driver has already turned scancodes into
  characters when it calls the console's callback, and the callback looks the character up in
  the scancode tables again, where nothing but index 28 is a line end and no key has that
  value.  So whatever scancodes arrive, the line is not ready afterwards, \<open>console_update\<close> does
  nothing and \<open>console_read_line\<close> is still waiting: except that a key whose character is no index
  of the 59 entries (the letters and six other characters) makes the callback read behind the table, as soon as there is room for
  it in the ring.  With the other keys, Enter, blank and the digits among them, no undefined
  behaviour is reached and the console stays as it should be.\<close>

theorem console_never_gets_a_line:
  assumes "console_up s"
  shows "(case key_interrupts other codes s of
        None \<Rightarrow> \<exists>code \<in> set codes. \<not> covered code
      | Some t \<Rightarrow> console_up t \<and> console_update handler t = Some t)
    \<and> (case console_read_line other codes s of
        None \<Rightarrow> \<exists>code \<in> set codes. \<not> covered code
      | Some (Over line t) \<Rightarrow> False
      | Some (Waiting t) \<Rightarrow> console_up t)
    \<and> (\<forall>code. \<not> covered code \<and> \<not> extended s
        \<and> Suc (keyboard_buffer_head s) mod KEYBOARD_BUFFER_SIZE \<noteq> keyboard_buffer_tail s
        \<longrightarrow> key_interrupt other code s = None)"
proof -
  have same: "s\<lparr>input_ready := False\<rparr> = s" using assms by (simp add: console_up_def)
  have "case key_interrupts other codes s of None \<Rightarrow> \<exists>code \<in> set codes. \<not> covered code
      | Some t \<Rightarrow> console_up t \<and> console_update handler t = Some t"
    using interrupts_up [OF assms, where other = other and codes = codes]
    by (auto simp: console_update_def console_up_def split: option.splits)
  moreover have "case console_read_line other codes s of None \<Rightarrow> \<exists>code \<in> set codes. \<not> covered code
      | Some (Over line t) \<Rightarrow> False | Some (Waiting t) \<Rightarrow> console_up t"
    using wait_line_up [OF assms, where other = other and codes = codes]
    by (auto simp: console_read_line_def same split: option.splits wait.splits)
  ultimately show ?thesis using interrupt_uncovered [OF assms] by blast
qed

text \<open>The Enter key, scancode 28, types the character that the scancode 10 stands for.\<close>

lemma enter_types_nine:
  "\<exists>t. key_interrupts other [28] sample_console = Some t \<and> input_position t = 1 \<and> input_buffer t 0 = CHR ''9''"
proof -
  let ?k = "sample_console\<lparr>keyboard_buffer := (keyboard_buffer sample_console)(63 := 10), keyboard_buffer_head := 0\<rparr>"
  let ?e = "put_input 1 NUL (put_input 0 CHR ''9'' (?k\<lparr>input_position := 1\<rparr>))"
  have f: "extended sample_console = False" "keyboard_buffer_head sample_console = 63"
      "keyboard_buffer_tail sample_console = 63" "shift_pressed sample_console = False"
      "caps_lock sample_console = False"
    by (simp_all add: sample_console_def sample_keyboard_def vga.defs keyboard.defs console.defs sample_vga_def)
  have c: "scancode_to_ascii_lower ! 28 = 10" "scancode_to_ascii_lower ! 10 = of_char CHR ''9''" by code_simp+
  have nine: "char_of (57 :: nat) = CHR ''9''" by code_simp
  have "on_screen ?e" using sample_console_fields(5) by (simp add: on_screen_def put_input_def)
  then obtain t where t: "vga_putchar CHR ''9'' ?e = Some t" "vga.more t = vga.more ?e"
    using putchar_effect [of ?e "CHR ''9''"] by (auto simp: screen_only_def)
  have cb: "console_keyboard_callback 10 ?k = Some t"
    using t(1) by (simp add: console_keyboard_callback_def KEY_RELEASED_def KEY_SPECIAL_def
      keyboard_scancode_to_ascii_def table_length c f key_character_def CONSOLE_INPUT_BUFFER_SIZE_def nine Let_def)
  have "key_interrupt other 28 sample_console = Some t"
    using cb by (simp add: key_interrupt_def keyboard_process_scancode_def table_length f c plain_key_def
      keyboard_buffer_enqueue_def buffer_store_def KEYBOARD_BUFFER_SIZE_def)
  then show ?thesis using console_more [OF t(2)] by (simp add: put_input_def)
qed

theorem console_never_gets_a_line_witness:
  "\<exists>t. key_interrupts (\<lambda>_ _. Some) [28] sample_console = Some t \<and> input_buffer t 0 = CHR ''9''
     \<and> \<not> input_ready t \<and> console_update (\<lambda>_ _ _. None) t = Some t"
proof -
  obtain t where t: "key_interrupts (\<lambda>_ _. Some) [28] sample_console = Some t" "input_buffer t 0 = CHR ''9''"
    using enter_types_nine by blast
  have "console_up sample_console" by (simp add: console_up_def)
  from console_never_gets_a_line [OF this, where other = "\<lambda>_ _. Some" and codes = "[28]" and handler = "\<lambda>_ _ _. None"] t
  show ?thesis by (auto simp: console_up_def)
qed

end
