(* ===== verification/Polling.thy ===== *)
theory Polling
  imports Prelude
begin

text \<open>
  Busy waiting: \<open>while (!ready());\<close>.  One look at the device is \<open>look s\<close>, with the answer and the
  state afterwards; a wait that never ends is \<open>None\<close>.
\<close>

partial_function (option) poll :: "('s \<Rightarrow> bool \<times> 's) \<Rightarrow> 's \<Rightarrow> 's option" where
  "poll look s = (case look s of (ready, t) \<Rightarrow> if ready then Some t else poll look t)"

text \<open>The state after \<open>n\<close> looks.\<close>

definition looked :: "('s \<Rightarrow> bool \<times> 's) \<Rightarrow> nat \<Rightarrow> 's \<Rightarrow> 's" where
  "looked look n s = ((\<lambda>u. snd (look u)) ^^ n) s"

lemma looked_0 [simp]: "looked look 0 s = s"
  by (simp add: looked_def)

lemma looked_Suc: "looked look (Suc n) s = looked look n (snd (look s))"
  by (simp add: looked_def funpow_Suc_right del: funpow.simps)

lemma poll_step: "poll look s = (if fst (look s) then Some (snd (look s)) else poll look (snd (look s)))"
  by (subst poll.simps) (simp add: split_beta)

lemma poll_ready:
  "\<forall>k<n. \<not> fst (look (looked look k s)) \<Longrightarrow> fst (look (looked look n s))
    \<Longrightarrow> poll look s = Some (looked look (Suc n) s)"
proof (induction n arbitrary: s)
  case 0
  then show ?case by (subst poll_step) (simp add: looked_Suc)
next
  case (Suc n)
  have "\<not> fst (look (looked look 0 s))" using Suc.prems(1) by blast
  then have first: "\<not> fst (look s)" by simp
  have "poll look (snd (look s)) = Some (looked look (Suc n) (snd (look s)))"
  proof (rule Suc.IH)
    show "\<forall>k<n. \<not> fst (look (looked look k (snd (look s))))"
      using Suc.prems(1) by (metis Suc_less_eq looked_Suc)
    show "fst (look (looked look n (snd (look s))))" using Suc.prems(2) by (simp add: looked_Suc)
  qed
  then show ?case using first by (subst poll_step) (simp add: looked_Suc)
qed

lemma poll_Some:
  assumes "poll look s = Some t"
  shows "\<exists>n. fst (look (looked look n s))"
proof -
  have "\<exists>n. fst (look (looked look n s))"
  proof (rule poll.raw_induct [where P = "\<lambda>look s t. \<exists>n. fst (look (looked look n s))", OF _ assms])
    fix loop :: "('s \<Rightarrow> bool \<times> 's) \<Rightarrow> 's \<Rightarrow> 's option" and look s t
    assume IH: "\<And>look s t. loop look s = Some t \<Longrightarrow> \<exists>n. fst (look (looked look n s))"
      and eq: "(case look s of (ready, t) \<Rightarrow> if ready then Some t else loop look t) = Some t"
    show "\<exists>n. fst (look (looked look n s))"
    proof (cases "fst (look s)")
      case True
      then show ?thesis by (intro exI [of _ 0]) simp
    next
      case False
      then have "loop look (snd (look s)) = Some t" using eq by (simp split: prod.splits)
      then obtain n where "fst (look (looked look n (snd (look s))))" using IH by blast
      then show ?thesis by (intro exI [of _ "Suc n"]) (simp add: looked_Suc)
    qed
  qed
  then show ?thesis .
qed

text \<open>The wait ends exactly when some look finds the device ready, after the first such look.\<close>

lemma poll_iff:
  "poll look s = Some t \<longleftrightarrow>
     (\<exists>n. fst (look (looked look n s)) \<and> (\<forall>k<n. \<not> fst (look (looked look k s))) \<and> t = looked look (Suc n) s)"
proof
  assume t: "poll look s = Some t"
  define n where "n = (LEAST n. fst (look (looked look n s)))"
  have n: "fst (look (looked look n s))" unfolding n_def by (rule LeastI_ex [OF poll_Some [OF t]])
  have before: "\<forall>k<n. \<not> fst (look (looked look k s))" unfolding n_def using not_less_Least by blast
  have "t = looked look (Suc n) s" using poll_ready [OF before n] t by simp
  then show "\<exists>n. fst (look (looked look n s)) \<and> (\<forall>k<n. \<not> fst (look (looked look k s))) \<and> t = looked look (Suc n) s"
    using n before by blast
next
  assume "\<exists>n. fst (look (looked look n s)) \<and> (\<forall>k<n. \<not> fst (look (looked look k s))) \<and> t = looked look (Suc n) s"
  then obtain n where n: "fst (look (looked look n s))" "\<forall>k<n. \<not> fst (look (looked look k s))" "t = looked look (Suc n) s"
    by (elim exE conjE)
  then show "poll look s = Some t" using poll_ready [OF n(2,1)] by simp
qed

lemma poll_returns_iff: "(\<exists>t. poll look s = Some t) \<longleftrightarrow> (\<exists>n. fst (look (looked look n s)))"
proof
  assume n: "\<exists>n. fst (look (looked look n s))"
  define n where "n = (LEAST n. fst (look (looked look n s)))"
  have r: "fst (look (looked look n s))" unfolding n_def by (rule LeastI_ex [OF n])
  have before: "\<forall>k<n. \<not> fst (look (looked look k s))" unfolding n_def using not_less_Least by blast
  show "\<exists>t. poll look s = Some t" using poll_ready [OF before r] by (rule exI)
next
  assume "\<exists>t. poll look s = Some t"
  then obtain t where "poll look s = Some t" ..
  then show "\<exists>n. fst (look (looked look n s))" by (rule poll_Some)
qed

end
