(* ===== verification/Can.thy ===== *)
theory Can
  imports Isr Buffers Fifo Polling
begin

text \<open>
  The CAN driver, drivers/can.c, as built for the ARM target: the two rings, the software
  filters and the registers of the controller.  The bit masks come from the vendor's
  stm32f4xx.h and are the parameter \<open>stm32\<close>; the controller itself is the list of mailboxes
  pending in its FIFO 0, its answers to the reads of TSR and MSR and the mailboxes written to
  it.  A wait for the controller that does not end is \<open>None\<close>.  Frames and filters are handed over
  as values: the null pointers the code also accepts are refused there.
\<close>

subsection \<open>Data (can.h)\<close>

definition CAN_MAX_FILTERS :: nat where "CAN_MAX_FILTERS = 14"
definition CAN_MAX_DLC :: u8 where "CAN_MAX_DLC = 8"
definition CAN_RX_BUFFER_SIZE :: nat where "CAN_RX_BUFFER_SIZE = 64"
definition CAN_TX_BUFFER_SIZE :: nat where "CAN_TX_BUFFER_SIZE = 32"

datatype can_mode = CAN_MODE_NORMAL | CAN_MODE_LOOPBACK | CAN_MODE_SILENT | CAN_MODE_SILENT_LOOPBACK

record can_frame =
  frame_id :: u32
  frame_extended :: bool
  frame_rtr :: bool
  frame_dlc :: u8
  frame_data :: "u8 list"

record can_filter =
  id_mask :: u32
  id_filter :: u32
  filter_extended :: bool

text \<open>The masks of the vendor's header the driver uses.\<close>

record stm32 =
  MCR_INRQ :: u32
  BTR_LBKM :: u32
  BTR_SILM :: u32
  IER_FMPIE0 :: u32
  IER_TMEIE :: u32
  IER_ERRIE :: u32
  IER_BOFIE :: u32
  FMR_FINIT :: u32
  ESR_BOFF :: u32
  ESR_LEC :: u32
  ESR_REC :: u32
  ESR_REC_Pos :: nat
  ESR_TEC :: u32
  ESR_TEC_Pos :: nat
  RI0R_IDE :: u32
  RI0R_RTR :: u32
  RDT0R_DLC :: u32
  TI0R_IDE :: u32
  TI0R_RTR :: u32
  TI0R_TXRQ :: u32
  APB1ENR_CAN1EN :: u32
  RX0_IRQn :: u32
  TX_IRQn :: u32
  SCE_IRQn :: u32

record can_mailbox =
  box_ir :: u32
  box_dtr :: u32
  box_dlr :: u32
  box_dhr :: u32

record can = interrupts +
  rx_buffer :: "nat \<Rightarrow> can_frame"
  rx_head :: nat
  rx_tail :: nat
  tx_buffer :: "nat \<Rightarrow> can_frame"
  tx_head :: nat
  tx_tail :: nat
  rx_callback :: u32
  filters :: "nat \<Rightarrow> can_filter"
  filter_used :: "nat \<Rightarrow> bool"
  current_mode :: can_mode
  can_mcr :: u32
  can_btr :: u32
  can_ier :: u32
  can_esr :: u32
  can_fmr :: u32
  can_fa1r :: u32
  can_fs1r :: u32
  can_fr1 :: "nat \<Rightarrow> u32"
  can_fr2 :: "nat \<Rightarrow> u32"
  fifo0 :: "can_mailbox list"
  tme0 :: "nat \<Rightarrow> bool"
  tsr_reads :: nat
  sent_boxes :: "can_mailbox list"
  inak :: "nat \<Rightarrow> bool"
  msr_reads :: nat
  can_rcc_apb1enr :: u32
  nvic_enabled :: "u32 list"

definition no_frame :: can_frame where
  "no_frame = \<lparr>frame_id = 0, frame_extended = False, frame_rtr = False, frame_dlc = 0,
     frame_data = replicate 8 0\<rparr>"

definition no_filter :: can_filter where
  "no_filter = \<lparr>id_mask = 0, id_filter = 0, filter_extended = False\<rparr>"

subsection \<open>Mailboxes\<close>

definition encode_frame :: "stm32 \<Rightarrow> can_frame \<Rightarrow> can_mailbox" where
  "encode_frame h f =
     (let base = (if frame_extended f then push_bit 3 (frame_id f) else push_bit 21 (frame_id f));
          rir = base OR (if frame_extended f then TI0R_IDE h else 0) OR (if frame_rtr f then TI0R_RTR h else 0);
          d = frame_data f
      in \<lparr>box_ir = rir OR TI0R_TXRQ h, box_dtr = ucast (frame_dlc f),
          box_dlr = word32 (d ! 0) (d ! 1) (d ! 2) (d ! 3), box_dhr = word32 (d ! 4) (d ! 5) (d ! 6) (d ! 7)\<rparr>)"

definition decode_frame :: "stm32 \<Rightarrow> can_mailbox \<Rightarrow> can_frame" where
  "decode_frame h m =
     (let rir = box_ir m; ext = (rir AND RI0R_IDE h \<noteq> 0)
      in \<lparr>frame_id = (if ext then drop_bit 3 rir else drop_bit 21 rir), frame_extended = ext,
          frame_rtr = (rir AND RI0R_RTR h \<noteq> 0), frame_dlc = ucast (box_dtr m AND RDT0R_DLC h),
          frame_data = bytes32 (box_dlr m) @ bytes32 (box_dhr m)\<rparr>)"

subsection \<open>Filters\<close>

definition can_frame_matches_filter :: "can_frame \<Rightarrow> can_filter \<Rightarrow> bool" where
  "can_frame_matches_filter frame flt \<longleftrightarrow> frame_extended frame = filter_extended flt
     \<and> frame_id frame AND id_mask flt = id_filter flt AND id_mask flt"

definition frame_accepted :: "can_frame \<Rightarrow> 'a can_scheme \<Rightarrow> bool" where
  "frame_accepted frame s \<longleftrightarrow>
     (\<exists>i \<in> set [0..<CAN_MAX_FILTERS]. filter_used s i \<and> can_frame_matches_filter frame (filters s i))"

text \<open>The filter bank registers; two filters share a bank.\<close>

definition write_bank :: "stm32 \<Rightarrow> nat \<Rightarrow> can_filter \<Rightarrow> 'a can_scheme \<Rightarrow> 'a can_scheme" where
  "write_bank h i flt s =
     (let n = i div 2; sh = i mod 2 * 16; b = push_bit n 1 :: u32;
          s1 = s\<lparr>can_fmr := can_fmr s OR FMR_FINIT h, can_fa1r := can_fa1r s AND NOT b\<rparr>;
          s2 = (if filter_extended flt
                then s1\<lparr>can_fs1r := can_fs1r s1 OR b,
                        can_fr1 := (can_fr1 s1)(n := push_bit sh (id_filter flt)),
                        can_fr2 := (can_fr2 s1)(n := push_bit sh (id_mask flt))\<rparr>
                else s1\<lparr>can_fs1r := can_fs1r s1 AND NOT b,
                        can_fr1 := (can_fr1 s1)(n := (can_fr1 s1 n AND NOT (push_bit sh 0xFFFF))
                                     OR push_bit sh (id_filter flt AND 0x7FF)),
                        can_fr2 := (can_fr2 s1)(n := (can_fr2 s1 n AND NOT (push_bit sh 0xFFFF))
                                     OR push_bit sh (id_mask flt AND 0x7FF))\<rparr>)
      in s2\<lparr>can_fa1r := can_fa1r s2 OR b, can_fmr := can_fmr s2 AND NOT (FMR_FINIT h)\<rparr>)"

definition can_add_filter :: "stm32 \<Rightarrow> can_filter \<Rightarrow> 'a can_scheme \<Rightarrow> bool \<times> 'a can_scheme" where
  "can_add_filter h flt s =
     (case find (\<lambda>i. \<not> filter_used s i) [0..<CAN_MAX_FILTERS] of
        None \<Rightarrow> (False, s)
      | Some i \<Rightarrow> (True, write_bank h i flt
          (s\<lparr>filters := (filters s)(i := flt), filter_used := (filter_used s)(i := True)\<rparr>)))"

definition can_remove_filter :: "stm32 \<Rightarrow> u8 \<Rightarrow> 'a can_scheme \<Rightarrow> 'a can_scheme" where
  "can_remove_filter h filter_num s =
     (let i = unat filter_num in
      if CAN_MAX_FILTERS \<le> i then s
      else
        let s1 = s\<lparr>filter_used := (filter_used s)(i := False), can_fmr := can_fmr s OR FMR_FINIT h,
                   can_fa1r := can_fa1r s AND NOT (push_bit (i div 2) 1)\<rparr>
        in s1\<lparr>can_fmr := can_fmr s1 AND NOT (FMR_FINIT h)\<rparr>)"

subsection \<open>Control\<close>

definition can_prescaler :: "u32 \<Rightarrow> u32" where
  "can_prescaler speed =
     (if speed = 1000000 then 2 else if speed = 500000 then 4 else if speed = 250000 then 8
      else if speed = 125000 then 16 else 4)"

definition can_configure_timing :: "u32 \<Rightarrow> 'a can_scheme \<Rightarrow> 'a can_scheme" where
  "can_configure_timing speed s = s\<lparr>can_btr :=
     (can_prescaler speed - 1) OR push_bit 16 3 OR push_bit 20 2 OR push_bit 24 3\<rparr>"

definition mode_bits :: "stm32 \<Rightarrow> can_mode \<Rightarrow> u32" where
  "mode_bits h mode = (case mode of CAN_MODE_LOOPBACK \<Rightarrow> BTR_LBKM h | CAN_MODE_SILENT \<Rightarrow> BTR_SILM h
     | CAN_MODE_SILENT_LOOPBACK \<Rightarrow> BTR_LBKM h OR BTR_SILM h | CAN_MODE_NORMAL \<Rightarrow> 0)"

text \<open>\<open>while (!(CAN1->MSR & CAN_MSR_INAK));\<close> for \<open>on\<close>, and its opposite.\<close>

definition msr_wait :: "bool \<Rightarrow> 'a can_scheme \<Rightarrow> 'a can_scheme option" where
  "msr_wait on = poll (\<lambda>s. (inak s (msr_reads s) = on, s\<lparr>msr_reads := Suc (msr_reads s)\<rparr>))"

definition ier_all :: "stm32 \<Rightarrow> u32" where
  "ier_all h = IER_FMPIE0 h OR IER_TMEIE h OR IER_ERRIE h OR IER_BOFIE h"

definition can_init :: "stm32 \<Rightarrow> u32 \<Rightarrow> can_mode \<Rightarrow> 'a can_scheme \<Rightarrow> 'a can_scheme option" where
  "can_init h speed mode s =
     (let s1 = s\<lparr>rx_buffer := (\<lambda>_. no_frame), rx_head := 0, rx_tail := 0,
                 tx_buffer := (\<lambda>_. no_frame), tx_head := 0, tx_tail := 0, rx_callback := 0,
                 filters := (\<lambda>_. no_filter), filter_used := (\<lambda>_. False), current_mode := mode,
                 can_rcc_apb1enr := can_rcc_apb1enr s OR APB1ENR_CAN1EN h, can_mcr := MCR_INRQ h\<rparr>
      in Option.bind (msr_wait True s1) (\<lambda>s2.
         let s3 = can_configure_timing speed s2;
             s4 = s3\<lparr>can_btr := can_btr s3 OR mode_bits h mode, can_mcr := can_mcr s3 AND NOT (MCR_INRQ h)\<rparr>
         in map_option (\<lambda>s5. s5\<lparr>can_ier := ier_all h,
              nvic_enabled := nvic_enabled s5 @ [RX0_IRQn h, TX_IRQn h, SCE_IRQn h]\<rparr>) (msr_wait False s4)))"

definition can_set_mode :: "stm32 \<Rightarrow> can_mode \<Rightarrow> 'a can_scheme \<Rightarrow> 'a can_scheme option" where
  "can_set_mode h mode s =
     (if mode = current_mode s then Some s
      else Option.bind (msr_wait True (s\<lparr>can_mcr := can_mcr s OR MCR_INRQ h\<rparr>)) (\<lambda>s1.
        let s2 = s1\<lparr>can_btr := (can_btr s1 AND NOT (BTR_SILM h OR BTR_LBKM h)) OR mode_bits h mode,
                    can_mcr := can_mcr s1 AND NOT (MCR_INRQ h)\<rparr>
        in map_option (\<lambda>s3. s3\<lparr>current_mode := mode\<rparr>) (msr_wait False s2)))"

definition can_register_rx_callback :: "u32 \<Rightarrow> 'a can_scheme \<Rightarrow> 'a can_scheme" where
  "can_register_rx_callback callback s = s\<lparr>rx_callback := callback\<rparr>"

definition can_get_error_status :: "'a can_scheme \<Rightarrow> u32" where
  "can_get_error_status s = can_esr s"

definition can_clear_error_status :: "stm32 \<Rightarrow> 'a can_scheme \<Rightarrow> 'a can_scheme" where
  "can_clear_error_status h s = s\<lparr>can_esr := can_esr s AND ESR_LEC h\<rparr>"

definition can_is_bus_off :: "stm32 \<Rightarrow> 'a can_scheme \<Rightarrow> bool" where
  "can_is_bus_off h s \<longleftrightarrow> can_esr s AND ESR_BOFF h \<noteq> 0"

definition can_recover_from_bus_off :: "stm32 \<Rightarrow> 'a can_scheme \<Rightarrow> 'a can_scheme option" where
  "can_recover_from_bus_off h s = msr_wait False (s\<lparr>can_mcr := can_mcr s AND NOT (MCR_INRQ h)\<rparr>)"

definition can_get_rx_error_counter :: "stm32 \<Rightarrow> 'a can_scheme \<Rightarrow> u32" where
  "can_get_rx_error_counter h s = drop_bit (ESR_REC_Pos h) (can_esr s AND ESR_REC h)"

definition can_get_tx_error_counter :: "stm32 \<Rightarrow> 'a can_scheme \<Rightarrow> u32" where
  "can_get_tx_error_counter h s = drop_bit (ESR_TEC_Pos h) (can_esr s AND ESR_TEC h)"

definition can_enable_interrupts :: "stm32 \<Rightarrow> 'a can_scheme \<Rightarrow> 'a can_scheme" where
  "can_enable_interrupts h s = s\<lparr>can_ier := ier_all h\<rparr>"

definition can_disable_interrupts :: "'a can_scheme \<Rightarrow> 'a can_scheme" where
  "can_disable_interrupts s = s\<lparr>can_ier := 0\<rparr>"

definition can_process_error_interrupt :: "stm32 \<Rightarrow> 'a can_scheme \<Rightarrow> 'a can_scheme" where
  "can_process_error_interrupt h s =
     (if can_esr s AND ESR_BOFF h \<noteq> 0 then s\<lparr>can_mcr := can_mcr s OR MCR_INRQ h\<rparr> else s)"

subsection \<open>Sending\<close>

text \<open>A read of the transmit status register.\<close>

definition read_tme0 :: "'a can_scheme \<Rightarrow> bool \<times> 'a can_scheme" where
  "read_tme0 s = (tme0 s (tsr_reads s), s\<lparr>tsr_reads := Suc (tsr_reads s)\<rparr>)"

definition tx_frames :: "'a can_scheme \<Rightarrow> can_frame list" where
  "tx_frames s = ring CAN_TX_BUFFER_SIZE (tx_buffer s) (tx_head s) (tx_tail s)"

definition tx_take :: "'a can_scheme \<Rightarrow> can_frame option \<times> 'a can_scheme" where
  "tx_take s =
     (if tx_head s = tx_tail s then (None, s)
      else (Some (tx_buffer s (tx_tail s)), s\<lparr>tx_tail := Suc (tx_tail s) mod CAN_TX_BUFFER_SIZE\<rparr>))"

text \<open>The loop of the transmit interrupt; each turn takes one frame out of the ring, so that
  as many turns as the ring has slots are enough.\<close>

fun tx_loop :: "stm32 \<Rightarrow> nat \<Rightarrow> 'a can_scheme \<Rightarrow> 'a can_scheme" where
  "tx_loop h 0 s = s"
| "tx_loop h (Suc n) s =
     (if tx_head s = tx_tail s then s
      else case read_tme0 s of (ready, t) \<Rightarrow>
        if \<not> ready then t
        else case tx_take t of
            (None, u) \<Rightarrow> u
          | (Some frame, u) \<Rightarrow> tx_loop h n (u\<lparr>sent_boxes := sent_boxes u @ [encode_frame h frame]\<rparr>))"

definition can_process_tx_interrupt :: "stm32 \<Rightarrow> 'a can_scheme \<Rightarrow> 'a can_scheme" where
  "can_process_tx_interrupt h s = tx_loop h CAN_TX_BUFFER_SIZE s"

definition tx_store :: "can_frame \<Rightarrow> 'a can_scheme \<Rightarrow> bool \<times> 'a can_scheme" where
  "tx_store frame s =
     (let nxt = Suc (tx_head s) mod CAN_TX_BUFFER_SIZE
      in if nxt = tx_tail s then (False, s)
         else (True, s\<lparr>tx_buffer := (tx_buffer s)(tx_head s := frame), tx_head := nxt\<rparr>))"

definition can_send_frame :: "stm32 \<Rightarrow> can_frame \<Rightarrow> 'a can_scheme \<Rightarrow> bool \<times> 'a can_scheme" where
  "can_send_frame h frame s =
     (if CAN_MAX_DLC < frame_dlc frame then (False, s)
      else case tx_store frame s of (stored, t) \<Rightarrow>
        if \<not> stored then (False, t)
        else case read_tme0 t of (ready, u) \<Rightarrow>
          (True, if ready then can_process_tx_interrupt h u else u))"

subsection \<open>Receiving\<close>

definition rx_store :: "can_frame \<Rightarrow> 'a can_scheme \<Rightarrow> bool \<times> 'a can_scheme" where
  "rx_store frame s =
     (let nxt = Suc (rx_head s) mod CAN_RX_BUFFER_SIZE
      in if nxt = rx_tail s then (False, s)
         else (True, s\<lparr>rx_buffer := (rx_buffer s)(rx_head s := frame), rx_head := nxt\<rparr>))"

text \<open>\<open>call\<close> is what the registered callback does.\<close>

definition rx_mailbox ::
  "stm32 \<Rightarrow> (u32 \<Rightarrow> can_frame \<Rightarrow> 'a can_scheme \<Rightarrow> 'a can_scheme) \<Rightarrow> can_mailbox \<Rightarrow> 'a can_scheme \<Rightarrow> 'a can_scheme"
where
  "rx_mailbox h call m s =
     (let frame = decode_frame h m; s1 = s\<lparr>fifo0 := tl (fifo0 s)\<rparr>
      in if frame_accepted frame s1
         then case rx_store frame s1 of (stored, t) \<Rightarrow>
           if stored \<and> rx_callback t \<noteq> 0 then call (rx_callback t) frame t else t
         else s1)"

text \<open>The loop ends when the FIFO is empty; no mailbox arrives while it runs.\<close>

fun rx_mailboxes ::
  "stm32 \<Rightarrow> (u32 \<Rightarrow> can_frame \<Rightarrow> 'a can_scheme \<Rightarrow> 'a can_scheme) \<Rightarrow> can_mailbox list \<Rightarrow> 'a can_scheme \<Rightarrow> 'a can_scheme"
where
  "rx_mailboxes h call [] s = s"
| "rx_mailboxes h call (m # ms) s = rx_mailboxes h call ms (rx_mailbox h call m s)"

definition can_process_rx_interrupt ::
  "stm32 \<Rightarrow> (u32 \<Rightarrow> can_frame \<Rightarrow> 'a can_scheme \<Rightarrow> 'a can_scheme) \<Rightarrow> 'a can_scheme \<Rightarrow> 'a can_scheme"
where
  "can_process_rx_interrupt h call s = rx_mailboxes h call (fifo0 s) s"

definition can_receive_frame :: "'a can_scheme \<Rightarrow> can_frame option \<times> 'a can_scheme" where
  "can_receive_frame s =
     (if rx_head s = rx_tail s then (None, s)
      else (Some (rx_buffer s (rx_tail s)), s\<lparr>rx_tail := Suc (rx_tail s) mod CAN_RX_BUFFER_SIZE\<rparr>))"

definition rx_frames :: "'a can_scheme \<Rightarrow> can_frame list" where
  "rx_frames s = ring CAN_RX_BUFFER_SIZE (rx_buffer s) (rx_head s) (rx_tail s)"

end
