(* ===== verification/Can_Rings.thy ===== *)
theory Can_Rings
  imports Can
begin

text \<open>
  Properties of the CAN driver: its rings are queues, frames survive the mailbox encoding, and
  what the interrupt routines do to the rings.
\<close>

definition rx_ok :: "'a can_scheme \<Rightarrow> bool" where
  "rx_ok s \<longleftrightarrow> rx_head s < CAN_RX_BUFFER_SIZE \<and> rx_tail s < CAN_RX_BUFFER_SIZE"

definition tx_ok :: "'a can_scheme \<Rightarrow> bool" where
  "tx_ok s \<longleftrightarrow> tx_head s < CAN_TX_BUFFER_SIZE \<and> tx_tail s < CAN_TX_BUFFER_SIZE"

interpretation can_rx: fifo rx_store can_receive_frame rx_frames rx_ok "\<lambda>_. True" "CAN_RX_BUFFER_SIZE - 1"
proof unfold_locales
  fix s t :: "'a can_scheme" and x b
  assume "rx_ok s" "rx_store x s = (b, t)"
  then show "rx_ok t \<and> b = (length (rx_frames s) < CAN_RX_BUFFER_SIZE - 1)
      \<and> rx_frames t = rx_frames s @ (if b then [x] else [])"
    using ring_put_law [of "rx_head s" CAN_RX_BUFFER_SIZE "rx_tail s" "rx_buffer s" x]
    by (auto simp: rx_store_def rx_ok_def rx_frames_def Let_def split: if_splits)
next
  fix s t :: "'a can_scheme" and r
  assume "rx_ok s" "can_receive_frame s = (r, t)"
  then show "rx_ok t \<and> (case rx_frames s of [] \<Rightarrow> r = None \<and> rx_frames t = []
      | x # xs \<Rightarrow> r = Some x \<and> rx_frames t = xs)"
    using ring_take_law [of "rx_head s" CAN_RX_BUFFER_SIZE "rx_tail s" "rx_buffer s"]
    by (auto simp: can_receive_frame_def rx_ok_def rx_frames_def split: if_splits list.splits)
qed

interpretation can_tx: fifo tx_store tx_take tx_frames tx_ok "\<lambda>_. True" "CAN_TX_BUFFER_SIZE - 1"
proof unfold_locales
  fix s t :: "'a can_scheme" and x b
  assume "tx_ok s" "tx_store x s = (b, t)"
  then show "tx_ok t \<and> b = (length (tx_frames s) < CAN_TX_BUFFER_SIZE - 1)
      \<and> tx_frames t = tx_frames s @ (if b then [x] else [])"
    using ring_put_law [of "tx_head s" CAN_TX_BUFFER_SIZE "tx_tail s" "tx_buffer s" x]
    by (auto simp: tx_store_def tx_ok_def tx_frames_def Let_def split: if_splits)
next
  fix s t :: "'a can_scheme" and r
  assume "tx_ok s" "tx_take s = (r, t)"
  then show "tx_ok t \<and> (case tx_frames s of [] \<Rightarrow> r = None \<and> tx_frames t = []
      | x # xs \<Rightarrow> r = Some x \<and> tx_frames t = xs)"
    using ring_take_law [of "tx_head s" CAN_TX_BUFFER_SIZE "tx_tail s" "tx_buffer s"]
    by (auto simp: tx_take_def tx_ok_def tx_frames_def split: if_splits list.splits)
qed

subsection \<open>Mailboxes\<close>

text \<open>The masks as the reference manual of the controller documents them.\<close>

definition documented :: "stm32 \<Rightarrow> bool" where
  "documented h \<longleftrightarrow> RI0R_IDE h = 4 \<and> TI0R_IDE h = 4 \<and> RI0R_RTR h = 2 \<and> TI0R_RTR h = 2
     \<and> TI0R_TXRQ h = 1 \<and> RDT0R_DLC h = 15"

text \<open>A frame CAN can carry: 11 or 29 bits of identifier, at most 8 bytes.\<close>

definition can_frame_ok :: "can_frame \<Rightarrow> bool" where
  "can_frame_ok f \<longleftrightarrow> unat (frame_id f) < (if frame_extended f then 2 ^ 29 else 2 ^ 11)
     \<and> frame_dlc f \<le> CAN_MAX_DLC \<and> length (frame_data f) = 8"

lemma bits_of_masks: "bit (4 :: int) n \<longleftrightarrow> n = 2" "bit (2 :: int) n \<longleftrightarrow> n = 1"
  using bit_exp_iff [where 'a = int, of 2 n] bit_exp_iff [where 'a = int, of 1 n] by auto

lemma mask_tests: "w AND 4 \<noteq> 0 \<longleftrightarrow> bit (w :: u32) 2" "w AND 2 \<noteq> 0 \<longleftrightarrow> bit (w :: u32) 1"
  using and_exp_eq_0_iff_not_bit [of w 2] and_exp_eq_0_iff_not_bit [of w 1] by simp_all

lemma high_bits_zero:
  fixes w :: "'a::len word"
  assumes "unat w < 2 ^ m" and "m \<le> n"
  shows "\<not> bit w n"
proof
  assume "bit w n"
  then have "bit (unat w) n" by (simp add: bit_unsigned_iff)
  moreover have "take_bit n (unat w) = unat w"
    using assms by (intro take_bit_nat_eq_self) (meson order.strict_trans2 power_increasing one_le_numeral)
  ultimately show False by (metis bit_take_bit_iff less_irrefl)
qed

lemma shifted_back:
  assumes "unat (i :: u32) < 2 ^ (32 - k)" and "\<And>n. k \<le> n \<Longrightarrow> n < 32 \<Longrightarrow> \<not> bit low n" and "k \<le> 32"
  shows "drop_bit k (push_bit k i OR low) = i"
proof (rule bit_word_eqI)
  fix n
  assume "n < LENGTH(32)"
  show "bit (drop_bit k (push_bit k i OR low)) n = bit i n"
  proof (cases "k + n < 32")
    case True
    then show ?thesis using assms(2) [of "k + n"] by (simp add: bit_simps)
  next
    case False
    then have "32 - k \<le> n" by linarith
    then have "\<not> bit i n" by (rule high_bits_zero [OF assms(1)])
    moreover have "\<not> bit (push_bit k i OR low) (k + n)" using False by (auto dest: bit_imp_le_length)
    ultimately show ?thesis by (simp only: bit_drop_bit_eq comp_def)
  qed
qed

lemma dlc_back: "d \<le> CAN_MAX_DLC \<Longrightarrow> (ucast ((ucast d :: u32) AND 15) :: u8) = d"
proof -
  assume "d \<le> CAN_MAX_DLC"
  then have d: "unat d < 2 ^ 4" by (simp add: CAN_MAX_DLC_def word_le_nat_alt)
  have f: "(15 :: u32) = mask 4" by (simp add: mask_eq_exp_minus_1)
  have "\<not> bit d n" if "4 \<le> n" for n using d that by (rule high_bits_zero)
  then show ?thesis
    unfolding f by (intro bit_word_eqI) (auto simp: bit_simps, meson not_le)
qed

text \<open>C26: a frame survives the mailbox.  With the masks the controller documents, any frame CAN
  can carry that \<open>can_process_tx_interrupt\<close> writes to the transmit mailbox is what
  \<open>can_process_rx_interrupt\<close> reads from a receive mailbox with the same contents.\<close>

theorem can_mailbox_roundtrip:
  assumes "documented h" and "can_frame_ok f"
  shows "decode_frame h (encode_frame h f) = f"
proof -
  let ?k = "if frame_extended f then 3 else 21 :: nat"
  define low :: u32 where "low = ((if frame_extended f then 4 else 0) OR (if frame_rtr f then 2 else 0)) OR 1"
  have low: "bit low n \<longleftrightarrow> n = 2 \<and> frame_extended f \<or> n = 1 \<and> frame_rtr f \<or> n = 0" for n
    by (auto simp: low_def bit_or_iff bits_of_masks bit_1_iff)
  have ir: "box_ir (encode_frame h f) = push_bit ?k (frame_id f) OR low"
    using assms(1) by (simp add: encode_frame_def documented_def low_def Let_def or.assoc)
  have id: "drop_bit ?k (box_ir (encode_frame h f)) = frame_id f"
    unfolding ir using assms(2) by (intro shifted_back) (auto simp: low can_frame_ok_def split: if_splits)
  have flags: "bit (box_ir (encode_frame h f)) 2 = frame_extended f" "bit (box_ir (encode_frame h f)) 1 = frame_rtr f"
    unfolding ir by (auto simp: bit_simps low)
  obtain a b c d e g i j where data: "frame_data f = [a, b, c, d, e, g, i, j]"
    using assms(2) by (auto simp: can_frame_ok_def length_Suc_conv eval_nat_numeral)
  have body: "frame_data (decode_frame h (encode_frame h f)) = frame_data f"
    by (simp add: decode_frame_def encode_frame_def Let_def data)
  have "frame_dlc (decode_frame h (encode_frame h f)) = frame_dlc f"
    using assms dlc_back [of "frame_dlc f"]
    by (simp add: decode_frame_def encode_frame_def Let_def documented_def can_frame_ok_def)
  then show ?thesis
    using assms(1) id flags body by (cases f) (auto simp: decode_frame_def documented_def mask_tests Let_def split: if_splits)
qed

definition sample_masks :: stm32 where
  "sample_masks = \<lparr>MCR_INRQ = 1, BTR_LBKM = 0x40000000, BTR_SILM = 0x80000000, IER_FMPIE0 = 2, IER_TMEIE = 1,
     IER_ERRIE = 0x8000, IER_BOFIE = 0x400,
     FMR_FINIT = 1, ESR_BOFF = 4, ESR_LEC = 0x70, ESR_REC = 0xFF000000, ESR_REC_Pos = 24,
     ESR_TEC = 0xFF0000, ESR_TEC_Pos = 16, RI0R_IDE = 4, RI0R_RTR = 2, RDT0R_DLC = 15,
     TI0R_IDE = 4, TI0R_RTR = 2, TI0R_TXRQ = 1,
     APB1ENR_CAN1EN = 0x2000000, RX0_IRQn = 20, TX_IRQn = 19, SCE_IRQn = 22\<rparr>"

definition sample_frame :: can_frame where
  "sample_frame = \<lparr>frame_id = 0x123, frame_extended = False, frame_rtr = False, frame_dlc = 2,
     frame_data = [1, 2, 0, 0, 0, 0, 0, 0]\<rparr>"

lemma sample_frame_ok: "documented sample_masks" "can_frame_ok sample_frame"
  by (simp_all add: documented_def sample_masks_def can_frame_ok_def sample_frame_def CAN_MAX_DLC_def)

theorem can_mailbox_roundtrip_witness:
  "documented sample_masks \<and> can_frame_ok sample_frame
   \<and> decode_frame sample_masks (encode_frame sample_masks sample_frame) = sample_frame"
  using can_mailbox_roundtrip [OF sample_frame_ok] sample_frame_ok by blast

subsection \<open>The transmit interrupt\<close>

lemma tx_take_effect:
  fixes s :: "'a can_scheme"
  assumes "tx_ok s" and "tx_frames s = f # fs"
  obtains u where "tx_take s = (Some f, u)" "tx_ok u" "tx_frames u = fs" "tx_head s \<noteq> tx_tail s"
    "sent_boxes u = sent_boxes s" "tme0 u = tme0 s" "tsr_reads u = tsr_reads s"
proof -
  obtain r u where u: "tx_take s = (r, u)" by fastforce
  from can_tx.take_law [OF assms(1) u] assms(2) have "r = Some f" "tx_ok u" "tx_frames u = fs" by auto
  then show thesis using that u by (auto simp: tx_take_def split: if_splits)
qed

text \<open>The frames waiting go out oldest first, one for each answer "mailbox empty", until the ring
  is empty or the mailbox is not.  Turns of the loop beyond the number of frames change nothing,
  so that stopping after \<open>CAN_TX_BUFFER_SIZE\<close> of them is no restriction.\<close>

lemma tx_loop_in_order:
  fixes s :: "'a can_scheme"
  assumes "tx_ok s" and "length (tx_frames s) \<le> n"
  shows "\<exists>k \<le> length (tx_frames s). tx_ok (tx_loop h n s) \<and> tx_frames (tx_loop h n s) = drop k (tx_frames s)
    \<and> sent_boxes (tx_loop h n s) = sent_boxes s @ map (encode_frame h) (take k (tx_frames s))
    \<and> (\<forall>i < k. tme0 s (tsr_reads s + i))
    \<and> (k < length (tx_frames s) \<longrightarrow> \<not> tme0 s (tsr_reads s + k))"
  using assms
proof (induction n arbitrary: s)
  case 0
  then show ?case by simp
next
  case (Suc n)
  let ?t = "s\<lparr>tsr_reads := Suc (tsr_reads s)\<rparr>"
  show ?case
  proof (cases "tx_frames s")
    case Nil
    then have "tx_head s = tx_tail s"
      using ring_empty Suc.prems(1) by (auto simp: tx_ok_def tx_frames_def)
    then show ?thesis using Nil Suc.prems(1) by simp
  next
    case (Cons f fs)
    have t: "tx_ok ?t" "tx_frames ?t = f # fs" using Suc.prems(1) Cons by (simp_all add: tx_ok_def tx_frames_def)
    obtain u where u: "tx_take ?t = (Some f, u)" "tx_ok u" "tx_frames u = fs" "tx_head s \<noteq> tx_tail s"
        "sent_boxes u = sent_boxes s" "tme0 u = tme0 s" "tsr_reads u = Suc (tsr_reads s)"
      using tx_take_effect [OF t] by auto
    let ?v = "u\<lparr>sent_boxes := sent_boxes u @ [encode_frame h f]\<rparr>"
    have v: "tx_ok ?v" "tx_frames ?v = fs" using u by (simp_all add: tx_ok_def tx_frames_def)
    show ?thesis
    proof (cases "tme0 s (tsr_reads s)")
      case True
      then have step: "tx_loop h (Suc n) s = tx_loop h n ?v" using u by (simp add: read_tme0_def)
      from Suc.IH [OF v(1)] obtain k where "k \<le> length fs" "tx_ok (tx_loop h n ?v)"
          "tx_frames (tx_loop h n ?v) = drop k fs"
          "sent_boxes (tx_loop h n ?v) = sent_boxes s @ encode_frame h f # map (encode_frame h) (take k fs)"
          "\<forall>i < k. tme0 s (Suc (tsr_reads s) + i)" "k < length fs \<longrightarrow> \<not> tme0 s (Suc (tsr_reads s) + k)"
        using Suc.prems(2) Cons u v by auto
      then show ?thesis
        unfolding step Cons using True by (intro exI [of _ "Suc k"]) (auto simp: less_Suc_eq_0_disj)
    next
      case False
      then show ?thesis using u t Cons by (intro exI [of _ 0]) (simp add: read_tme0_def)
    qed
  qed
qed

theorem can_transmit_in_order:
  fixes s :: "'a can_scheme" and h :: stm32
  assumes "tx_ok s"
  defines "t \<equiv> can_process_tx_interrupt h s"
  shows "\<exists>k \<le> length (tx_frames s). tx_ok t \<and> tx_frames t = drop k (tx_frames s)
    \<and> sent_boxes t = sent_boxes s @ map (encode_frame h) (take k (tx_frames s))
    \<and> (\<forall>i < k. tme0 s (tsr_reads s + i))
    \<and> (k < length (tx_frames s) \<longrightarrow> \<not> tme0 s (tsr_reads s + k))"
proof -
  have "length (tx_frames s) \<le> CAN_TX_BUFFER_SIZE"
    using ring_count_less [of CAN_TX_BUFFER_SIZE] by (simp add: tx_frames_def CAN_TX_BUFFER_SIZE_def less_imp_le)
  from tx_loop_in_order [OF assms(1) this] show ?thesis by (simp add: t_def can_process_tx_interrupt_def)
qed

subsection \<open>The receive interrupt\<close>

lemma rx_mailbox_effect:
  fixes s :: "'a can_scheme" and call :: "u32 \<Rightarrow> can_frame \<Rightarrow> 'a can_scheme \<Rightarrow> 'a can_scheme"
    and h :: stm32 and m :: can_mailbox
  assumes ok: "rx_ok s" "rx_callback s = 0"
  defines "t \<equiv> rx_mailbox h call m s" and "f \<equiv> decode_frame h m"
  shows "rx_ok t \<and> rx_callback t = 0 \<and> fifo0 t = tl (fifo0 s) \<and> filters t = filters s \<and> filter_used t = filter_used s
    \<and> rx_frames t = rx_frames s @ (if frame_accepted f s \<and> length (rx_frames s) < 63 then [f] else [])"
proof -
  let ?s = "s\<lparr>fifo0 := tl (fifo0 s)\<rparr>"
  have s: "rx_ok ?s" "rx_frames ?s = rx_frames s" "frame_accepted f ?s = frame_accepted f s"
    using ok(1) by (simp_all add: rx_ok_def rx_frames_def frame_accepted_def)
  obtain b u where u: "rx_store f ?s = (b, u)" by fastforce
  have law: "rx_ok u" "b = (length (rx_frames s) < 63)" "rx_frames u = rx_frames s @ (if b then [f] else [])"
    using can_rx.put_law [OF s(1) _ u] s(2) by (auto simp: CAN_RX_BUFFER_SIZE_def)
  have frame: "rx_callback u = rx_callback s" "fifo0 u = tl (fifo0 s)" "filters u = filters s"
      "filter_used u = filter_used s"
    using u by (auto simp: rx_store_def Let_def split: if_splits)
  show ?thesis
  proof (cases "frame_accepted f s")
    case True
    then have "t = u" using u s(3) frame(1) ok(2) by (simp add: t_def rx_mailbox_def Let_def flip: f_def)
    then show ?thesis using law frame ok(2) True by simp
  next
    case False
    then have "t = ?s" using s(3) by (simp add: t_def rx_mailbox_def Let_def flip: f_def)
    then show ?thesis using s ok False by simp
  qed
qed

lemma rx_mailboxes_effect:
  fixes s :: "'a can_scheme"
  assumes "rx_ok s" "rx_callback s = 0" "length (rx_frames s) \<le> 63"
  shows "rx_ok (rx_mailboxes h call ms s) \<and> fifo0 (rx_mailboxes h call ms s) = drop (length ms) (fifo0 s)
    \<and> rx_frames (rx_mailboxes h call ms s) = rx_frames s @ take (63 - length (rx_frames s))
        (filter (\<lambda>f. frame_accepted f s) (map (decode_frame h) ms))"
  using assms
proof (induction ms arbitrary: s)
  case (Cons m ms)
  let ?t = "rx_mailbox h call m s" and ?f = "decode_frame h m"
  note e = rx_mailbox_effect [OF Cons.prems(1,2), of h call m]
  have acc: "frame_accepted f ?t = frame_accepted f s" for f using e by (simp add: frame_accepted_def)
  have "length (rx_frames ?t) \<le> 63" using e Cons.prems(3) by auto
  then have IH: "rx_ok (rx_mailboxes h call ms ?t)" "fifo0 (rx_mailboxes h call ms ?t) = drop (length ms) (fifo0 ?t)"
      "rx_frames (rx_mailboxes h call ms ?t) = rx_frames ?t @ take (63 - length (rx_frames ?t))
        (filter (\<lambda>f. frame_accepted f s) (map (decode_frame h) ms))"
    using Cons.IH [of ?t] e acc by auto
  show ?case
  proof (cases "frame_accepted ?f s \<and> length (rx_frames s) < 63")
    case True
    then have "63 - length (rx_frames s) = Suc (63 - length (rx_frames ?t))" using e True by simp linarith
    then show ?thesis using IH e True by (simp add: drop_Suc drop_tl)
  next
    case False
    then have "rx_frames ?t = rx_frames s" using e by auto
    then show ?thesis using IH e False Cons.prems(3) by (auto simp: drop_Suc drop_tl)
  qed
qed simp

text \<open>Frames are received in order.  The receive interrupt empties the controller's FIFO and
  appends to the ring, in arrival order, the frames some filter in use matches, as many as there
  is room for beside the frames waiting (63 in all); \<open>can_receive_frame\<close> then hands out the
  oldest.  With no filter in use every frame is dropped.\<close>

theorem can_receive_in_order:
  fixes s :: "'a can_scheme" and call :: "u32 \<Rightarrow> can_frame \<Rightarrow> 'a can_scheme \<Rightarrow> 'a can_scheme" and h :: stm32
  assumes "rx_ok s" and "rx_callback s = 0"
  defines "t \<equiv> can_process_rx_interrupt h call s"
  shows "rx_ok t \<and> fifo0 t = [] \<and> rx_frames t = rx_frames s @ take (63 - length (rx_frames s))
        (filter (\<lambda>f. frame_accepted f s) (map (decode_frame h) (fifo0 s)))
    \<and> (case rx_frames t of [] \<Rightarrow> fst (can_receive_frame t) = None
        | f # fs \<Rightarrow> fst (can_receive_frame t) = Some f \<and> rx_frames (snd (can_receive_frame t)) = fs)
    \<and> ((\<forall>i < 14. \<not> filter_used s i) \<longrightarrow> rx_frames t = rx_frames s)"
proof -
  have "length (rx_frames s) \<le> 63"
    using ring_count_less [of CAN_RX_BUFFER_SIZE] by (simp add: rx_frames_def CAN_RX_BUFFER_SIZE_def less_Suc_eq_le [symmetric])
  from rx_mailboxes_effect [OF assms(1,2) this, of h call "fifo0 s"]
  have t: "rx_ok t" "fifo0 t = []" "rx_frames t = rx_frames s @ take (63 - length (rx_frames s))
        (filter (\<lambda>f. frame_accepted f s) (map (decode_frame h) (fifo0 s)))"
    by (simp_all add: t_def can_process_rx_interrupt_def)
  have "case rx_frames t of [] \<Rightarrow> fst (can_receive_frame t) = None
        | f # fs \<Rightarrow> fst (can_receive_frame t) = Some f \<and> rx_frames (snd (can_receive_frame t)) = fs"
    using can_rx.take_law [OF t(1) prod.collapse [symmetric]] by (auto split: list.splits)
  moreover have "rx_frames t = rx_frames s" if "\<forall>i < 14. \<not> filter_used s i"
    using that t(3) by (simp add: frame_accepted_def CAN_MAX_FILTERS_def)
  ultimately show ?thesis using t by blast
qed

text \<open>Two frames arrive and the filter passes one of them.\<close>

definition sample_can :: can where
  "sample_can = interrupts.extend \<lparr>mem = (\<lambda>_. 0), klog = [], port_out = [], port_in = (\<lambda>_ _. 0),
       port_reads = (\<lambda>_. 0), interrupt_handlers = []\<rparr>
     (can.fields (\<lambda>_. no_frame) 0 0 (\<lambda>_. no_frame) 0 0 0
        (\<lambda>_. \<lparr>id_mask = 0x7FF, id_filter = 0x123, filter_extended = False\<rparr>) (\<lambda>i. i = 3) CAN_MODE_NORMAL
        0 0 0 0 0 0 0 (\<lambda>_. 0) (\<lambda>_. 0)
        (map (encode_frame sample_masks) [sample_frame\<lparr>frame_id := 0x124\<rparr>, sample_frame]) (\<lambda>_. True) 0 [] (\<lambda>n. n = 0) 0 0 [])"

theorem can_receive_in_order_witness:
  "rx_frames (can_process_rx_interrupt sample_masks (\<lambda>_ _ u. u) sample_can) = [sample_frame]"
proof -
  have f: "rx_head sample_can = 0" "rx_tail sample_can = 0" "rx_callback sample_can = 0"
      "filter_used sample_can = (\<lambda>i. i = 3)"
      "filters sample_can = (\<lambda>_. \<lparr>id_mask = 0x7FF, id_filter = 0x123, filter_extended = False\<rparr>)"
      "fifo0 sample_can = map (encode_frame sample_masks) [sample_frame\<lparr>frame_id := 0x124\<rparr>, sample_frame]"
    by (simp_all add: sample_can_def interrupts.defs can.defs)
  have ok: "rx_ok sample_can" by (simp add: rx_ok_def f CAN_RX_BUFFER_SIZE_def)
  have e: "rx_frames sample_can = []" by (simp add: rx_frames_def f ring_def ring_count_def)
  have d: "decode_frame sample_masks (encode_frame sample_masks sample_frame) = sample_frame"
      "decode_frame sample_masks (encode_frame sample_masks (sample_frame\<lparr>frame_id := 0x124\<rparr>)) = sample_frame\<lparr>frame_id := 0x124\<rparr>"
    by (simp_all add: decode_frame_def encode_frame_def sample_masks_def sample_frame_def Let_def)
  have a: "frame_accepted sample_frame sample_can" "\<not> frame_accepted (sample_frame\<lparr>frame_id := 0x124\<rparr>) sample_can"
    by (simp_all add: frame_accepted_def f CAN_MAX_FILTERS_def can_frame_matches_filter_def sample_frame_def)
  show ?thesis
    using can_receive_in_order [OF ok f(3), of sample_masks "\<lambda>_ _ u. u"] by (simp add: e f(6) d a)
qed

end
