(* ===== verification/Ethernet_Check.thy ===== *)
theory Ethernet_Check
  imports Ethernet
begin

text \<open>
  The frame check sequence against the bitwise CRC-32 it is a table-driven form of.
\<close>

subsection \<open>The reference: CRC-32 bit by bit\<close>

definition crc_bit :: "u32 \<Rightarrow> u32" where
  "crc_bit c = (if bit c 0 then drop_bit 1 c XOR 0xEDB88320 else drop_bit 1 c)"

definition crc32 :: "u8 list \<Rightarrow> u32" where
  "crc32 data = NOT (foldl (\<lambda>c b. (crc_bit ^^ 8) (c XOR ucast b)) 0xFFFFFFFF data)"

lemma crc_bit_xor: "crc_bit (x XOR y) = crc_bit x XOR crc_bit y"
proof -
  have d: "drop_bit 1 (x XOR y) = drop_bit 1 x XOR drop_bit 1 y" by simp
  have "bit (x XOR y) 0 \<longleftrightarrow> bit x 0 \<noteq> bit y 0" by (simp only: bit_xor_iff)
  then show ?thesis unfolding crc_bit_def d by (auto simp: ac_simps)
qed

lemma crc_bits_xor: "(crc_bit ^^ n) (x XOR y) = (crc_bit ^^ n) x XOR (crc_bit ^^ n) y"
  by (induction n) (simp_all add: crc_bit_xor)

lemma crc_bits_high: "(\<And>i. i < n \<Longrightarrow> \<not> bit x i) \<Longrightarrow> (crc_bit ^^ n) x = drop_bit n x"
proof (induction n)
  case (Suc n)
  have "\<not> bit (drop_bit n x) 0" using Suc.prems [of n] by (simp add: bit_simps)
  then show ?case using Suc by (simp add: crc_bit_def drop_bit_drop_bit)
qed simp

lemma crc_low_byte: "(0xFF :: u32) = mask 8"
  by (simp add: mask_eq_exp_minus_1)

text \<open>Eight steps at once: the low byte selects what is added to the rest.\<close>

lemma crc_byte: "(crc_bit ^^ 8) c = drop_bit 8 c XOR (crc_bit ^^ 8) (c AND 0xFF)"
proof -
  have split: "c = (c AND NOT (mask 8)) XOR (c AND mask 8)"
    by (rule bit_word_eqI) (auto simp: bit_simps)
  have "(crc_bit ^^ 8) (c AND NOT (mask 8)) = drop_bit 8 (c AND NOT (mask 8))"
    by (rule crc_bits_high) (auto simp: bit_simps)
  moreover have "drop_bit 8 (c AND NOT (mask 8)) = drop_bit 8 c"
    by (rule bit_word_eqI) (auto simp: bit_simps dest: bit_imp_le_length)
  ultimately show ?thesis
    using crc_bits_xor [of 8 "c AND NOT (mask 8)" "c AND mask 8"] split unfolding crc_low_byte by metis
qed

lemma table_right: "i < 16 \<Longrightarrow> crc32_table i = (crc_bit ^^ 8) (of_nat i)"
proof -
  have "\<forall>i \<in> set [0..<16]. crc32_table i = (crc_bit ^^ 8) (of_nat i)" by code_simp
  then show "i < 16 \<Longrightarrow> crc32_table i = (crc_bit ^^ 8) (of_nat i)" by simp
qed

lemma crc_step_right:
  assumes "crc_index c b < 16"
  shows "crc_step c b = (crc_bit ^^ 8) (c XOR ucast b)"
proof -
  have i: "(c XOR ucast b) AND 0xFF = crc_index c b"
    unfolding crc_index_def crc_low_byte by (rule bit_word_eqI) (auto simp: bit_simps dest: bit_imp_le_length)
  have "drop_bit 8 (c XOR ucast b) = drop_bit 8 c"
    by (rule bit_word_eqI) (auto simp: bit_simps dest: bit_imp_le_length)
  moreover have "crc32_table (unat (crc_index c b)) = (crc_bit ^^ 8) (crc_index c b)"
    using assms table_right [of "unat (crc_index c b)"] by (simp add: word_less_nat_alt)
  ultimately show ?thesis by (simp add: crc_step_def crc_byte [of "c XOR ucast b"] i)
qed

lemma crc_step_missing: "16 \<le> crc_index c b \<Longrightarrow> crc_step c b = drop_bit 8 c"
  by (simp add: crc_step_def crc32_table_def crc32_initialiser_def word_le_nat_alt)

text \<open>The table entries a message uses.\<close>

fun lookups :: "u32 \<Rightarrow> u8 list \<Rightarrow> u32 list" where
  "lookups c [] = []"
| "lookups c (b # data) = crc_index c b # lookups (crc_step c b) data"

lemma crc_fold_right:
  "\<forall>i \<in> set (lookups c data). i < 16 \<Longrightarrow>
   foldl crc_step c data = foldl (\<lambda>c b. (crc_bit ^^ 8) (c XOR ucast b)) c data"
  by (induction data arbitrary: c) (simp_all add: crc_step_right)

text \<open>Small bytes against a register whose low bytes are all ones.\<close>

lemma crc_index_ones:
  assumes "c AND 0xFF = 0xFF" and "b < 0xF0"
  shows "16 \<le> crc_index c b"
proof -
  have "crc_index c b = ucast (NOT b)"
    unfolding crc_index_def assms(1) unfolding crc_low_byte
    by (rule bit_word_eqI) (auto simp: bit_simps dest: bit_imp_le_length)
  moreover have "NOT b = 0xFF - b" by (simp add: not_eq_complement)
  moreover have "unat (0xFF - b) = unat (0xFF :: u8) - unat b"
    using unsigned_less [of b, where 'a = nat] by (intro unat_sub) (simp add: word_le_nat_alt)
  ultimately show ?thesis using assms(2) by (simp add: word_le_nat_alt word_less_nat_alt unsigned_ucast_eq take_bit_nat_eq_self)
qed

lemma crc_four_small:
  assumes "length a = 4" and "\<forall>b \<in> set a. b < 0xF0"
  shows "foldl crc_step 0xFFFFFFFF a = 0"
proof -
  obtain p q r t where a: "a = [p, q, r, t]" using assms(1) by (auto simp: length_Suc_conv eval_nat_numeral)
  have "crc_step 0xFFFFFFFF p = 0x00FFFFFF" "crc_step 0x00FFFFFF q = 0x0000FFFF"
      "crc_step 0x0000FFFF r = 0x000000FF" "crc_step 0x000000FF t = 0"
    using assms(2) by (simp_all add: a crc_step_missing crc_index_ones)
  then show ?thesis by (simp add: a)
qed

text \<open>C27: the frame check sequence is CRC-32 only as far as the table goes.  On a message that
  uses only the sixteen entries written out, \<open>eth_calculate_crc32\<close> is the bitwise CRC-32;
  but the other 240 entries are zero, and when the first four bytes are below \<open>0xF0\<close>
  they do not enter the result at all: any other four such bytes give the same sequence.\<close>

theorem eth_crc32_truncated:
  "((\<forall>i \<in> set (lookups 0xFFFFFFFF data). i < 16) \<longrightarrow> eth_calculate_crc32 data = crc32 data)
   \<and> (length a = 4 \<and> length b = 4 \<and> (\<forall>x \<in> set a \<union> set b. x < 0xF0) \<longrightarrow>
        eth_calculate_crc32 (a @ data) = eth_calculate_crc32 (b @ data))"
  by (simp add: eth_calculate_crc32_def crc32_def crc_fold_right crc_four_small)

theorem eth_crc32_truncated_witness:
  "eth_calculate_crc32 [0xFF, 0xF8] = crc32 [0xFF, 0xF8]
   \<and> eth_calculate_crc32 [1, 2, 3, 4, 5] = eth_calculate_crc32 [0, 0, 0, 0, 5]
   \<and> crc32 [0] = 0xD202EF8D"
proof (intro conjI)
  have "\<forall>i \<in> set (lookups 0xFFFFFFFF [0xFF, 0xF8]). i < 16" by code_simp
  then show "eth_calculate_crc32 [0xFF, 0xF8] = crc32 [0xFF, 0xF8]"
    using eth_crc32_truncated [of "[0xFF, 0xF8]"] by blast
  show "eth_calculate_crc32 [1, 2, 3, 4, 5] = eth_calculate_crc32 [0, 0, 0, 0, 5]"
    using eth_crc32_truncated [of "[5]" "[1, 2, 3, 4]" "[0, 0, 0, 0]"] by simp
  show "crc32 [0] = 0xD202EF8D" by code_simp
qed

end
