(* ===== verification/Mac_Text.thy ===== *)
theory Mac_Text
  imports Ethernet_Check
begin

text \<open>Hardware addresses as text: what \<open>eth_format_mac\<close> prints, \<open>eth_parse_mac\<close> reads.\<close>

lemma hex_digit_facts:
  "i < 16 \<Longrightarrow> hex_value (hex_char_lower i) = Some i \<and> \<not> is_space (hex_char_lower i)
     \<and> hex_char_lower i \<notin> {CHR ''-'', CHR ''+'', CHR ''x'', CHR ''X''}"
proof -
  have "\<forall>i \<in> set [0..<16]. hex_value (hex_char_lower i) = Some i \<and> \<not> is_space (hex_char_lower i)
     \<and> hex_char_lower i \<notin> set [CHR ''-'', CHR ''+'', CHR ''x'', CHR ''X'']" by code_simp
  then show "i < 16 \<Longrightarrow> hex_value (hex_char_lower i) = Some i \<and> \<not> is_space (hex_char_lower i)
     \<and> hex_char_lower i \<notin> {CHR ''-'', CHR ''+'', CHR ''x'', CHR ''X''}" by simp
qed

lemma scan_hex_byte:
  assumes "rest = [] \<or> hex_value (hd rest) = None"
  shows "scan_hex (hex_byte b @ rest) = Scanned (ucast b) rest"
proof -
  define i j where ij: "i = unat b div 16" "j = unat b mod 16"
  have "i < 16" "j < 16" using unsigned_less [of b, where 'a = nat] by (simp_all add: ij less_mult_imp_div_less)
  note d = hex_digit_facts [OF \<open>i < 16\<close>] hex_digit_facts [OF \<open>j < 16\<close>]
  have digits: "takeWhile (\<lambda>c. hex_value c \<noteq> None) (hex_byte b @ rest) = hex_byte b"
      "dropWhile (\<lambda>c. hex_value c \<noteq> None) (hex_byte b @ rest) = rest"
    using d assms by (cases rest; simp add: hex_byte_def flip: ij)+
  have "foldl (\<lambda>n c. 16 * n + the (hex_value c)) 0 (hex_byte b) = unat b"
    using d by (simp add: hex_byte_def flip: ij) (simp add: ij)
  moreover have nonempty: "hex_byte b \<noteq> []" by (simp add: hex_byte_def)
  moreover have "unat b < 2 ^ 32" using unsigned_less [of b, where 'a = nat] by simp
  ultimately have "scan_digits False (hex_byte b @ rest) = Scanned (ucast b) rest"
    unfolding scan_digits_def digits Let_def using nonempty by simp
  moreover have "scan_hex (hex_byte b @ rest) = scan_digits False (hex_byte b @ rest)"
    using d by (auto simp: scan_hex_def scan_unsigned_def hex_byte_def simp flip: ij)
  ultimately show ?thesis by simp
qed

lemma hex_value_colon: "hex_value CHR '':'' = None"
  by (simp add: hex_value_def)

lemma store_values_bytes:
  assumes "i + length bs = length mac"
  shows "store_values (map ucast bs) i mac = (True, take i mac @ bs)"
  using assms
proof (induction bs arbitrary: i mac)
  case (Cons b bs)
  have b: "sint (ucast b :: u32) = int (unat b)"
  proof -
    have u: "0 \<le> uint b" "uint b < 256"
      using unsigned_less [of b, where 'a = int] by simp_all
    have "- (2 ^ 31) \<le> uint b" by (rule order.trans [OF _ u(1)]) simp
    moreover have "uint b < 2 ^ 31" using u(2) by simp
    ultimately have "signed_take_bit 31 (uint b) = uint b" by (rule signed_take_bit_int_eq_self)
    then show ?thesis using u by (simp add: sint_uint unsigned_ucast_eq take_bit_int_eq_self)
  qed
  have "\<not> sint (ucast b :: u32) < 0" "\<not> 255 < sint (ucast b :: u32)"
    unfolding b using unsigned_less [of b, where 'a = int] by simp_all
  moreover have "ucast (ucast b :: u32) = b" by (rule bit_word_eqI) (simp add: bit_simps)
  moreover have "take (Suc i) (mac[i := b]) = take i mac @ [b]"
    using Cons.prems by (simp add: take_Suc_conv_app_nth)
  ultimately show ?case using Cons.IH [of "Suc i" "mac[i := b]"] Cons.prems by simp
qed simp

text \<open>C40: addresses survive printing and parsing.  For any six bytes the text has 17
  characters, as the 18 byte buffer allows, and parsing it stores the six bytes again whatever
  was in the target; it reports success exactly when the address is valid, neither zero nor
  broadcast nor multicast.\<close>

theorem eth_mac_text_roundtrip:
  assumes "length mac = 6" and "length old = 6"
  shows "length (eth_format_mac mac) = 17
    \<and> eth_parse_mac (eth_format_mac mac) old = Some (eth_is_valid_mac (Some mac), mac)
    \<and> (eth_is_valid_mac (Some mac) \<longleftrightarrow> (\<exists>b \<in> set mac. b \<noteq> 0) \<and> (\<exists>b \<in> set mac. b \<noteq> 0xFF) \<and> \<not> bit (hd mac) 0)"
proof -
  obtain a b c d e f where mac: "mac = [a, b, c, d, e, f]"
    using assms(1) by (auto simp: length_Suc_conv eval_nat_numeral)
  have "scan_fields 6 (eth_format_mac mac) = Some (map ucast mac)"
    using scan_hex_byte [of "[]" f]
    by (simp add: eth_format_mac_def mac scan_hex_byte hex_value_colon eval_nat_numeral)
  moreover have "store_values (map ucast mac) 0 old = (True, mac)"
    using store_values_bytes [of 0 mac old] assms by simp
  moreover have "length (eth_format_mac mac) = 17" by (simp add: eth_format_mac_def hex_byte_def)
  moreover have "eth_is_valid_mac (Some mac)
      \<longleftrightarrow> (\<exists>b \<in> set mac. b \<noteq> 0) \<and> (\<exists>b \<in> set mac. b \<noteq> 0xFF) \<and> \<not> bit (hd mac) 0"
    by (simp add: eth_is_valid_mac_def mac ETH_ADDR_LEN_def eval_nat_numeral and_one_eq even_iff_mod_2_eq_zero bit_0 disj_ac)
  ultimately show ?thesis using assms(1) by (simp add: eth_parse_mac_def)
qed

theorem eth_mac_text_roundtrip_witness:
  "eth_parse_mac (eth_format_mac [0x52, 0x54, 0, 0x12, 0x34, 0x56]) (replicate 6 0)
     = Some (True, [0x52, 0x54, 0, 0x12, 0x34, 0x56])"
  using eth_mac_text_roundtrip [of "[0x52, 0x54, 0, 0x12, 0x34, 0x56]" "replicate 6 0"]
  by (simp add: bit_0)

end
