(* ===== verification/Packet_Free.thy ===== *)
theory Packet_Free
  imports Ethernet
begin

text \<open>
  The life of a packet: \<open>net_free_packet\<close> gives back the two pages \<open>net_alloc_packet\<close>
  took, and so a frame that is sent leaves no memory behind.
\<close>

lemma pmm_free_blocks_1: "pmm_free_blocks p 1 s = pmm_free_block p s"
  for s :: "'a pmm_scheme"
proof -
  have "for_lt 0 1 g f s = (if g 0 s then f 0 s else s)"
    for g :: "u32 \<Rightarrow> 'a pmm_scheme \<Rightarrow> bool" and f
    by (cases "g 0 s") (simp_all add: for_lt_step [of 0 1 g s f] for_lt.simps)
  then show ?thesis by (simp add: pmm_free_blocks_def pmm_free_block_def Let_def not_le [symmetric])
qed

text \<open>The two pages of a packet.\<close>

definition packet_pages :: "u32 \<Rightarrow> 'a net_scheme \<Rightarrow> u32 set" where
  "packet_pages p s = {p, data_ptr (packet_at s p)}"

lemma net_alloc_packet_pages:
  assumes inv: "pmm_inv s" and sz: "0 < sz" "sz \<le> NET_MAX_PACKET_SIZE"
    and alloc: "net_alloc_packet sz s = (p, t)"
  shows "p \<noteq> 0 \<Longrightarrow> owned_pages t = owned_pages s \<union> packet_pages p t \<and> packet_pages p t \<inter> owned_pages s = {}
      \<and> data_ptr (packet_at t p) \<notin> {0, p}"
    and "p = 0 \<Longrightarrow> pmm_inv t \<and> owned_pages t = owned_pages s"
proof -
  obtain q s1 where q: "pmm_alloc_block s = (q, s1)" by fastforce
  note inv1 = pmm.alloc_inv [OF inv q]
  obtain r s2 where r: "pmm_alloc_block s1 = (r, s2)" by fastforce
  then have r': "pmm_alloc_blocks ((sz + 4096 - 1) div 4096) s1 = (r, s2)"
    using pmm_alloc_blocks_1 [OF inv1] one_block [OF sz] by simp
  note inv2 = pmm.alloc_inv [OF inv1 r]
  have result: "(p, t) = (if q = 0 then (0, s1) else
      let s3 = set_packet q (\<lambda>p. p\<lparr>data_ptr := r, pkt_data := (\<lambda>i. get_byte (r + of_nat i) s2)\<rparr>) s2
      in if r = 0 then (0, pmm_free_block q s3)
         else (q, set_packet q (\<lambda>p. p\<lparr>pkt_length := sz, protocol := NET_PROTO_NONE, priority := 0,
                  private_data := 0\<rparr>) s3))"
    using alloc sz(2) unfolding net_alloc_packet_def q prod.case r' by (simp add: not_less [symmetric])
  show "owned_pages t = owned_pages s \<union> packet_pages p t \<and> packet_pages p t \<inter> owned_pages s = {}
      \<and> data_ptr (packet_at t p) \<notin> {0, p}" if "p \<noteq> 0"
  proof -
    have z: "q \<noteq> 0" "r \<noteq> 0" "p = q" using result that by (auto simp: Let_def split: if_splits)
    then show ?thesis
      using result pmm.alloc_page [OF inv q z(1)] pmm.alloc_page [OF inv1 r z(2)]
      by (auto simp: packet_pages_def Let_def)
  qed
  show "pmm_inv t \<and> owned_pages t = owned_pages s" if "p = 0"
  proof (cases "q = 0")
    case True
    then show ?thesis using result pmm.alloc_null [OF inv] q inv by auto
  next
    case False
    then have z: "r = 0" using result that by (auto simp: Let_def split: if_splits)
    then have "s2 = s1" using pmm.alloc_null [OF inv1] r by blast
    then show ?thesis
      using result False z inv1 pmm.alloc_page [OF inv q False]
        pmm.free_owned [of "set_packet q f s1" q for f] pmm.free_inv [of "set_packet q f s1" q for f]
      by (simp add: Let_def)
  qed
qed

lemma net_free_packet_pages:
  assumes inv: "pmm_inv s" and p: "packet_pages p s \<subseteq> owned_pages s" "data_ptr (packet_at s p) \<notin> {0, p}"
    and len: "0 < pkt_length (packet_at s p)" "pkt_length (packet_at s p) \<le> NET_MAX_PACKET_SIZE"
  shows "pmm_inv (net_free_packet p s) \<and> owned_pages (net_free_packet p s) = owned_pages s - packet_pages p s"
proof -
  let ?r = "data_ptr (packet_at s p)"
  have own: "p \<in> owned_pages s" "?r \<in> owned_pages s" using p(1) by (simp_all add: packet_pages_def)
  then have "net_free_packet p s = fold pmm_free_block [?r, p] s"
    using pmm.owned_page [OF inv own(1)] p(2) one_block [OF len]
    by (simp add: net_free_packet_def Let_def pmm_free_blocks_1)
  moreover have "owned_pages s - {?r, p} = owned_pages s - packet_pages p s"
    by (auto simp: packet_pages_def)
  ultimately show ?thesis using pmm.free_list [OF inv, of "[?r, p]"] own p(2) by simp
qed

subsection \<open>Sending a frame\<close>

text \<open>What is expected of a driver's send operation: it may read the packet and program its
  device, but the packet stays the caller's.\<close>

definition borrows :: "'a net_scheme callees \<Rightarrow> bool" where
  "borrows d \<longleftrightarrow> (\<forall>f iface p s ok t. pmm_inv s \<and> call_send d f iface p s = (ok, t) \<longrightarrow>
     pmm_inv t \<and> owned_pages t = owned_pages s \<and> data_ptr (packet_at t p) = data_ptr (packet_at s p)
     \<and> pkt_length (packet_at t p) = pkt_length (packet_at s p))"

lemma borrowsD:
  assumes "borrows d" "pmm_inv s" "call_send d f iface p s = (ok, t)"
  shows "pmm_inv t \<and> owned_pages t = owned_pages s \<and> data_ptr (packet_at t p) = data_ptr (packet_at s p)
     \<and> pkt_length (packet_at t p) = pkt_length (packet_at s p)"
  using assms unfolding borrows_def by blast

lemma set_iface_pages [simp]:
  "pmm_inv (set_iface i f s) = pmm_inv s" "owned_pages (set_iface i f s) = owned_pages s"
  "packet_at (set_iface i f s) = packet_at s"
  by (simp_all add: set_iface_def pmm_inv_def pmm_geom_def owned_pages_def used_set_def
      pmm_test_block_def bm_addr_def rd32_def)

lemma net_send_packet_result:
  assumes "net_send_packet d iface p s = (ok, t)"
  shows "t = s \<or> t = snd (call_send d (send_fn (iface_at s iface)) iface p
        (set_iface iface (upd_stats (\<lambda>st. st\<lparr>tx_packets := tx_packets st + 1,
           tx_bytes := tx_bytes st + ucast (pkt_length (packet_at s p))\<rparr>)) s))
     \<or> (\<exists>f. t = set_iface iface f (snd (call_send d (send_fn (iface_at s iface)) iface p
        (set_iface iface (upd_stats (\<lambda>st. st\<lparr>tx_packets := tx_packets st + 1,
           tx_bytes := tx_bytes st + ucast (pkt_length (packet_at s p))\<rparr>)) s))))"
proof -
  have "send_fn (iface_at (set_iface iface (upd_stats f) s) iface) = send_fn (iface_at s iface)" for f
    by (simp add: set_iface_def upd_stats_def)
  then show ?thesis
    using assms by (auto simp: net_send_packet_def Let_def split: prod.splits if_splits)
qed

lemma send_packet_borrows:
  assumes "borrows d" "pmm_inv s" "net_send_packet d iface p s = (ok, t)"
  shows "pmm_inv t \<and> owned_pages t = owned_pages s \<and> data_ptr (packet_at t p) = data_ptr (packet_at s p)
     \<and> pkt_length (packet_at t p) = pkt_length (packet_at s p)"
proof -
  let ?s = "set_iface iface (upd_stats (\<lambda>st. st\<lparr>tx_packets := tx_packets st + 1,
                   tx_bytes := tx_bytes st + ucast (pkt_length (packet_at s p))\<rparr>)) s"
  obtain b u where u: "call_send d (send_fn (iface_at s iface)) iface p ?s = (b, u)" by fastforce
  have *: "pmm_inv u \<and> owned_pages u = owned_pages s \<and> data_ptr (packet_at u p) = data_ptr (packet_at s p)
     \<and> pkt_length (packet_at u p) = pkt_length (packet_at s p)"
    using borrowsD [OF assms(1) _ u] assms(2) by simp
  have "t = s \<or> t = u \<or> (\<exists>f. t = set_iface iface f u)"
    using net_send_packet_result [OF assms(3)] unfolding u snd_conv .
  then show ?thesis
  proof (elim disjE exE)
    show ?thesis if "t = s" using assms(2) that by simp
    show ?thesis if "t = u" unfolding that by (rule *)
    show ?thesis if "t = set_iface iface f u" for f unfolding that set_iface_pages by (rule *)
  qed
qed

text \<open>C28: a frame leaves no memory behind.  Whatever the driver answers, and on every early
  return, \<open>eth_send_frame\<close> ends with exactly the pages in use it started with; a frame of a
  size outside 64 to 1518 is refused with nothing changed; and when two blocks are free, a
  frame of a right size reaches the driver as a packet with exactly its bytes, and the result is
  the driver's.\<close>

theorem eth_send_frame_returns_memory:
  assumes "pmm_inv s" and "borrows d" and "eth_send_frame d iface (Some frame) len s = (ok, t)"
  shows "pmm_inv t \<and> owned_pages t = owned_pages s
    \<and> (len < 64 \<or> 1518 < len \<longrightarrow> \<not> ok \<and> t = s)
    \<and> (64 \<le> len \<and> len \<le> 1518 \<and> iface \<noteq> 0 \<and> send_fn (iface_at s iface) \<noteq> 0 \<and> 2 \<le> free_count s \<longrightarrow>
        (\<exists>p u. get_at 0 (unat len) (pkt_data (packet_at u p)) = get_at 0 (unat len) frame
          \<and> pkt_length (packet_at u p) = len \<and> ok = fst (call_send d (send_fn (iface_at s iface)) iface p u)))"
proof (cases "iface = 0 \<or> len < 64 \<or> 1518 < len")
  case True
  then have "\<not> ok" "t = s"
    using assms(3) by (auto simp: eth_send_frame_def ETH_MIN_FRAME_SIZE_def ETH_MAX_FRAME_SIZE_def ETH_MAX_DATA_SIZE_def)
  then show ?thesis using assms(1) True by (auto simp: not_less)
next
  case False
  then have sz: "0 < len" "len \<le> NET_MAX_PACKET_SIZE"
    by (auto simp: NET_MAX_PACKET_SIZE_def not_less) (use word_gt_0 in fastforce)
  obtain p s1 where p: "net_alloc_packet len s = (p, s1)" by fastforce
  note pages = net_alloc_packet_pages [OF assms(1) sz p] and cases = net_alloc_packet_cases [OF assms(1) sz p]
  let ?s2 = "set_packet p (\<lambda>q. q\<lparr>pkt_data := put_at 0 (get_at 0 (unat len) frame) (pkt_data q), pkt_length := len\<rparr>) s1"
  obtain b s3 where s3: "net_send_packet d iface p ?s2 = (b, s3)" by fastforce
  have result: "(ok, t) = (if p = 0 then (False, s1) else (b, net_free_packet p s3))"
    using assms(3) False s3 p
    by (auto simp: eth_send_frame_def ETH_MIN_FRAME_SIZE_def ETH_MAX_FRAME_SIZE_def ETH_MAX_DATA_SIZE_def Let_def)
  show ?thesis
  proof (cases "p = 0")
    case True
    then show ?thesis using result pages(2) cases(3) False by auto
  next
    case nz: False
    have "pmm_inv s1" using cases(2) [OF nz] by (simp add: fresh_packet_def)
    then have "pmm_inv s3 \<and> owned_pages s3 = owned_pages s1 \<and> data_ptr (packet_at s3 p) = data_ptr (packet_at s1 p)
        \<and> pkt_length (packet_at s3 p) = len"
      using send_packet_borrows [OF assms(2) _ s3] by simp
    then have "pmm_inv t \<and> owned_pages t = owned_pages s"
      using net_free_packet_pages [of s3 p] pages(1) [OF nz] sz result nz by (auto simp: packet_pages_def)
    moreover have "\<exists>u. get_at 0 (unat len) (pkt_data (packet_at u p)) = get_at 0 (unat len) frame
          \<and> pkt_length (packet_at u p) = len \<and> ok = fst (call_send d (send_fn (iface_at s iface)) iface p u)"
      if "send_fn (iface_at s iface) \<noteq> 0"
      using that s3 nz result cases(1) False
      by (intro exI [of _ "set_iface iface (upd_stats (\<lambda>st. st\<lparr>tx_packets := tx_packets st + 1,
            tx_bytes := tx_bytes st + ucast len\<rparr>)) ?s2"])
        (auto simp: net_send_packet_def Let_def set_iface_def upd_stats_def split: prod.splits if_splits)
    ultimately show ?thesis using False by blast
  qed
qed

theorem eth_send_frame_returns_memory_witness:
  "\<exists>t. eth_send_frame sample_callees 0x100 (Some (\<lambda>_. 7)) 64 sample_net = (True, t)
     \<and> owned_pages t = owned_pages sample_net"
proof -
  obtain ok t where r: "eth_send_frame sample_callees 0x100 (Some (\<lambda>_. 7)) 64 sample_net = (ok, t)" by fastforce
  have b: "borrows (sample_callees :: net callees)" by (simp add: borrows_def sample_callees_def)
  have i: "pmm_inv sample_net" by (simp add: sample_net_def sample_state_inv)
  have "2 \<le> free_count sample_net" by (simp add: sample_net_def sample_state_def free_count_def)
  moreover have "send_fn (iface_at sample_net 0x100) \<noteq> 0" by (simp add: sample_iface_def)
  ultimately show ?thesis
    using eth_send_frame_returns_memory [OF i b r] r by (auto simp: sample_callees_def)
qed

end
