(* ===== verification/E1000.thy ===== *)
theory E1000
  imports Packet_Free
begin

text \<open>
  The Intel gigabit driver, drivers/e1000.c.  Device structures are kept by address like the
  other structures of the network; the contents of the two descriptor rings, memory the device
  shares with the driver, are fields of the structure.  A register read is an arbitrary answer
  of the device: the \<open>n\<close>-th read at address \<open>a\<close> gives \<open>reg_in s a n\<close>; writes are logged.
  The loops that wait for the device may not end and give \<open>None\<close> then.  What the device does to
  memory while the driver waits for a descriptor is the parameter \<open>hw\<close>.
\<close>

subsection \<open>Constants (e1000.h)\<close>

definition E1000_NUM_RX_DESC :: u32 where "E1000_NUM_RX_DESC = 32"
definition E1000_NUM_TX_DESC :: u32 where "E1000_NUM_TX_DESC = 32"
definition E1000_RX_BUFFER_SIZE :: u32 where "E1000_RX_BUFFER_SIZE = 2048"
definition E1000_TX_BUFFER_SIZE :: u32 where "E1000_TX_BUFFER_SIZE = 2048"
definition E1000_CTRL :: u32 where "E1000_CTRL = 0x0000"
definition E1000_STATUS :: u32 where "E1000_STATUS = 0x0008"
definition E1000_EERD :: u32 where "E1000_EERD = 0x0014"
definition E1000_ICR :: u32 where "E1000_ICR = 0x00C0"
definition E1000_IMS :: u32 where "E1000_IMS = 0x00D0"
definition E1000_IMC :: u32 where "E1000_IMC = 0x00D8"
definition E1000_RCTL :: u32 where "E1000_RCTL = 0x0100"
definition E1000_TCTL :: u32 where "E1000_TCTL = 0x0400"
definition E1000_RDBAL :: u32 where "E1000_RDBAL = 0x2800"
definition E1000_RDBAH :: u32 where "E1000_RDBAH = 0x2804"
definition E1000_RDLEN :: u32 where "E1000_RDLEN = 0x2808"
definition E1000_RDH :: u32 where "E1000_RDH = 0x2810"
definition E1000_RDT :: u32 where "E1000_RDT = 0x2818"
definition E1000_TDBAL :: u32 where "E1000_TDBAL = 0x3800"
definition E1000_TDBAH :: u32 where "E1000_TDBAH = 0x3804"
definition E1000_TDLEN :: u32 where "E1000_TDLEN = 0x3808"
definition E1000_TDH :: u32 where "E1000_TDH = 0x3810"
definition E1000_TDT :: u32 where "E1000_TDT = 0x3818"
definition E1000_RAL :: u32 where "E1000_RAL = 0x5400"
definition E1000_RAH :: u32 where "E1000_RAH = 0x5404"
definition E1000_CTRL_ASDE :: u32 where "E1000_CTRL_ASDE = 0x20"
definition E1000_CTRL_SLU :: u32 where "E1000_CTRL_SLU = 0x40"
definition E1000_CTRL_RST :: u32 where "E1000_CTRL_RST = 0x04000000"
definition E1000_STATUS_LU :: u32 where "E1000_STATUS_LU = 2"
definition E1000_RCTL_EN :: u32 where "E1000_RCTL_EN = 2"
definition E1000_RCTL_SBP :: u32 where "E1000_RCTL_SBP = 4"
definition E1000_RCTL_UPE :: u32 where "E1000_RCTL_UPE = 8"
definition E1000_RCTL_MPE :: u32 where "E1000_RCTL_MPE = 0x10"
definition E1000_RCTL_BSIZE :: u32 where "E1000_RCTL_BSIZE = 0x30000"
definition E1000_RCTL_SECRC :: u32 where "E1000_RCTL_SECRC = 0x04000000"
definition E1000_TCTL_EN :: u32 where "E1000_TCTL_EN = 2"
definition E1000_TCTL_PSP :: u32 where "E1000_TCTL_PSP = 8"
definition E1000_ICR_TXQE :: u32 where "E1000_ICR_TXQE = 2"
definition E1000_ICR_LSC :: u32 where "E1000_ICR_LSC = 4"
definition E1000_ICR_RXDMT0 :: u32 where "E1000_ICR_RXDMT0 = 0x10"
definition E1000_ICR_RXO :: u32 where "E1000_ICR_RXO = 0x40"
definition E1000_ICR_RXT0 :: u32 where "E1000_ICR_RXT0 = 0x80"
definition E1000_RXD_STAT_DD :: u8 where "E1000_RXD_STAT_DD = 1"
definition E1000_TXD_CMD_EOP :: u8 where "E1000_TXD_CMD_EOP = 1"
definition E1000_TXD_CMD_IFCS :: u8 where "E1000_TXD_CMD_IFCS = 2"
definition E1000_TXD_CMD_RS :: u8 where "E1000_TXD_CMD_RS = 8"

subsection \<open>State\<close>

record e1000_rx_desc =
  rxd_addr :: u64
  rxd_length :: u16
  rxd_checksum :: u16
  rxd_status :: u8
  rxd_errors :: u8
  rxd_special :: u16

record e1000_tx_desc =
  txd_addr :: u64
  txd_length :: u16
  txd_cso :: u8
  txd_cmd :: u8
  txd_status :: u8
  txd_css :: u8
  txd_special :: u16

record e1000_device =
  mmio_base :: u32
  io_base :: u32
  mac_addr :: "u8 list"
  rx_descs :: u32
  rx_ring :: "nat \<Rightarrow> e1000_rx_desc"
  rx_buffers :: u32
  rx_cur :: u32
  tx_descs :: u32
  tx_ring :: "nat \<Rightarrow> e1000_tx_desc"
  tx_buffers :: u32
  tx_cur :: u32
  dev_rx_bytes :: u32
  dev_tx_bytes :: u32
  dev_rx_packets :: u32
  dev_tx_packets :: u32
  dev_rx_errors :: u32
  dev_tx_errors :: u32

record e1000 = ethernet +
  e1000_at :: "u32 \<Rightarrow> e1000_device"
  reg_in :: "u32 \<Rightarrow> nat \<Rightarrow> u32"
  reg_reads :: "u32 \<Rightarrow> nat"
  reg_out :: "(u32 \<times> u32) list"

definition set_dev :: "u32 \<Rightarrow> (e1000_device \<Rightarrow> e1000_device) \<Rightarrow> 'a e1000_scheme \<Rightarrow> 'a e1000_scheme" where
  "set_dev dev f s = s\<lparr>e1000_at := (e1000_at s)(dev := f (e1000_at s dev))\<rparr>"

definition e1000_write_reg :: "u32 \<Rightarrow> u32 \<Rightarrow> u32 \<Rightarrow> 'a e1000_scheme \<Rightarrow> 'a e1000_scheme" where
  "e1000_write_reg dev reg v s = s\<lparr>reg_out := reg_out s @ [(mmio_base (e1000_at s dev) + reg, v)]\<rparr>"

definition e1000_read_reg :: "u32 \<Rightarrow> u32 \<Rightarrow> 'a e1000_scheme \<Rightarrow> u32 \<times> 'a e1000_scheme" where
  "e1000_read_reg dev reg s =
     (let a = mmio_base (e1000_at s dev) + reg
      in (reg_in s a (reg_reads s a), s\<lparr>reg_reads := (reg_reads s)(a := Suc (reg_reads s a))\<rparr>))"

text \<open>Read a register until its value satisfies a condition.\<close>

partial_function (option) wait_reg ::
  "u32 \<Rightarrow> u32 \<Rightarrow> (u32 \<Rightarrow> bool) \<Rightarrow> 'a e1000_scheme \<Rightarrow> (u32 \<times> 'a e1000_scheme) option"
where
  "wait_reg dev reg ready s =
     (case e1000_read_reg dev reg s of (v, t) \<Rightarrow> if ready v then Some (v, t) else wait_reg dev reg ready t)"

text \<open>\<open>reg = f(reg)\<close>\<close>

definition update_reg :: "u32 \<Rightarrow> u32 \<Rightarrow> (u32 \<Rightarrow> u32) \<Rightarrow> 'a e1000_scheme \<Rightarrow> 'a e1000_scheme" where
  "update_reg dev reg f s = (case e1000_read_reg dev reg s of (v, t) \<Rightarrow> e1000_write_reg dev reg (f v) t)"

subsection \<open>Initialisation\<close>

text \<open>One word of the EEPROM.\<close>

definition eeprom_word :: "u32 \<Rightarrow> u32 \<Rightarrow> 'a e1000_scheme \<Rightarrow> (u16 \<times> 'a e1000_scheme) option" where
  "eeprom_word dev i s =
     map_option (\<lambda>(v, t). (ucast (drop_bit 16 v AND 0xFFFF), t))
       (wait_reg dev E1000_EERD (\<lambda>v. v AND push_bit 4 1 \<noteq> 0)
          (e1000_write_reg dev E1000_EERD (i OR push_bit 8 i OR 0x1) s))"

definition e1000_read_mac_from_eeprom :: "u32 \<Rightarrow> 'a e1000_scheme \<Rightarrow> 'a e1000_scheme option" where
  "e1000_read_mac_from_eeprom dev s =
     Option.bind (eeprom_word dev 0 s) (\<lambda>(w0, s0).
     Option.bind (eeprom_word dev 1 s0) (\<lambda>(w1, s1).
     Option.bind (eeprom_word dev 2 s1) (\<lambda>(w2, s2).
       Some (set_dev dev (\<lambda>v. v\<lparr>mac_addr := [ucast (w0 AND 0xFF), ucast (drop_bit 8 w0 AND 0xFF),
          ucast (w1 AND 0xFF), ucast (drop_bit 8 w1 AND 0xFF),
          ucast (w2 AND 0xFF), ucast (drop_bit 8 w2 AND 0xFF)]\<rparr>) s2))))"

text \<open>Pages for 32 descriptors of 16 bytes, for 32 buffers and for the device structure.\<close>

definition desc_pages :: u32 where "desc_pages = (16 * E1000_NUM_RX_DESC + 4096 - 1) div 4096"
definition buffer_pages :: u32 where
  "buffer_pages = (E1000_RX_BUFFER_SIZE * E1000_NUM_RX_DESC + 4096 - 1) div 4096"
definition device_pages :: u32 where "device_pages = 1"

definition e1000_init_rx :: "u32 \<Rightarrow> 'a e1000_scheme \<Rightarrow> bool \<times> 'a e1000_scheme" where
  "e1000_init_rx dev s =
     (case pmm_alloc_blocks desc_pages s of (descs, s1) \<Rightarrow>
      let s2 = set_dev dev (\<lambda>v. v\<lparr>rx_descs := descs\<rparr>) s1
      in if descs = 0 then (False, s2)
      else case pmm_alloc_blocks buffer_pages s2 of (buffers, s3) \<Rightarrow>
      let s4 = set_dev dev (\<lambda>v. v\<lparr>rx_buffers := buffers\<rparr>) s3
      in if buffers = 0 then (False, pmm_free_blocks descs desc_pages s4)
      else
        let s5 = set_dev dev (\<lambda>v. v\<lparr>rx_ring := (\<lambda>i. if i < unat E1000_NUM_RX_DESC
                     then (rx_ring v i)\<lparr>rxd_addr := ucast (buffers + of_nat i * E1000_RX_BUFFER_SIZE),
                                       rxd_status := 0\<rparr>
                     else rx_ring v i)\<rparr>) s4;
            s6 = e1000_write_reg dev E1000_RDBAL descs s5;
            s7 = e1000_write_reg dev E1000_RDBAH 0 s6;
            s8 = e1000_write_reg dev E1000_RDLEN (E1000_NUM_RX_DESC * 16) s7;
            s9 = e1000_write_reg dev E1000_RDH 0 s8;
            s10 = e1000_write_reg dev E1000_RDT (E1000_NUM_RX_DESC - 1) s9;
            s11 = update_reg dev E1000_RCTL (\<lambda>r. ((r OR (E1000_RCTL_EN OR E1000_RCTL_SBP OR E1000_RCTL_UPE
                     OR E1000_RCTL_MPE)) AND NOT E1000_RCTL_BSIZE) OR E1000_RCTL_SECRC) s10
        in (True, set_dev dev (\<lambda>v. v\<lparr>rx_cur := 0\<rparr>) s11))"

definition e1000_init_tx :: "u32 \<Rightarrow> 'a e1000_scheme \<Rightarrow> bool \<times> 'a e1000_scheme" where
  "e1000_init_tx dev s =
     (case pmm_alloc_blocks desc_pages s of (descs, s1) \<Rightarrow>
      let s2 = set_dev dev (\<lambda>v. v\<lparr>tx_descs := descs\<rparr>) s1
      in if descs = 0 then (False, s2)
      else case pmm_alloc_blocks buffer_pages s2 of (buffers, s3) \<Rightarrow>
      let s4 = set_dev dev (\<lambda>v. v\<lparr>tx_buffers := buffers\<rparr>) s3
      in if buffers = 0 then (False, pmm_free_blocks descs desc_pages s4)
      else
        let s5 = set_dev dev (\<lambda>v. v\<lparr>tx_ring := (\<lambda>i. if i < unat E1000_NUM_TX_DESC
                     then \<lparr>txd_addr = ucast (buffers + of_nat i * E1000_TX_BUFFER_SIZE), txd_length = 0,
                           txd_cso = 0, txd_cmd = E1000_TXD_CMD_RS OR E1000_TXD_CMD_EOP, txd_status = 0,
                           txd_css = 0, txd_special = 0\<rparr>
                     else tx_ring v i)\<rparr>) s4;
            s6 = e1000_write_reg dev E1000_TDBAL descs s5;
            s7 = e1000_write_reg dev E1000_TDBAH 0 s6;
            s8 = e1000_write_reg dev E1000_TDLEN (E1000_NUM_TX_DESC * 16) s7;
            s9 = e1000_write_reg dev E1000_TDH 0 s8;
            s10 = e1000_write_reg dev E1000_TDT 0 s9;
            s11 = update_reg dev E1000_TCTL (\<lambda>r. r OR (E1000_TCTL_EN OR E1000_TCTL_PSP) OR push_bit 4 15
                     OR push_bit 12 64) s10
        in (True, set_dev dev (\<lambda>v. v\<lparr>tx_cur := 0\<rparr>) s11))"

text \<open>The structure as \<open>memset\<close> and the two assignments leave it.\<close>

definition cleared_device :: "u32 \<Rightarrow> u32 \<Rightarrow> e1000_device \<Rightarrow> e1000_device" where
  "cleared_device mmio io v =
     \<lparr>mmio_base = mmio, io_base = io, mac_addr = replicate 6 0, rx_descs = 0, rx_ring = rx_ring v,
      rx_buffers = 0, rx_cur = 0, tx_descs = 0, tx_ring = tx_ring v, tx_buffers = 0, tx_cur = 0,
      dev_rx_bytes = 0, dev_tx_bytes = 0, dev_rx_packets = 0, dev_tx_packets = 0, dev_rx_errors = 0,
      dev_tx_errors = 0\<rparr>"

text \<open>Its first member is the Ethernet device structure at the same address.\<close>

definition no_eth_device :: eth_device where
  "no_eth_device = \<lparr>ops_init = 0, ops_cleanup = 0, ops_start = 0, ops_stop = 0, ops_send = 0,
     ops_receive = 0, ops_set_mac = 0, ops_get_stats = 0, ops_set_promiscuous = 0, ops_set_multicast = 0\<rparr>"

definition clear_device :: "u32 \<Rightarrow> u32 \<Rightarrow> u32 \<Rightarrow> 'a e1000_scheme \<Rightarrow> 'a e1000_scheme" where
  "clear_device dev mmio io s =
     (set_dev dev (cleared_device mmio io) s)\<lparr>eth_at := (eth_at s)(dev := no_eth_device)\<rparr>"

text \<open>Reset, with the wait for its end, and the address.\<close>

definition e1000_reset :: "u32 \<Rightarrow> 'a e1000_scheme \<Rightarrow> 'a e1000_scheme option" where
  "e1000_reset dev s =
     (let s1 = (io_wait ^^ 1000) (update_reg dev E1000_CTRL (\<lambda>v. v OR E1000_CTRL_RST) s)
      in Option.bind (wait_reg dev E1000_CTRL (\<lambda>v. v AND E1000_CTRL_RST = 0) s1) (\<lambda>(v, s2).
           e1000_read_mac_from_eeprom dev
             (snd (e1000_read_reg dev E1000_ICR (e1000_write_reg dev E1000_IMC 0xFFFFFFFF s2)))))"

definition e1000_init :: "u32 \<Rightarrow> u32 \<Rightarrow> u32 \<Rightarrow> 'a e1000_scheme \<Rightarrow> (bool \<times> 'a e1000_scheme) option" where
  "e1000_init iface mmio io s =
     (case pmm_alloc_blocks device_pages s of (dev, s1) \<Rightarrow>
        if dev = 0 then Some (False, s1)
        else Option.bind (e1000_reset dev (clear_device dev mmio io s1)) (\<lambda>s2. Some (
          case e1000_init_rx dev s2 of (rx_ok, s3) \<Rightarrow>
            if \<not> rx_ok then (False, pmm_free_blocks dev device_pages s3)
            else case e1000_init_tx dev s3 of (tx_ok, s4) \<Rightarrow>
              if \<not> tx_ok then (False, pmm_free_blocks dev device_pages s4)
              else
                let s5 = update_reg dev E1000_CTRL (\<lambda>v. v OR (E1000_CTRL_SLU OR E1000_CTRL_ASDE)) s4
                in (True, set_iface iface (\<lambda>i. i\<lparr>driver_data := dev, if_mac := mac_addr (e1000_at s5 dev)\<rparr>) s5))))"

end
