(* ===== verification/E1000_Traffic.thy ===== *)
theory E1000_Traffic
  imports E1000
begin

text \<open>
  The e1000 driver in operation: start and stop, sending, receiving, interrupts, release.
\<close>

abbreviation dev_of :: "'a net_scheme \<Rightarrow> u32 \<Rightarrow> u32" where
  "dev_of s iface \<equiv> driver_data (iface_at s iface)"

subsection \<open>Control\<close>

definition e1000_enable_interrupts :: "u32 \<Rightarrow> 'a e1000_scheme \<Rightarrow> 'a e1000_scheme" where
  "e1000_enable_interrupts dev s =
     (if dev = 0 then s
      else e1000_write_reg dev E1000_IMS (E1000_ICR_LSC OR E1000_ICR_RXT0 OR E1000_ICR_RXDMT0
             OR E1000_ICR_RXO OR E1000_ICR_TXQE) s)"

definition e1000_disable_interrupts :: "u32 \<Rightarrow> 'a e1000_scheme \<Rightarrow> 'a e1000_scheme" where
  "e1000_disable_interrupts dev s =
     (if dev = 0 then s
      else snd (e1000_read_reg dev E1000_ICR (e1000_write_reg dev E1000_IMC 0xFFFFFFFF s)))"

definition e1000_start :: "u32 \<Rightarrow> 'a e1000_scheme \<Rightarrow> bool \<times> 'a e1000_scheme" where
  "e1000_start iface s =
     (let dev = dev_of s iface in
      if dev = 0 then (False, s)
      else (True, e1000_enable_interrupts dev
             (update_reg dev E1000_TCTL (\<lambda>v. v OR E1000_TCTL_EN)
               (update_reg dev E1000_RCTL (\<lambda>v. v OR E1000_RCTL_EN) s))))"

definition e1000_stop :: "u32 \<Rightarrow> 'a e1000_scheme \<Rightarrow> 'a e1000_scheme" where
  "e1000_stop iface s =
     (let dev = dev_of s iface in
      if dev = 0 then s
      else update_reg dev E1000_TCTL (\<lambda>v. v AND NOT E1000_TCTL_EN)
             (update_reg dev E1000_RCTL (\<lambda>v. v AND NOT E1000_RCTL_EN)
               (e1000_disable_interrupts dev s)))"

definition free_if :: "u32 \<Rightarrow> u32 \<Rightarrow> 'a e1000_scheme \<Rightarrow> 'a e1000_scheme" where
  "free_if p n s = (if p \<noteq> 0 then pmm_free_blocks p n s else s)"

definition e1000_cleanup :: "u32 \<Rightarrow> 'a e1000_scheme \<Rightarrow> 'a e1000_scheme" where
  "e1000_cleanup iface s =
     (let dev = dev_of s iface in
      if dev = 0 then s
      else
        let s1 = e1000_stop iface s;
            s2 = free_if (rx_descs (e1000_at s1 dev)) desc_pages s1;
            s3 = free_if (rx_buffers (e1000_at s2 dev)) buffer_pages s2;
            s4 = free_if (tx_descs (e1000_at s3 dev)) desc_pages s3;
            s5 = free_if (tx_buffers (e1000_at s4 dev)) buffer_pages s4;
            s6 = pmm_free_blocks dev device_pages s5
        in set_iface iface (\<lambda>i. i\<lparr>driver_data := 0\<rparr>) s6)"

definition e1000_set_mac :: "u32 \<Rightarrow> u8 list option \<Rightarrow> 'a e1000_scheme \<Rightarrow> bool \<times> 'a e1000_scheme" where
  "e1000_set_mac iface mac s =
     (let dev = dev_of s iface in
      case mac of None \<Rightarrow> (False, s)
      | Some m \<Rightarrow>
          if dev = 0 then (False, s)
          else
            let s1 = set_iface iface (\<lambda>i. i\<lparr>if_mac := take ETH_ADDR_LEN m\<rparr>)
                       (set_dev dev (\<lambda>v. v\<lparr>mac_addr := take ETH_ADDR_LEN m\<rparr>) s);
                low = ucast (m ! 0) OR push_bit 8 (ucast (m ! 1)) OR push_bit 16 (ucast (m ! 2))
                        OR push_bit 24 (ucast (m ! 3));
                high = ucast (m ! 4) OR push_bit 8 (ucast (m ! 5))
            in (True, e1000_write_reg dev E1000_RAH high (e1000_write_reg dev E1000_RAL low s1)))"

definition e1000_get_link_status :: "u32 \<Rightarrow> 'a e1000_scheme \<Rightarrow> bool \<times> 'a e1000_scheme" where
  "e1000_get_link_status iface s =
     (let dev = dev_of s iface in
      if dev = 0 then (False, s)
      else case e1000_read_reg dev E1000_STATUS s of (v, t) \<Rightarrow> (v AND E1000_STATUS_LU \<noteq> 0, t))"

subsection \<open>Sending\<close>

definition cur_tx :: "u32 \<Rightarrow> 'a e1000_scheme \<Rightarrow> e1000_tx_desc" where
  "cur_tx dev s = tx_ring (e1000_at s dev) (unat (tx_cur (e1000_at s dev)))"

text \<open>\<open>while (!(status & 0xFF));\<close>\<close>

partial_function (option) wait_tx ::
  "('a e1000_scheme \<Rightarrow> 'a e1000_scheme) \<Rightarrow> u32 \<Rightarrow> 'a e1000_scheme \<Rightarrow> 'a e1000_scheme option"
where
  "wait_tx hw dev s = (if txd_status (cur_tx dev s) AND 0xFF \<noteq> 0 then Some s else wait_tx hw dev (hw s))"

fun put_bytes :: "u32 \<Rightarrow> u8 list \<Rightarrow> 'a machine_scheme \<Rightarrow> 'a machine_scheme" where
  "put_bytes a [] s = s"
| "put_bytes a (b # bs) s = put_bytes (a + 1) bs (put_byte a b s)"

definition e1000_send_packet ::
  "('a e1000_scheme \<Rightarrow> 'a e1000_scheme) \<Rightarrow> u32 \<Rightarrow> u32 \<Rightarrow> 'a e1000_scheme \<Rightarrow> (bool \<times> 'a e1000_scheme) option"
where
  "e1000_send_packet hw iface packet s =
     (let dev = dev_of s iface in
      if dev = 0 \<or> packet = 0 \<or> E1000_TX_BUFFER_SIZE < pkt_length (packet_at s packet) then Some (False, s)
      else map_option (\<lambda>s1.
        let p = packet_at s1 packet; i = unat (tx_cur (e1000_at s1 dev));
            s2 = put_bytes (ucast (txd_addr (cur_tx dev s1))) (get_at 0 (unat (pkt_length p)) (pkt_data p)) s1;
            s3 = set_dev dev (\<lambda>v. v\<lparr>tx_ring := (tx_ring v)(i := (tx_ring v i)\<lparr>
                    txd_length := ucast (pkt_length p),
                    txd_cmd := E1000_TXD_CMD_EOP OR E1000_TXD_CMD_IFCS OR E1000_TXD_CMD_RS,
                    txd_status := 0\<rparr>),
                  dev_tx_packets := dev_tx_packets v + 1,
                  dev_tx_bytes := dev_tx_bytes v + pkt_length p,
                  tx_cur := (tx_cur v + 1) mod E1000_NUM_TX_DESC\<rparr>) s2
        in (True, e1000_write_reg dev E1000_TDT (tx_cur (e1000_at s3 dev)) s3)) (wait_tx hw dev s))"

subsection \<open>Receiving\<close>

definition cur_rx :: "u32 \<Rightarrow> 'a e1000_scheme \<Rightarrow> e1000_rx_desc" where
  "cur_rx dev s = rx_ring (e1000_at s dev) (unat (rx_cur (e1000_at s dev)))"

definition count_rx_error :: "u32 \<Rightarrow> 'a e1000_scheme \<Rightarrow> 'a e1000_scheme" where
  "count_rx_error dev s = set_dev dev (\<lambda>v. v\<lparr>dev_rx_errors := dev_rx_errors v + 1\<rparr>) s"

text \<open>The bytes the device left at an address.\<close>

definition bytes_at :: "u32 \<Rightarrow> nat \<Rightarrow> 'a machine_scheme \<Rightarrow> u8 list" where
  "bytes_at a n s = map (\<lambda>i. get_byte (a + of_nat i) s) [0..<n]"

definition e1000_receive_packet :: "u32 \<Rightarrow> 'a e1000_scheme \<Rightarrow> u32 \<times> 'a e1000_scheme" where
  "e1000_receive_packet iface s =
     (let dev = dev_of s iface; r = cur_rx dev s; len = rxd_length r in
      if dev = 0 then (0, s)
      else if rxd_status r AND E1000_RXD_STAT_DD = 0 then (0, s)
      else if E1000_RX_BUFFER_SIZE < ucast len then (0, count_rx_error dev s)
      else case net_alloc_packet (ucast len) s of (packet, s1) \<Rightarrow>
        if packet = 0 then (0, count_rx_error dev s1)
        else
          let bytes = bytes_at (ucast (rxd_addr r)) (unat len) s1;
              s2 = set_packet packet (\<lambda>p. p\<lparr>pkt_data := put_at 0 bytes (pkt_data p), pkt_length := ucast len\<rparr>) s1;
              cur = rx_cur (e1000_at s2 dev);
              s3 = set_dev dev (\<lambda>v. v\<lparr>dev_rx_packets := dev_rx_packets v + 1,
                     dev_rx_bytes := dev_rx_bytes v + ucast len,
                     rx_ring := (rx_ring v)(unat cur := (rx_ring v (unat cur))\<lparr>rxd_status := 0\<rparr>),
                     rx_cur := (cur + 1) mod E1000_NUM_RX_DESC\<rparr>) s2
          in (packet, e1000_write_reg dev E1000_RDT cur s3))"

text \<open>The loop of the interrupt handler.  The receive operation of the interface takes only the
  interface; the packet the handler passes as well is not looked at, nor is its result.\<close>

partial_function (option) rx_drain ::
  "'a e1000_scheme callees \<Rightarrow> u32 \<Rightarrow> 'a e1000_scheme \<Rightarrow> 'a e1000_scheme option"
where
  "rx_drain d iface s =
     (case e1000_receive_packet iface s of (packet, s1) \<Rightarrow>
        if packet = 0 then Some s1
        else let f = receive_fn (iface_at s1 iface)
             in rx_drain d iface (if f \<noteq> 0 then snd (call_receive d f iface s1) else net_free_packet packet s1))"

definition e1000_handle_interrupt ::
  "'a e1000_scheme callees \<Rightarrow> u32 \<Rightarrow> 'a e1000_scheme \<Rightarrow> 'a e1000_scheme option"
where
  "e1000_handle_interrupt d iface s =
     (let dev = dev_of s iface in
      if dev = 0 then Some s
      else case e1000_read_reg dev E1000_ICR s of (icr, s1) \<Rightarrow>
        let s2 = (if icr AND E1000_ICR_LSC \<noteq> 0
                  then case e1000_get_link_status iface s1 of (up, t) \<Rightarrow>
                    kprint (Puts ((if up then ''e1000: Link is up'' else ''e1000: Link is down'') @ newline)) t
                  else s1)
        in map_option (\<lambda>s3.
             if icr AND E1000_ICR_RXO \<noteq> 0
             then kprint (Puts (''e1000: Receive overrun'' @ newline)) (count_rx_error dev s3) else s3)
           (if icr AND (E1000_ICR_RXT0 OR E1000_ICR_RXDMT0) \<noteq> 0 then rx_drain d iface s2 else Some s2))"

end
