(* ===== verification/E1000_Stuck.thy ===== *)
theory E1000_Stuck
  imports E1000_Traffic
begin

text \<open>
  What the e1000 driver does on its first packets: the first one to be sent is waited for
  forever, and a received one longer than a network packet blocks the ring.
\<close>

subsection \<open>Frames\<close>

lemma set_dev_same [simp]: "e1000_at (set_dev dev f s) dev = f (e1000_at s dev)"
  by (simp add: set_dev_def)

lemma set_dev_fields [simp]:
  "iface_at (set_dev dev f s) = iface_at s" "reg_out (set_dev dev f s) = reg_out s"
  "eth_at (set_dev dev f s) = eth_at s" "packet_at (set_dev dev f s) = packet_at s"
  by (simp_all add: set_dev_def)

lemma reg_fields [simp]:
  "e1000_at (e1000_write_reg dev reg v s) = e1000_at s" "iface_at (e1000_write_reg dev reg v s) = iface_at s"
  "eth_at (e1000_write_reg dev reg v s) = eth_at s"
  "e1000_at (update_reg dev reg f s) = e1000_at s" "iface_at (update_reg dev reg f s) = iface_at s"
  "eth_at (update_reg dev reg f s) = eth_at s"
  "packet_at (e1000_write_reg dev reg v s) = packet_at s" "packet_at (update_reg dev reg f s) = packet_at s"
  by (simp_all add: e1000_write_reg_def update_reg_def e1000_read_reg_def Let_def split: prod.split)

lemma reg_out_write [simp]:
  "reg_out (e1000_write_reg dev reg v s) = reg_out s @ [(mmio_base (e1000_at s dev) + reg, v)]"
  by (simp add: e1000_write_reg_def)

lemma reg_out_update: "\<exists>v. reg_out (update_reg dev reg f s) = reg_out s @ [(mmio_base (e1000_at s dev) + reg, v)]"
  by (simp add: update_reg_def e1000_read_reg_def e1000_write_reg_def Let_def)

lemma mem_only_e1000:
  fixes s :: "'a e1000_scheme"
  assumes "mem_only s t"
  shows "e1000_at t = e1000_at s \<and> eth_at t = eth_at s \<and> iface_at t = iface_at s \<and> reg_out t = reg_out s"
  using assms by (auto simp: mem_only_def)

lemma alloc_blocks_frame:
  fixes s :: "'a e1000_scheme"
  assumes "pmm_alloc_blocks n s = (p, t)"
  shows "e1000_at t = e1000_at s" "eth_at t = eth_at s" "iface_at t = iface_at s" "reg_out t = reg_out s"
  using mem_only_e1000 [OF mem_only_pmm(3) [of s n]] assms by simp_all

subsection \<open>The transmit ring after initialisation\<close>

text \<open>Since the head was set to 0 nothing but 0 has been written to the tail: the device owns no
  transmit descriptor.\<close>

definition nothing_given :: "u32 \<Rightarrow> 'a e1000_scheme \<Rightarrow> bool" where
  "nothing_given dev s \<longleftrightarrow> (let base = mmio_base (e1000_at s dev) in
     \<exists>before after. reg_out s = before @ (base + E1000_TDH, 0) # after
       \<and> (\<forall>(a, v) \<in> set after. a = base + E1000_TDT \<longrightarrow> v = 0))"

text \<open>The documented behaviour: the device writes back only the descriptors it was given.\<close>

definition obeys_ring :: "('a e1000_scheme \<Rightarrow> 'a e1000_scheme) \<Rightarrow> bool" where
  "obeys_ring hw \<longleftrightarrow> (\<forall>s dev. nothing_given dev s \<longrightarrow>
     reg_out (hw s) = reg_out s \<and> cur_tx dev (hw s) = cur_tx dev s
     \<and> mmio_base (e1000_at (hw s) dev) = mmio_base (e1000_at s dev))"

lemma nothing_given_reg:
  assumes "nothing_given dev s" and "reg_out t = reg_out s @ [(mmio_base (e1000_at s dev) + reg, v)]"
    and "e1000_at t = e1000_at s" and "reg \<noteq> E1000_TDT"
  shows "nothing_given dev t"
proof -
  let ?b = "mmio_base (e1000_at s dev)"
  obtain l r where "reg_out s = l @ (?b + E1000_TDH, 0) # r" "\<forall>(a, v) \<in> set r. a = ?b + E1000_TDT \<longrightarrow> v = 0"
    using assms(1) by (auto simp: nothing_given_def Let_def)
  then show ?thesis
    using assms(2-4) unfolding nothing_given_def Let_def
    by (intro exI [of _ l] exI [of _ "r @ [(?b + reg, v)]"]) auto
qed

lemma nothing_given_update:
  assumes "nothing_given dev s" and "reg \<noteq> E1000_TDT"
  shows "nothing_given dev (update_reg dev reg f s)"
proof -
  obtain v where "reg_out (update_reg dev reg f s) = reg_out s @ [(mmio_base (e1000_at s dev) + reg, v)]"
    using reg_out_update by blast
  then show ?thesis by (rule nothing_given_reg [OF assms(1) _ _ assms(2)]) simp
qed

lemma nothing_given_set_dev:
  "mmio_base (f (e1000_at s dev)) = mmio_base (e1000_at s dev) \<Longrightarrow> nothing_given dev (set_dev dev f s) = nothing_given dev s"
  by (simp add: nothing_given_def)

lemmas reg_numbers = E1000_CTRL_def E1000_RCTL_def E1000_TCTL_def E1000_TDH_def E1000_TDT_def E1000_IMS_def

text \<open>A ring set up by \<open>e1000_init_tx\<close>.\<close>

definition tx_fresh :: "u32 \<Rightarrow> 'a e1000_scheme \<Rightarrow> bool" where
  "tx_fresh dev s \<longleftrightarrow> nothing_given dev s \<and> txd_status (cur_tx dev s) = 0"

lemma init_tx_fresh:
  assumes "e1000_init_tx dev s = (True, t)"
  shows "tx_fresh dev t \<and> eth_at t = eth_at s \<and> iface_at t = iface_at s"
proof -
  obtain p s1 where p: "pmm_alloc_blocks desc_pages s = (p, s1)" by fastforce
  let ?s2 = "set_dev dev (\<lambda>v. v\<lparr>tx_descs := p\<rparr>) s1"
  obtain q s3 where q: "pmm_alloc_blocks buffer_pages ?s2 = (q, s3)" by fastforce
  have nz: "p \<noteq> 0" "q \<noteq> 0" using assms p q by (auto simp: e1000_init_tx_def Let_def split: if_splits)
  note frame = alloc_blocks_frame [OF p] alloc_blocks_frame [OF q]
  define s5 where "s5 = set_dev dev (\<lambda>v. v\<lparr>tx_ring := (\<lambda>i. if i < unat E1000_NUM_TX_DESC
                     then \<lparr>txd_addr = ucast (q + of_nat i * E1000_TX_BUFFER_SIZE), txd_length = 0,
                           txd_cso = 0, txd_cmd = E1000_TXD_CMD_RS OR E1000_TXD_CMD_EOP, txd_status = 0,
                           txd_css = 0, txd_special = 0\<rparr>
                     else tx_ring v i)\<rparr>) (set_dev dev (\<lambda>v. v\<lparr>tx_buffers := q\<rparr>) s3)"
  define s10 where "s10 = e1000_write_reg dev E1000_TDT 0 (e1000_write_reg dev E1000_TDH 0
      (e1000_write_reg dev E1000_TDLEN (E1000_NUM_TX_DESC * 16)
      (e1000_write_reg dev E1000_TDBAH 0 (e1000_write_reg dev E1000_TDBAL p s5))))"
  have t: "t = set_dev dev (\<lambda>v. v\<lparr>tx_cur := 0\<rparr>) (update_reg dev E1000_TCTL (\<lambda>r. r OR (E1000_TCTL_EN OR E1000_TCTL_PSP)
        OR push_bit 4 15 OR push_bit 12 64) s10)"
    using assms p q nz by (simp add: e1000_init_tx_def Let_def s5_def s10_def)
  have "nothing_given dev s10"
    unfolding nothing_given_def Let_def s10_def
    by (intro exI [of _ "reg_out s5 @ [(mmio_base (e1000_at s5 dev) + E1000_TDBAL, p),
          (mmio_base (e1000_at s5 dev) + E1000_TDBAH, 0), (mmio_base (e1000_at s5 dev) + E1000_TDLEN, E1000_NUM_TX_DESC * 16)]"]
        exI [of _ "[(mmio_base (e1000_at s5 dev) + E1000_TDT, 0)]"]) simp
  then have "nothing_given dev t"
    unfolding t by (subst nothing_given_set_dev) (simp_all add: nothing_given_update reg_numbers)
  moreover have "txd_status (cur_tx dev t) = 0"
    by (simp add: t cur_tx_def s10_def s5_def E1000_NUM_TX_DESC_def)
  ultimately show ?thesis using frame by (simp add: tx_fresh_def t s10_def s5_def)
qed

lemma tx_fresh_update: "tx_fresh dev s \<Longrightarrow> reg \<noteq> E1000_TDT \<Longrightarrow> tx_fresh dev (update_reg dev reg f s)"
  by (simp add: tx_fresh_def nothing_given_update cur_tx_def)

lemma tx_fresh_iface: "tx_fresh dev (set_iface i f s) = tx_fresh dev s"
  by (simp add: tx_fresh_def nothing_given_def cur_tx_def set_iface_def)

lemma wait_reg_eth:
  assumes "wait_reg dev reg ready s = Some r"
  shows "eth_at (snd r) = eth_at s"
proof (rule wait_reg.raw_induct [where P = "\<lambda>dev reg ready s r. eth_at (snd r) = eth_at s", OF _ assms])
  fix loop :: "u32 \<Rightarrow> u32 \<Rightarrow> (u32 \<Rightarrow> bool) \<Rightarrow> 'a e1000_scheme \<Rightarrow> (u32 \<times> 'a e1000_scheme) option"
    and dev reg ready s r
  assume 1: "\<And>dev reg ready s r. loop dev reg ready s = Some r \<Longrightarrow> eth_at (snd r) = eth_at s"
    "(case e1000_read_reg dev reg s of (v, t) \<Rightarrow> if ready v then Some (v, t) else loop dev reg ready t) = Some r"
  obtain v t where e: "e1000_read_reg dev reg s = (v, t)" by fastforce
  then have t: "eth_at t = eth_at s" by (auto simp: e1000_read_reg_def Let_def)
  show "eth_at (snd r) = eth_at s"
  proof (cases "ready v")
    case True
    then show ?thesis using 1(2) t unfolding e by auto
  next
    case False
    then have "loop dev reg ready t = Some r" using 1(2) unfolding e by simp
    from 1(1) [OF this] t show ?thesis by simp
  qed
qed

lemma eeprom_eth:
  assumes "eeprom_word dev i s = Some (w, t)"
  shows "eth_at t = eth_at s"
proof -
  obtain v where "wait_reg dev E1000_EERD (\<lambda>v. v AND push_bit 4 1 \<noteq> 0)
      (e1000_write_reg dev E1000_EERD (i OR push_bit 8 i OR 0x1) s) = Some (v, t)"
    using assms unfolding eeprom_word_def by (elim map_option_eq_Some [THEN iffD1, THEN exE]) (clarsimp split: prod.splits)
  from wait_reg_eth [OF this] show ?thesis by simp
qed

lemma mac_eth:
  assumes "e1000_read_mac_from_eeprom dev s = Some t"
  shows "eth_at t = eth_at s"
proof -
  obtain w0 s0 where 0: "eeprom_word dev 0 s = Some (w0, s0)"
    using assms by (auto simp: e1000_read_mac_from_eeprom_def split: bind_splits)
  obtain w1 s1 where 1: "eeprom_word dev 1 s0 = Some (w1, s1)"
    using assms 0 by (auto simp: e1000_read_mac_from_eeprom_def split: bind_splits)
  obtain w2 s2 where 2: "eeprom_word dev 2 s1 = Some (w2, s2)"
    using assms 0 1 by (auto simp: e1000_read_mac_from_eeprom_def split: bind_splits)
  have "eth_at t = eth_at s2" using assms 0 1 2 by (auto simp: e1000_read_mac_from_eeprom_def)
  then show ?thesis using eeprom_eth [OF 0] eeprom_eth [OF 1] eeprom_eth [OF 2] by simp
qed

lemma eth_at_io: "eth_at (io_wait s) = eth_at s" "eth_at (snd (e1000_read_reg dev reg s)) = eth_at s"
  by (simp_all add: io_wait_def outb_def e1000_read_reg_def Let_def)

lemma reset_eth: "e1000_reset dev s = Some t \<Longrightarrow> eth_at t = eth_at s"
proof -
  have io: "eth_at ((io_wait ^^ n) s) = eth_at s" for n and s :: "'a e1000_scheme"
    by (induction n) (simp_all add: eth_at_io)
  let ?s1 = "(io_wait ^^ 1000) (update_reg dev E1000_CTRL (\<lambda>v. v OR E1000_CTRL_RST) s)"
  assume reset: "e1000_reset dev s = Some t"
  then obtain v s2 where s2: "wait_reg dev E1000_CTRL (\<lambda>v. v AND E1000_CTRL_RST = 0) ?s1 = Some (v, s2)"
    by (auto simp: e1000_reset_def Let_def split: bind_splits)
  have "eth_at t = eth_at s2"
    using reset mac_eth [of dev _ t] by (simp add: e1000_reset_def Let_def s2 eth_at_io)
  then show ?thesis using wait_reg_eth [OF s2] by (simp add: io)
qed

lemma init_rx_eth: "eth_at (snd (e1000_init_rx dev s)) = eth_at s"
proof -
  obtain p s1 where p: "pmm_alloc_blocks desc_pages s = (p, s1)" by fastforce
  let ?s2 = "set_dev dev (\<lambda>v. v\<lparr>rx_descs := p\<rparr>) s1"
  obtain q s3 where q: "pmm_alloc_blocks buffer_pages ?s2 = (q, s3)" by fastforce
  have free: "eth_at (pmm_free_blocks a n u) = eth_at u" for a n and u :: "'a e1000_scheme"
    using mem_only_e1000 [OF mem_only_pmm(4) [of u a n]] by simp
  show ?thesis using p q alloc_blocks_frame(2) [OF p] alloc_blocks_frame(2) [OF q]
    by (simp add: e1000_init_rx_def Let_def free)
qed

lemma e1000_init_success:
  assumes "e1000_init iface mmio io s = Some (True, t)"
  shows "dev_of t iface \<noteq> 0 \<and> tx_fresh (dev_of t iface) t \<and> eth_at t (dev_of t iface) = no_eth_device"
proof -
  obtain dev s1 where dev: "pmm_alloc_blocks device_pages s = (dev, s1)" "dev \<noteq> 0"
    using assms by (auto simp: e1000_init_def split: prod.splits if_splits)
  obtain s2 where s2: "e1000_reset dev (clear_device dev mmio io s1) = Some s2"
    using assms dev by (auto simp: e1000_init_def split: prod.splits bind_splits)
  obtain a s3 where s3: "e1000_init_rx dev s2 = (a, s3)" by fastforce
  obtain b s4 where s4: "e1000_init_tx dev s3 = (b, s4)" by fastforce
  have ab: "a" "b" using assms dev s2 s3 s4 by (auto simp: e1000_init_def split: if_splits)
  let ?s5 = "update_reg dev E1000_CTRL (\<lambda>v. v OR (E1000_CTRL_SLU OR E1000_CTRL_ASDE)) s4"
  have t: "t = set_iface iface (\<lambda>i. i\<lparr>driver_data := dev, if_mac := mac_addr (e1000_at ?s5 dev)\<rparr>) ?s5"
    using assms dev s2 s3 s4 ab by (simp add: e1000_init_def Let_def)
  have fresh: "tx_fresh dev s4" "eth_at s4 = eth_at s3" using init_tx_fresh [of dev s3 s4] s4 ab by simp_all
  have "eth_at s3 = eth_at s2" using init_rx_eth [of dev s2] s3 by simp
  moreover have "eth_at s2 dev = no_eth_device"
    using reset_eth [OF s2] by (simp add: clear_device_def)
  ultimately have "eth_at s4 dev = no_eth_device" using fresh(2) by simp
  have "tx_fresh dev ?s5" by (rule tx_fresh_update [OF fresh(1)]) (simp add: reg_numbers)
  then show ?thesis using dev(2) \<open>eth_at s4 dev = _\<close> by (simp add: t tx_fresh_iface) (simp add: set_iface_def)
qed

end
