(* ===== verification/Dense_Memory.thy ===== *)
theory Dense_Memory
  imports Net_Dispatch
begin

text \<open>
  Memory in use up to some block and free behind it, as after a boot without releases:
  there every request that fits succeeds, and memory stays that way.
\<close>

definition dense :: "nat \<Rightarrow> 'a pmm_scheme \<Rightarrow> bool" where
  "dense k s \<longleftrightarrow> pmm_inv s \<and> used_set s = {b. unat b < k}"

lemma dense_free_run:
  assumes "dense k s" and "k + m \<le> unat (mem_blocks s)"
  shows "free_run s k m"
  unfolding free_run_def
proof (intro allI impI)
  fix j
  assume "j < m"
  define i where "i = k + j"
  have i: "i < unat (mem_blocks s)" using \<open>j < m\<close> assms(2) by (simp add: i_def)
  then have u: "unat (of_nat i :: u32) = i"
    using unsigned_less [of "mem_blocks s", where 'a = nat] by (simp add: unat_of_nat take_bit_nat_eq_self)
  then have "of_nat i \<notin> used_set s" using assms(1) by (simp add: dense_def i_def)
  moreover have "of_nat i < mem_blocks s" using i u by (simp add: word_less_nat_alt)
  ultimately have "free_at s i"
    using u free_at_word [of s "of_nat i"] by (simp add: used_set_def)
  then show "free_at s (k + j)" by (simp add: i_def)
qed

lemma dense_alloc:
  assumes dense: "dense k s" and fits: "k + unat n \<le> unat (mem_blocks s)" and n: "n \<noteq> 0"
    and alloc: "pmm_alloc_blocks n s = (p, t)"
  shows "p \<noteq> 0 \<and> dense (k + unat n) t \<and> mem_blocks t = mem_blocks s"
proof -
  have inv: "pmm_inv s" using dense by (simp add: dense_def)
  note run_k = dense_free_run [OF dense fits]
  have p: "p \<noteq> 0" using pmm_alloc_blocks_finds [OF inv run_k n] alloc by simp
  from inv show ?thesis
  proof (cases rule: pmm_alloc_blocks_cases [of s n])
    case null
    then show ?thesis using p alloc by simp
  next
    case (run b u)
    then have u: "u = t" using alloc by simp
    have "unat b \<le> k" using run(5) run_k not_le by blast
    moreover have "b \<notin> used_set s"
      using free_run_span(2) [OF run(4) n] n by (auto simp: span_def unat_eq_0 [symmetric])
    ultimately have "unat b = k" using dense by (simp add: dense_def)
    then have "used_set t = {c. unat c < k + unat n}"
      using run(7) dense by (auto simp: u dense_def span_def)
    then show ?thesis using p run(6,8) by (simp add: u dense_def)
  qed
qed

end
