(* ===== verification/E1000_Up.thy ===== *)
theory E1000_Up
  imports E1000_Stuck Dense_Memory
begin

text \<open>
  Bringing the e1000 up: when the device answers and there is memory, initialisation
  succeeds; what works afterwards and what does not.
\<close>

subsection \<open>Initialisation succeeds\<close>

text \<open>What the driver does to registers and structures leaves the allocator and the device's
  future answers alone.\<close>

definition quiet :: "'a e1000_scheme \<Rightarrow> 'a e1000_scheme \<Rightarrow> bool" where
  "quiet s t \<longleftrightarrow> mem t = mem s \<and> pmm_memory_map t = pmm_memory_map s \<and> pmm_memory_map_size t = pmm_memory_map_size s
     \<and> mem_size t = mem_size s \<and> mem_blocks t = mem_blocks s \<and> mem_used_blocks t = mem_used_blocks s
     \<and> mem_max_addr t = mem_max_addr s \<and> reg_in t = reg_in s \<and> iface_at t = iface_at s"

lemma quiet_trans [trans]: "quiet s t \<Longrightarrow> quiet t u \<Longrightarrow> quiet s u"
  by (simp add: quiet_def)

lemma quiet_dense:
  assumes "quiet s t" "dense k s"
  shows "dense k t"
proof -
  have "used_set t = used_set s" "pmm_geom t = pmm_geom s" "mem_used_blocks t = mem_used_blocks s"
    using assms(1) by (simp_all add: quiet_def used_set_def pmm_test_block_def bm_addr_def rd32_def pmm_geom_def)
  then have "pmm_inv t = pmm_inv s" "used_set t = used_set s" by (simp_all only: pmm_inv_def assms(1))
  then show ?thesis using assms(2) by (simp only: dense_def)
qed

lemma quiet_steps [simp]:
  "quiet s s" "quiet s (set_dev dev f s)" "quiet s (e1000_write_reg dev reg v s)"
  "quiet s (update_reg dev reg g s)" "quiet s (snd (e1000_read_reg dev reg s))"
  "quiet s (clear_device dev mmio io s)" "quiet s (io_wait s)"
  by (simp_all add: quiet_def set_dev_def e1000_write_reg_def update_reg_def e1000_read_reg_def
      clear_device_def io_wait_def outb_def Let_def)

text \<open>A device that answers: the reset ends, and the EEPROM is ready.\<close>

definition answers :: "u32 \<Rightarrow> 'a e1000_scheme \<Rightarrow> bool" where
  "answers mmio s \<longleftrightarrow> (\<forall>n. reg_in s (mmio + E1000_CTRL) n AND E1000_CTRL_RST = 0)
     \<and> (\<forall>n. reg_in s (mmio + E1000_EERD) n AND push_bit 4 1 \<noteq> 0)"

lemma wait_reg_ready:
  assumes "\<forall>n. ready (reg_in s (mmio_base (e1000_at s dev) + reg) n)"
  shows "\<exists>v t. wait_reg dev reg ready s = Some (v, t) \<and> quiet s t \<and> e1000_at t = e1000_at s"
  using assms by (subst wait_reg.simps) (simp add: e1000_read_reg_def Let_def quiet_def)

lemma eeprom_ready:
  assumes "answers (mmio_base (e1000_at s dev)) s"
  shows "\<exists>w t. eeprom_word dev i s = Some (w, t) \<and> quiet s t \<and> e1000_at t = e1000_at s"
proof -
  let ?s = "e1000_write_reg dev E1000_EERD (i OR push_bit 8 i OR 0x1) s"
  have "\<forall>n. reg_in ?s (mmio_base (e1000_at ?s dev) + E1000_EERD) n AND push_bit 4 1 \<noteq> 0"
    using assms by (simp add: answers_def e1000_write_reg_def)
  from wait_reg_ready [OF this] obtain v t where
    "wait_reg dev E1000_EERD (\<lambda>v. v AND push_bit 4 1 \<noteq> 0) ?s = Some (v, t)" "quiet ?s t" "e1000_at t = e1000_at s"
    by auto
  then show ?thesis using quiet_trans [of s ?s t] by (auto simp: eeprom_word_def)
qed

lemma quiet_answers: "quiet s t \<Longrightarrow> answers b t = answers b s"
  by (simp add: quiet_def answers_def)

lemma mac_ready:
  assumes "answers (mmio_base (e1000_at s dev)) s"
  shows "\<exists>t. e1000_read_mac_from_eeprom dev s = Some t \<and> quiet s t \<and> mmio_base (e1000_at t dev) = mmio_base (e1000_at s dev)"
proof -
  obtain w0 s0 where 0: "eeprom_word dev 0 s = Some (w0, s0)" "quiet s s0" "e1000_at s0 = e1000_at s"
    using eeprom_ready [OF assms] by blast
  have "answers (mmio_base (e1000_at s0 dev)) s0" using assms 0 by (simp add: quiet_answers)
  then obtain w1 s1 where 1: "eeprom_word dev 1 s0 = Some (w1, s1)" "quiet s0 s1" "e1000_at s1 = e1000_at s0"
    using eeprom_ready by blast
  have "answers (mmio_base (e1000_at s1 dev)) s1" using assms 0 1 by (simp add: quiet_answers)
  then obtain w2 s2 where 2: "eeprom_word dev 2 s1 = Some (w2, s2)" "quiet s1 s2" "e1000_at s2 = e1000_at s1"
    using eeprom_ready by blast
  have q: "quiet s s2" using 0 1 2 quiet_trans by blast
  then have "quiet s (set_dev dev f s2)" for f using quiet_trans [OF q quiet_steps(2)] by blast
  then show ?thesis using 0 1 2 by (simp add: e1000_read_mac_from_eeprom_def)
qed

lemma reset_ready:
  assumes "answers (mmio_base (e1000_at s dev)) s"
  shows "\<exists>t. e1000_reset dev s = Some t \<and> quiet s t"
proof -
  have io: "quiet s ((io_wait ^^ n) s) \<and> e1000_at ((io_wait ^^ n) s) = e1000_at s" for n and s :: "'a e1000_scheme"
  proof (induction n)
    case (Suc n)
    have "e1000_at (io_wait u) = e1000_at u" for u :: "'a e1000_scheme" by (simp add: io_wait_def outb_def)
    moreover have "quiet s (io_wait ((io_wait ^^ n) s))"
      by (rule quiet_trans [OF conjunct1 [OF Suc] quiet_steps(7)])
    ultimately show ?case using Suc by simp
  qed simp
  let ?s0 = "update_reg dev E1000_CTRL (\<lambda>v. v OR E1000_CTRL_RST) s"
  let ?s1 = "(io_wait ^^ 1000) ?s0"
  have s1: "quiet s ?s1" "e1000_at ?s1 = e1000_at s" using io [of ?s0 1000] quiet_trans [OF quiet_steps(4)] by auto
  then have a1: "answers (mmio_base (e1000_at ?s1 dev)) ?s1" using assms by (simp add: quiet_answers)
  obtain v s2 where s2: "wait_reg dev E1000_CTRL (\<lambda>v. v AND E1000_CTRL_RST = 0) ?s1 = Some (v, s2)"
      "quiet ?s1 s2" "e1000_at s2 = e1000_at ?s1"
    using wait_reg_ready [of "\<lambda>v. v AND E1000_CTRL_RST = 0" ?s1 dev E1000_CTRL] a1 by (auto simp: answers_def)
  let ?s3 = "snd (e1000_read_reg dev E1000_ICR (e1000_write_reg dev E1000_IMC 0xFFFFFFFF s2))"
  have s3: "quiet s2 ?s3" "e1000_at ?s3 = e1000_at s2"
    using quiet_trans [OF quiet_steps(3) quiet_steps(5)] by (simp_all add: e1000_read_reg_def Let_def)
  have q: "quiet s ?s3" using s1(1) s2(2) s3(1) quiet_trans by blast
  then have "answers (mmio_base (e1000_at ?s3 dev)) ?s3"
    using assms s1(2) s2(3) s3(2) by (simp add: quiet_answers)
  then obtain t where "e1000_read_mac_from_eeprom dev ?s3 = Some t" "quiet ?s3 t" using mac_ready by blast
  then show ?thesis using quiet_trans [OF q] by (simp add: e1000_reset_def Let_def s2(1))
qed

lemma quiet_set_dev: "quiet s t \<Longrightarrow> quiet s (set_dev dev f t)"
  and quiet_write: "quiet s t \<Longrightarrow> quiet s (e1000_write_reg dev reg v t)"
  and quiet_update: "quiet s t \<Longrightarrow> quiet s (update_reg dev reg g t)"
  using quiet_trans quiet_steps by blast+

lemmas quiet_intros = quiet_set_dev quiet_write quiet_update quiet_steps(1)

text \<open>Two allocations in a row in dense memory.\<close>

lemma two_allocs:
  fixes s :: "'a e1000_scheme"
  assumes "dense k s" and "k + 17 \<le> unat (mem_blocks s)"
  obtains p s1 q s3 where "pmm_alloc_blocks desc_pages s = (p, s1)" "p \<noteq> 0"
    and "pmm_alloc_blocks buffer_pages (set_dev dev (f p) s1) = (q, s3)" "q \<noteq> 0"
    and "dense (k + 17) s3" "mem_blocks s3 = mem_blocks s" "reg_in s3 = reg_in s"
proof -
  have n: "unat desc_pages = 1" "desc_pages \<noteq> 0" "unat buffer_pages = 16" "buffer_pages \<noteq> 0"
    by (simp_all add: desc_pages_def buffer_pages_def E1000_NUM_RX_DESC_def E1000_RX_BUFFER_SIZE_def)
  obtain p s1 where p: "pmm_alloc_blocks desc_pages s = (p, s1)" by fastforce
  have 1: "p \<noteq> 0" "dense (k + 1) s1" "mem_blocks s1 = mem_blocks s"
    using dense_alloc [OF assms(1) _ n(2) p] n(1) assms(2) by simp_all
  let ?s2 = "set_dev dev (f p) s1"
  have 2: "dense (k + 1) ?s2" "mem_blocks ?s2 = mem_blocks s" "reg_in ?s2 = reg_in s1"
    using quiet_dense [OF quiet_steps(2) 1(2)] 1(3) by (simp_all add: set_dev_def)
  obtain q s3 where q: "pmm_alloc_blocks buffer_pages ?s2 = (q, s3)" by fastforce
  have 3: "q \<noteq> 0" "dense (k + 17) s3" "mem_blocks s3 = mem_blocks s"
    using dense_alloc [OF 2(1) _ n(4) q] n(3) assms(2) 2(2) by (simp_all add: add.commute)
  have "reg_in t = reg_in u" if "mem_only u t" for t u :: "'a e1000_scheme"
    using that by (auto simp: mem_only_def)
  then have "reg_in s3 = reg_in s"
    using p q 2(3) mem_only_pmm(3) [of s desc_pages] mem_only_pmm(3) [of ?s2 buffer_pages] by (metis snd_conv)
  then show thesis using that p q 1 3 by blast
qed

lemma init_rx_ready:
  assumes "dense k s" and "k + 17 \<le> unat (mem_blocks s)"
  shows "\<exists>t. e1000_init_rx dev s = (True, t) \<and> dense (k + 17) t \<and> mem_blocks t = mem_blocks s"
proof -
  from assms obtain p s1 q s3 where a: "pmm_alloc_blocks desc_pages s = (p, s1)" "p \<noteq> 0"
      "pmm_alloc_blocks buffer_pages (set_dev dev (\<lambda>v. v\<lparr>rx_descs := p\<rparr>) s1) = (q, s3)" "q \<noteq> 0"
    and d: "dense (k + 17) s3" "mem_blocks s3 = mem_blocks s"
    using two_allocs [where f = "\<lambda>p v. v\<lparr>rx_descs := p\<rparr>" and dev = dev] by metis
  obtain t where "e1000_init_rx dev s = (True, t)" "quiet s3 t"
    using a by (simp add: e1000_init_rx_def Let_def quiet_intros)
  then show ?thesis using quiet_dense [OF _ d(1)] d(2) by (auto simp: quiet_def)
qed

lemma init_tx_ready:
  assumes "dense k s" and "k + 17 \<le> unat (mem_blocks s)"
  shows "\<exists>t. e1000_init_tx dev s = (True, t)"
proof -
  from assms obtain p s1 q s3 where a: "pmm_alloc_blocks desc_pages s = (p, s1)" "p \<noteq> 0"
      "pmm_alloc_blocks buffer_pages (set_dev dev (\<lambda>v. v\<lparr>tx_descs := p\<rparr>) s1) = (q, s3)" "q \<noteq> 0"
    using two_allocs [where f = "\<lambda>p v. v\<lparr>tx_descs := p\<rparr>" and dev = dev] by metis
  then show ?thesis by (simp add: e1000_init_tx_def Let_def)
qed

lemma init_ready:
  assumes "dense k s" and "k + 35 \<le> unat (mem_blocks s)" and "answers mmio s"
  shows "\<exists>t. e1000_init iface mmio io s = Some (True, t)"
proof -
  obtain dev s1 where dev: "pmm_alloc_blocks device_pages s = (dev, s1)" by fastforce
  have 1: "dev \<noteq> 0" "dense (k + 1) s1" "mem_blocks s1 = mem_blocks s"
    using dense_alloc [OF assms(1) _ _ dev] assms(2) by (simp_all add: device_pages_def)
  have "reg_in s1 = reg_in s" using dev mem_only_pmm(3) [of s device_pages] by (auto simp: mem_only_def)
  then have "answers mmio s1" using assms(3) by (simp add: answers_def)
  then have "answers (mmio_base (e1000_at (clear_device dev mmio io s1) dev)) (clear_device dev mmio io s1)"
    using quiet_answers [OF quiet_steps(6)] by (simp add: clear_device_def set_dev_def cleared_device_def answers_def)
  then obtain s2 where s2: "e1000_reset dev (clear_device dev mmio io s1) = Some s2"
      and q: "quiet (clear_device dev mmio io s1) s2"
    using reset_ready by blast
  have "quiet s1 s2" by (rule quiet_trans [OF quiet_steps(6) q])
  then have 2: "dense (k + 1) s2" "mem_blocks s2 = mem_blocks s"
    using quiet_dense [OF _ 1(2)] 1(3) by (auto simp: quiet_def)
  obtain s3 where s3: "e1000_init_rx dev s2 = (True, s3)" "dense (k + 1 + 17) s3" "mem_blocks s3 = mem_blocks s2"
    using init_rx_ready [OF 2(1)] 2(2) assms(2) by auto
  obtain s4 where "e1000_init_tx dev s3 = (True, s4)"
    using init_tx_ready [OF s3(2)] s3(3) 2(2) assms(2) by auto
  then show ?thesis using dev 1(1) s2 s3(1) by (simp add: e1000_init_def Let_def)
qed

subsection \<open>The first packet\<close>

lemma wait_tx_hangs: "obeys_ring hw \<Longrightarrow> tx_fresh dev s \<Longrightarrow> wait_tx hw dev s = None"
proof (rule ccontr)
  assume a: "obeys_ring hw" "tx_fresh dev s" "wait_tx hw dev s \<noteq> None"
  then obtain r where r: "wait_tx hw dev s = Some r" by blast
  have "\<not> (obeys_ring hw \<and> tx_fresh dev s)"
  proof (rule wait_tx.raw_induct [where P = "\<lambda>hw dev s r. \<not> (obeys_ring hw \<and> tx_fresh dev s)", OF _ r])
    fix loop :: "('a e1000_scheme \<Rightarrow> 'a e1000_scheme) \<Rightarrow> u32 \<Rightarrow> 'a e1000_scheme \<Rightarrow> 'a e1000_scheme option" and hw dev s r
    assume 1: "\<And>hw dev s r. loop hw dev s = Some r \<Longrightarrow> \<not> (obeys_ring hw \<and> tx_fresh dev s)"
      "(if txd_status (cur_tx dev s) AND 0xFF \<noteq> 0 then Some s else loop hw dev (hw s)) = Some r"
    show "\<not> (obeys_ring hw \<and> tx_fresh dev s)"
    proof
      assume f: "obeys_ring hw \<and> tx_fresh dev s"
      then have k: "reg_out (hw s) = reg_out s \<and> cur_tx dev (hw s) = cur_tx dev s
          \<and> mmio_base (e1000_at (hw s) dev) = mmio_base (e1000_at s dev)"
        unfolding obeys_ring_def tx_fresh_def by blast
      then have "tx_fresh dev (hw s)" using f by (simp add: tx_fresh_def nothing_given_def)
      moreover have "loop hw dev (hw s) = Some r" using 1(2) f by (simp add: tx_fresh_def)
      ultimately show False using 1(1) f by blast
    qed
  qed
  then show False using a by blast
qed

lemma tx_fresh_start:
  assumes "tx_fresh (dev_of s iface) s"
  shows "tx_fresh (dev_of s iface) (snd (e1000_start iface s)) \<and> dev_of (snd (e1000_start iface s)) iface = dev_of s iface
    \<and> packet_at (snd (e1000_start iface s)) = packet_at s"
proof -
  let ?d = "dev_of s iface"
  let ?s = "update_reg ?d E1000_TCTL (\<lambda>v. v OR E1000_TCTL_EN) (update_reg ?d E1000_RCTL (\<lambda>v. v OR E1000_RCTL_EN) s)"
  have f: "tx_fresh ?d ?s" using assms by (simp add: tx_fresh_update reg_numbers)
  have "tx_fresh ?d (e1000_write_reg ?d E1000_IMS v ?s)" for v
    using f nothing_given_reg [of ?d ?s "e1000_write_reg ?d E1000_IMS v ?s" E1000_IMS v]
    by (simp add: tx_fresh_def cur_tx_def reg_numbers)
  then show ?thesis using assms
    by (cases "?d = 0") (simp_all add: e1000_start_def e1000_enable_interrupts_def Let_def)
qed

text \<open>C12: the network card comes up mute.  When the card answers and memory is in use only up
  to some block with 35 more behind it, \<open>e1000_init\<close> returns and reports success; but the
  transmit descriptors start with status 0, which only the card changes and only for descriptors
  it was given, so the first packet of an acceptable size is waited for forever, whether the
  card has been started or not.  And since the device structure it leaves in the interface has
  no operations, \<open>eth_start_device\<close> always fails on it.\<close>

theorem e1000_comes_up_mute:
  assumes "dense k s" and "k + 35 \<le> unat (mem_blocks s)" and "answers mmio s"
  shows "\<exists>t. e1000_init iface mmio io s = Some (True, t)
    \<and> (\<forall>hw packet. obeys_ring hw \<and> packet \<noteq> 0 \<and> pkt_length (packet_at t packet) \<le> 2048 \<longrightarrow>
        e1000_send_packet hw iface packet t = None
        \<and> e1000_send_packet hw iface packet (snd (e1000_start iface t)) = None)
    \<and> eth_start_device d iface t = (False, t)"
proof -
  obtain t where t: "e1000_init iface mmio io s = Some (True, t)" using init_ready [OF assms] by blast
  note up = e1000_init_success [OF t]
  have "e1000_send_packet hw iface packet u = None"
    if "obeys_ring hw" "packet \<noteq> 0" "pkt_length (packet_at u packet) \<le> 2048" "tx_fresh (dev_of u iface) u" "dev_of u iface \<noteq> 0"
    for hw packet and u :: "'a e1000_scheme"
    using that wait_tx_hangs [of hw "dev_of u iface" u]
    by (simp add: e1000_send_packet_def Let_def E1000_TX_BUFFER_SIZE_def not_less)
  moreover have "eth_start_device d iface t = (False, t)"
    using up by (simp add: eth_start_device_def no_eth_device_def Let_def)
  ultimately show ?thesis using t up tx_fresh_start [of t iface] by auto
qed

subsection \<open>A machine with 64 blocks\<close>

definition sample_e1000 :: e1000 where
  "sample_e1000 =
     \<lparr>mem = (\<lambda>a. if a = 0x40000 then 0xF else 0), klog = [], port_out = [],
      port_in = (\<lambda>_ _. 0), port_reads = (\<lambda>_. 0), interrupt_handlers = [], pmm_memory_map = 0x40000,
      pmm_memory_map_size = 2, mem_size = 0x40000, mem_blocks = 64, mem_used_blocks = 4,
      mem_max_addr = 0x40000, interfaces = 0x100, interface_count = 1, protocol_handlers = (\<lambda>_. 0),
      packet_pool = 0, packet_pool_size = 0, iface_at = (\<lambda>_. sample_iface),
      packet_at = (\<lambda>_. sample_packet), eth_at = (\<lambda>_. no_eth_device),
      e1000_at = undefined, reg_in = (\<lambda>a _. if a = 0xF0000014 then 0x10 else 0), reg_reads = (\<lambda>_. 0), reg_out = []\<rparr>"

lemma sample_e1000_dense: "dense 4 sample_e1000"
proof -
  have test: "pmm_test_block b sample_e1000 \<longleftrightarrow> unat b < 4" if "b < 64" for b
  proof -
    have "unat b div 32 < 2" using that by (simp add: word_less_nat_alt less_mult_imp_div_less)
    then have c: "unat (b div 32) = unat b div 32" "unat b div 32 = 0 \<or> unat b div 32 = 1" by (auto simp: unat_div)
    have bits: "bit (15 :: int) n \<longleftrightarrow> n < 4" for n
      using bit_mask_iff [of 4 n, where 'a = int] by (simp add: mask_eq_exp_minus_1)
    show ?thesis
    proof (cases "unat b < 32")
      case True
      then have "b div 32 = 0" using c(1) by (intro word_unat_eqI) simp
      then show ?thesis using True bits
        by (simp add: pmm_test_block_bit sample_e1000_def bm_addr_def rd32_def unat_mod)
    next
      case False
      then have "unat b div 32 = 1" using c(2) by auto
      then have "b div 32 = 1" using c(1) by (intro word_unat_eqI) simp
      then show ?thesis using False by (simp add: pmm_test_block_bit sample_e1000_def bm_addr_def rd32_def)
    qed
  qed
  have "unat b < 4 \<Longrightarrow> b < 64" for b :: u32 by (simp add: word_less_nat_alt)
  then have used: "used_set sample_e1000 = {b. unat b < 4}"
    using test by (auto simp: used_set_def) (simp_all add: sample_e1000_def)
  have "{b :: u32. unat b < 4} = {0, 1, 2, 3}" 
  proof (intro set_eqI iffI)
    fix b :: u32
    assume "b \<in> {b. unat b < 4}"
    then have "unat b \<in> {0, 1, 2, 3}" by auto
    then have "of_nat (unat b) \<in> (of_nat ` {0, 1, 2, 3} :: u32 set)" by blast
    then show "b \<in> {0, 1, 2, 3}" by simp
  qed auto
  then have "card (used_set sample_e1000) = 4" by (simp add: used)
  then show ?thesis using used
    unfolding dense_def pmm_inv_def by (simp add: pmm_geom_def sample_e1000_def)
qed

theorem e1000_comes_up_mute_witness:
  "\<exists>t. e1000_init 0x100 0xF0000000 0 sample_e1000 = Some (True, t)
     \<and> (packet_at t 0x2000 = sample_packet \<longrightarrow> e1000_send_packet id 0x100 0x2000 t = None)"
proof -
  have "answers 0xF0000000 sample_e1000"
    by (simp add: answers_def sample_e1000_def E1000_CTRL_def E1000_EERD_def)
  moreover have "4 + 35 \<le> unat (mem_blocks sample_e1000)" by (simp add: sample_e1000_def)
  moreover have "obeys_ring (id :: e1000 \<Rightarrow> e1000)" by (simp add: obeys_ring_def)
  moreover have "pkt_length sample_packet \<le> 2048" by (simp add: sample_packet_def)
  ultimately show ?thesis
    using e1000_comes_up_mute [OF sample_e1000_dense, of "0xF0000000" "0x100" 0] by force
qed

end
