(* ===== verification/E1000_Rx.thy ===== *)
theory E1000_Rx
  imports E1000_Up
begin

text \<open>What a call of \<open>e1000_receive_packet\<close> does, and how the receive ring gets stuck.\<close>

abbreviation dd_set :: "u32 \<Rightarrow> 'a e1000_scheme \<Rightarrow> bool" where
  "dd_set dev s \<equiv> rxd_status (cur_rx dev s) AND E1000_RXD_STAT_DD \<noteq> 0"

lemma set_dev_compose: "set_dev dev f (set_dev dev g s) = set_dev dev (f \<circ> g) s"
  by (simp add: set_dev_def)

lemma cur_rx_error [simp]: "cur_rx dev (count_rx_error dev s) = cur_rx dev s"
  by (simp add: cur_rx_def count_rx_error_def)

lemma iface_at_error [simp]: "iface_at (count_rx_error dev s) = iface_at s"
  by (simp add: count_rx_error_def)

text \<open>A frame longer than a network packet: nothing but the error counter changes.\<close>

lemma receive_oversized:
  assumes "dev_of s iface \<noteq> 0" and "dd_set (dev_of s iface) s" and "1518 < rxd_length (cur_rx (dev_of s iface) s)"
  shows "e1000_receive_packet iface s = (0, count_rx_error (dev_of s iface) s)"
proof -
  let ?len = "rxd_length (cur_rx (dev_of s iface) s)"
  have "NET_MAX_PACKET_SIZE < ucast ?len"
    using assms(3) by (simp add: NET_MAX_PACKET_SIZE_def word_less_nat_alt unsigned_ucast_eq take_bit_nat_eq_self
        order.strict_trans [OF unsigned_less])
  then have "net_alloc_packet (ucast ?len) s = (0, s)" by (simp add: net_alloc_packet_def)
  then show ?thesis using assms(1,2) by (simp add: e1000_receive_packet_def Let_def)
qed

lemma receive_oversized_again:
  assumes "dev_of s iface = dev" "dev \<noteq> 0" "dd_set dev s" "1518 < rxd_length (cur_rx dev s)"
  shows "((snd \<circ> e1000_receive_packet iface) ^^ n) s = (count_rx_error dev ^^ n) s
    \<and> fst (e1000_receive_packet iface (((snd \<circ> e1000_receive_packet iface) ^^ n) s)) = 0"
proof -
  have same: "iface_at ((count_rx_error dev ^^ n) s) = iface_at s" "cur_rx dev ((count_rx_error dev ^^ n) s) = cur_rx dev s"
    for n by (induction n) simp_all
  have step: "e1000_receive_packet iface ((count_rx_error dev ^^ n) s) = (0, (count_rx_error dev ^^ Suc n) s)" for n
    using receive_oversized [of "(count_rx_error dev ^^ n) s" iface] assms by (simp add: same)
  have "((snd \<circ> e1000_receive_packet iface) ^^ n) s = (count_rx_error dev ^^ n) s" for n
    by (induction n) (simp_all add: step del: funpow.simps, simp_all add: step)
  then show ?thesis by (simp add: step)
qed

text \<open>A frame that fits, with two free blocks for the packet.\<close>

lemma receive_good:
  assumes inv: "pmm_inv s" and dev: "dev_of s iface = dev" "dev \<noteq> 0" and dd: "dd_set dev s"
    and len: "rxd_length (cur_rx dev s) = len" "0 < len" "len \<le> 1518" and room: "2 \<le> free_count s"
    and result: "e1000_receive_packet iface s = (p, t)"
  shows "p \<noteq> 0 \<and> p \<notin> owned_pages s \<and> owned_pages s \<subseteq> owned_pages t \<and> pkt_length (packet_at t p) = ucast len
    \<and> get_at 0 (unat len) (pkt_data (packet_at t p)) = bytes_at (ucast (rxd_addr (cur_rx dev s))) (unat len) t
    \<and> (let v = e1000_at s dev; i = unat (rx_cur v) in
         e1000_at t dev = v\<lparr>rx_ring := (rx_ring v)(i := (rx_ring v i)\<lparr>rxd_status := 0\<rparr>),
           rx_cur := (rx_cur v + 1) mod 32, dev_rx_packets := dev_rx_packets v + 1,
           dev_rx_bytes := dev_rx_bytes v + ucast len\<rparr>
         \<and> reg_out t = reg_out s @ [(mmio_base v + E1000_RDT, rx_cur v)])"
proof -
  have u: "unat (ucast len :: u32) = unat len"
    by (simp add: unsigned_ucast_eq take_bit_nat_eq_self order.strict_trans [OF unsigned_less])
  have sz: "0 < (ucast len :: u32)" "ucast len \<le> NET_MAX_PACKET_SIZE" "\<not> E1000_RX_BUFFER_SIZE < (ucast len :: u32)"
    using len(2,3) by (simp_all add: word_less_nat_alt word_le_nat_alt u NET_MAX_PACKET_SIZE_def E1000_RX_BUFFER_SIZE_def)
  obtain q s1 where q: "net_alloc_packet (ucast len) s = (q, s1)" by fastforce
  note cases = net_alloc_packet_cases [OF inv sz(1,2) q]
  have nz: "q \<noteq> 0" using cases(3) room by blast
  have fresh: "fresh_packet (ucast len) q s s1" using cases(2) nz by blast
  have more: "e1000_at s1 = e1000_at s" "reg_out s1 = reg_out s" using cases(1) by (cases s; cases s1; simp)+
  have cur: "cur_rx dev s1 = cur_rx dev s" "dev_of s1 iface = dev"
    using more cases(1) dev(1) by (simp_all add: cur_rx_def)
  let ?bytes = "bytes_at (ucast (rxd_addr (cur_rx dev s))) (unat len) s1"
  let ?s2 = "set_packet q (\<lambda>p. p\<lparr>pkt_data := put_at 0 ?bytes (pkt_data p), pkt_length := ucast len\<rparr>) s1"
  let ?f = "\<lambda>v. v\<lparr>dev_rx_packets := dev_rx_packets v + 1, dev_rx_bytes := dev_rx_bytes v + ucast len,
      rx_ring := (rx_ring v)(unat (rx_cur (e1000_at s dev)) := (rx_ring v (unat (rx_cur (e1000_at s dev))))\<lparr>rxd_status := 0\<rparr>),
      rx_cur := (rx_cur (e1000_at s dev) + 1) mod E1000_NUM_RX_DESC\<rparr>"
  have e2: "e1000_at ?s2 = e1000_at s" "reg_out ?s2 = reg_out s" by (simp_all add: set_packet_def more)
  have pt: "p = q" "t = e1000_write_reg dev E1000_RDT (rx_cur (e1000_at s dev)) (set_dev dev ?f ?s2)"
  proof -
    have "e1000_receive_packet iface s = (q, e1000_write_reg dev E1000_RDT (rx_cur (e1000_at s dev)) (set_dev dev ?f ?s2))"
      using dev(2) dd sz(3) nz unfolding e1000_receive_packet_def Let_def dev(1) len(1) q prod.case e2 by simp
    then show "p = q" "t = e1000_write_reg dev E1000_RDT (rx_cur (e1000_at s dev)) (set_dev dev ?f ?s2)"
      using result by simp_all
  qed
  have t: "owned_pages t = owned_pages s1" "packet_at t = packet_at ?s2" "mem t = mem s1"
    unfolding pt(2) by (simp_all add: e1000_write_reg_def set_dev_def set_packet_def owned_pages_def used_set_def
      pmm_test_block_def bm_addr_def rd32_def)
  have bytes: "bytes_at a n t = bytes_at a n s1" for a n
    by (simp add: bytes_at_def get_byte_def rd32_def t(3))
  have "e1000_at t dev = ?f (e1000_at s dev)" "reg_out t = reg_out s @ [(mmio_base (e1000_at s dev) + E1000_RDT, rx_cur (e1000_at s dev))]"
    unfolding pt(2) by (simp_all add: e2)
  moreover have "length ?bytes = unat len" by (simp add: bytes_at_def)
  ultimately show ?thesis
    using nz fresh by (simp add: pt(1) t(1,2) bytes fresh_packet_def Let_def E1000_NUM_RX_DESC_def)
qed

text \<open>C29: one call takes one frame, or is stuck for good.  When the current descriptor is not
  done, nothing happens.  When it holds a frame of at most 1518 bytes and two blocks are free,
  the call returns a fresh packet with exactly the bytes of the buffer, clears that descriptor,
  moves to the next and hands the slot back through the tail register.  But when it holds a
  longer one (the driver lets up to 2048 through, a packet holds 1518), the descriptor stays as
  it is, and this and all later calls return nothing and only count errors.\<close>

theorem e1000_receive_or_stuck:
  assumes "pmm_inv s" and "dev_of s iface = dev" and "dev \<noteq> 0" and "rxd_length (cur_rx dev s) = len"
    and "e1000_receive_packet iface s = (p, t)"
  shows "(\<not> dd_set dev s \<longrightarrow> p = 0 \<and> t = s)
    \<and> (dd_set dev s \<and> 0 < len \<and> len \<le> 1518 \<and> 2 \<le> free_count s \<longrightarrow>
        p \<noteq> 0 \<and> p \<notin> owned_pages s \<and> owned_pages s \<subseteq> owned_pages t \<and> pkt_length (packet_at t p) = ucast len
        \<and> get_at 0 (unat len) (pkt_data (packet_at t p)) = bytes_at (ucast (rxd_addr (cur_rx dev s))) (unat len) t
        \<and> (let v = e1000_at s dev; i = unat (rx_cur v) in
             e1000_at t dev = v\<lparr>rx_ring := (rx_ring v)(i := (rx_ring v i)\<lparr>rxd_status := 0\<rparr>),
               rx_cur := (rx_cur v + 1) mod 32, dev_rx_packets := dev_rx_packets v + 1,
               dev_rx_bytes := dev_rx_bytes v + ucast len\<rparr>
             \<and> reg_out t = reg_out s @ [(mmio_base v + E1000_RDT, rx_cur v)]))
    \<and> (dd_set dev s \<and> 1518 < len \<longrightarrow> p = 0 \<and>
        (\<forall>n. ((snd \<circ> e1000_receive_packet iface) ^^ n) s = (count_rx_error dev ^^ n) s
          \<and> fst (e1000_receive_packet iface (((snd \<circ> e1000_receive_packet iface) ^^ n) s)) = 0))"
proof (intro conjI)
  show "\<not> dd_set dev s \<longrightarrow> p = 0 \<and> t = s"
    using assms by (auto simp: e1000_receive_packet_def Let_def)
qed (use receive_good [OF assms(1-3) _ assms(4) _ _ _ assms(5)] in blast,
     use receive_oversized_again [OF assms(2,3)] receive_oversized assms in fastforce)

definition stuck_e1000 :: e1000 where
  "stuck_e1000 = set_dev 0x5000 (\<lambda>_. (cleared_device 0xF0000000 0 undefined)\<lparr>rx_ring := (\<lambda>_.
       \<lparr>rxd_addr = 0x8000, rxd_length = 2000, rxd_checksum = 0, rxd_status = 3, rxd_errors = 0, rxd_special = 0\<rparr>)\<rparr>)
     (set_iface 0x100 (\<lambda>i. i\<lparr>driver_data := 0x5000\<rparr>) sample_e1000)"

theorem e1000_receive_or_stuck_witness:
  "fst (e1000_receive_packet 0x100 (((snd \<circ> e1000_receive_packet 0x100) ^^ 7) stuck_e1000)) = 0"
proof -
  have "pmm_inv (set_iface 0x100 (\<lambda>i. i\<lparr>driver_data := 0x5000\<rparr>) sample_e1000)"
    using sample_e1000_dense by (simp add: dense_def)
  then have inv: "pmm_inv stuck_e1000"
    by (simp add: stuck_e1000_def set_dev_def pmm_inv_def pmm_geom_def used_set_def pmm_test_block_def bm_addr_def rd32_def)
  have f: "dev_of stuck_e1000 0x100 = 0x5000" "rxd_length (cur_rx 0x5000 stuck_e1000) = 2000" "dd_set 0x5000 stuck_e1000"
    by (simp_all add: stuck_e1000_def set_dev_def set_iface_def cur_rx_def cleared_device_def E1000_RXD_STAT_DD_def)
  have "(0x5000 :: u32) \<noteq> 0" "(1518 :: u16) < 2000" by simp_all
  then show ?thesis
    using e1000_receive_or_stuck [OF inv f(1) _ f(2) prod.collapse [symmetric]] f(3) by blast
qed

end
