(* ===== verification/Kernel.thy ===== *)
theory Kernel
  imports Pmm_Init Scheduler Console_Line Descriptors
begin

text \<open>
  The start of the kernel, core/kmain.c, and of its C++ runtime, core/cppcrt.cpp.  The state
  is the machine with its handler table (\<open>base\<close>) and what the console drivers and the memory
  and process managers add to it; \<open>as_console\<close> and \<open>as_sched\<close> are the states those components
  work on, so that memory, ports and handlers are shared.  The managers log what they print;
  the log is shown on the screen when they return.  Constructors, the idle function, the
  addresses the linker chooses and the page directory in use at the start are parameters.
\<close>

subsection \<open>State\<close>

type_synonym console_part = "unit console_ext keyboard_ext vga_ext"
type_synonym sched_part = "unit sched_ext vmm_ext pmm_ext"

record kernel =
  base :: interrupts
  con_part :: console_part
  mem_part :: sched_part
  kernel_idt :: idt
  interrupts_on :: bool

definition as_console :: "kernel \<Rightarrow> console" where
  "as_console k = interrupts.extend (base k) (con_part k)"

definition as_sched :: "kernel \<Rightarrow> sched" where
  "as_sched k = interrupts.extend (base k) (mem_part k)"

definition on_console :: "(console \<Rightarrow> console option) \<Rightarrow> kernel \<Rightarrow> kernel option" where
  "on_console f k = map_option (\<lambda>s. k\<lparr>base := interrupts.truncate s, con_part := interrupts.more s\<rparr>) (f (as_console k))"

text \<open>What the log holds, on the screen.\<close>

fun show_log :: "diag list \<Rightarrow> 'a vga_scheme \<Rightarrow> 'a vga_scheme option" where
  "show_log [] s = Some s"
| "show_log (d # log) s = Option.bind
     (case d of Puts str \<Rightarrow> vga_puts str s | Put_int n \<Rightarrow> vga_putint n s | Put_hex n \<Rightarrow> vga_puthex n s) (show_log log)"

definition on_sched :: "(sched \<Rightarrow> sched option) \<Rightarrow> kernel \<Rightarrow> kernel option" where
  "on_sched f k = Option.bind (f ((as_sched k)\<lparr>klog := []\<rparr>)) (\<lambda>s.
     on_console (show_log (klog s)) (k\<lparr>base := interrupts.truncate s, mem_part := interrupts.more s\<rparr>))"

abbreviation say :: "string \<Rightarrow> kernel \<Rightarrow> kernel option" where
  "say str \<equiv> on_console (vga_puts (str @ newline))"

subsection \<open>The C++ runtime (cppcrt.cpp)\<close>

definition init_cppcrt :: "(kernel \<Rightarrow> kernel) list \<Rightarrow> kernel \<Rightarrow> kernel" where
  "init_cppcrt ctors k = fold (\<lambda>f. f) ctors k"

definition operator_new :: "u32 \<Rightarrow> u32" where
  "operator_new sz = 0"

definition operator_delete :: "u32 \<Rightarrow> kernel \<Rightarrow> kernel" where
  "operator_delete p k = k"

text \<open>A loop without end.\<close>

definition cxa_pure_virtual :: "kernel \<Rightarrow> kernel outcome" where
  "cxa_pure_virtual k = Halted k"

definition cxa_atexit :: "u32 \<Rightarrow> u32 \<Rightarrow> u32 \<Rightarrow> kernel \<Rightarrow> kernel" where
  "cxa_atexit f p d k = k"

definition cxa_guard_acquire :: "u64 \<Rightarrow> bool" where
  "cxa_guard_acquire guard_object \<longleftrightarrow> guard_object AND 1 = 0"

definition cxa_guard_release :: "u64 \<Rightarrow> u64" where
  "cxa_guard_release guard_object = guard_object OR 1"

definition cxa_guard_abort :: "u64 \<Rightarrow> u64" where
  "cxa_guard_abort guard_object = guard_object"

subsection \<open>The commands\<close>

definition help_command :: "string list \<Rightarrow> 'a console_scheme \<Rightarrow> (u32 \<times> 'a console_scheme) option" where
  "help_command argv s =
     Option.bind (console_puts (''REXUS Kernel Commands:'' @ newline) s) (\<lambda>s1.
     Option.bind (console_puts (''  help     - Display this help text'' @ newline) s1) (\<lambda>s2.
     Option.bind (console_puts (''  clear    - Clear the screen'' @ newline) s2) (\<lambda>s3.
     Option.bind (console_puts (''  info     - Display system information'' @ newline) s3) (\<lambda>s4.
     Option.bind (console_puts (''  echo     - Display text'' @ newline) s4) (\<lambda>s5.
     map_option (Pair 0) (console_puts (''  meminfo  - Display memory information'' @ newline) s5))))))"

definition clear_command :: "string list \<Rightarrow> 'a console_scheme \<Rightarrow> (u32 \<times> 'a console_scheme) option" where
  "clear_command argv s = Some (0, console_clear s)"

definition info_command :: "string list \<Rightarrow> 'a console_scheme \<Rightarrow> (u32 \<times> 'a console_scheme) option" where
  "info_command argv s =
     Option.bind (console_puts (''REXUS Kernel - A specialized kernel for embedded systems'' @ newline) s) (\<lambda>s1.
     Option.bind (console_puts (''Version: 0.1.0'' @ newline) s1) (\<lambda>s2.
     Option.bind (console_puts (''Architecture: x86'' @ newline) s2) (\<lambda>s3.
     map_option (Pair 0) (console_puts
       (''Features: Memory Management, Process Scheduling, Console'' @ newline) s3))))"

text \<open>The loop over the arguments, with a blank between them.\<close>

fun echo_args :: "string list \<Rightarrow> 'a console_scheme \<Rightarrow> 'a console_scheme option" where
  "echo_args [] s = Some s"
| "echo_args (arg # args) s = Option.bind (console_puts arg s) (\<lambda>t.
     Option.bind (if args \<noteq> [] then console_putchar CHR '' '' t else Some t) (echo_args args))"

definition echo_command :: "string list \<Rightarrow> 'a console_scheme \<Rightarrow> (u32 \<times> 'a console_scheme) option" where
  "echo_command argv s = Option.bind (echo_args (tl argv) s) (\<lambda>t. map_option (Pair 0) (console_putchar CHR 0x0A t))"

text \<open>\<open>m\<close> is the state of the physical memory manager.\<close>

definition meminfo_command ::
  "'b pmm_scheme \<Rightarrow> string list \<Rightarrow> 'a console_scheme \<Rightarrow> (u32 \<times> 'a console_scheme) option"
where
  "meminfo_command m argv s =
     (let total_mem = pmm_get_memory_size m;
          used_mem = pmm_get_used_block_count m * 4096;
          free_mem = pmm_get_free_block_count m * 4096
      in Option.bind (console_printf (''Memory Information:'' @ newline) [] s) (\<lambda>s1.
         Option.bind (console_printf (''  Total: %d KB (%d MB)'' @ newline)
            [Arg_int (total_mem div 1024), Arg_int (total_mem div 1024 div 1024)] s1) (\<lambda>s2.
         Option.bind (console_printf (''  Used:  %d KB (%d MB)'' @ newline)
            [Arg_int (used_mem div 1024), Arg_int (used_mem div 1024 div 1024)] s2) (\<lambda>s3.
         map_option (Pair 0) (console_printf (''  Free:  %d KB (%d MB)'' @ newline)
            [Arg_int (free_mem div 1024), Arg_int (free_mem div 1024 div 1024)] s3)))))"

subsection \<open>Start\<close>

text \<open>What the linker chose, and code of others.\<close>

record link =
  gdt_ptr_at :: u32
  gdt_entries_at :: u32
  tss_at :: u32
  idt_ptr_at :: u32
  idt_entries_at :: u32
  isr_stub :: "u8 \<Rightarrow> u32"
  idle_entry :: u32
  help_at :: u32
  clear_at :: u32
  info_at :: u32
  echo_at :: u32
  meminfo_at :: u32
  constructors :: "(kernel \<Rightarrow> kernel) list"

datatype boot = Running kernel | Bad_magic kernel

text \<open>The page directory of boot.asm: the first 4 MiB at address 0 and at 3 GiB, in pages of 4 MiB;
  its first entry is cleared again before \<open>kmain\<close> is called.\<close>

definition boot_page_directory :: "u32 list" where
  "boot_page_directory = 0x83 # replicate 767 0 @ 0x83 # replicate 255 0"

definition unmap_identity :: "u32 list \<Rightarrow> u32 list" where
  "unmap_identity dir = dir[0 := 0]"

text \<open>The physical address of a linear one; \<open>None\<close> is a page fault.  An entry maps a page of 4 MiB
  when its bits 0 (present) and 7 (page size) are set.\<close>

definition translate :: "u32 list \<Rightarrow> u32 \<Rightarrow> u32 option" where
  "translate dir a =
     (let e = dir ! unat (a div 0x400000)
      in if bit e 0 \<and> bit e 7 then Some (e div 0x400000 * 0x400000 + a mod 0x400000) else None)"

text \<open>Every address is its own physical address.\<close>

definition flat :: "u32 list \<Rightarrow> bool" where
  "flat dir \<longleftrightarrow> list_all (\<lambda>i. bit (dir ! i) 0 \<and> bit (dir ! i) 7 \<and> dir ! i div 0x400000 = of_nat i) [0..<1024]"

text \<open>\<open>None\<close> in place of a state is undefined behaviour.  A wrong magic number ends in a halt.\<close>

definition parse_multiboot :: "u32 \<Rightarrow> kernel \<Rightarrow> (bool \<times> kernel) option" where
  "parse_multiboot magic k =
     (if magic \<noteq> 0x2BADB002 then map_option (Pair False) (say ''Invalid multiboot magic number!'' k)
      else map_option (Pair True) (say ''Multiboot information validated.'' k))"

definition init_tables :: "link \<Rightarrow> kernel \<Rightarrow> kernel option" where
  "init_tables l k =
     Option.bind (say ''Initializing GDT...'' k) (\<lambda>k1.
     Option.bind (on_sched (\<lambda>s. map_option (\<lambda>g. s\<lparr>kernel_gdt := g\<rparr>)
        (gdt_init (gdt_ptr_at l) (gdt_entries_at l) (tss_at l) (kernel_gdt s))) k1) (\<lambda>k2.
     Option.bind (say ''Initializing IDT...'' k2) (\<lambda>k3.
     Option.bind (say ''Setting up ISRs...''
        (k3\<lparr>kernel_idt := idt_init (idt_ptr_at l) (idt_entries_at l) (isr_stub l) (kernel_idt k3)\<rparr>)) (\<lambda>k4.
     Option.bind (say ''Remapping PIC...'' (k4\<lparr>base := isr_init (base k4)\<rparr>)) (\<lambda>k5.
     Some (k5\<lparr>base := pic_remap 0x20 0x28 (base k5)\<rparr>))))))"

definition init_memory :: "u32 \<Rightarrow> kernel \<Rightarrow> kernel option" where
  "init_memory mboot_addr k =
     Option.bind (say ''Initializing physical memory manager...'' k) (\<lambda>k1.
     Option.bind (on_sched (pmm_init mboot_addr) k1) (\<lambda>k2.
     Option.bind (say ''Initializing virtual memory manager...'' k2)
       (on_sched (\<lambda>s. Some (vmm_init s)))))"

definition init_services :: "link \<Rightarrow> kernel \<Rightarrow> kernel option" where
  "init_services l k =
     Option.bind (say ''Initializing keyboard driver...'' (init_cppcrt (constructors l) k)) (\<lambda>k1.
     Option.bind (on_console keyboard_init k1) (\<lambda>k2.
     Option.bind (say ''Initializing process management...'' k2) (\<lambda>k3.
     Option.bind (on_sched (\<lambda>s. Some (process_init (idle_entry l) s)) k3) (\<lambda>k4.
     Option.bind (say ''Enabling interrupts...'' k4) (\<lambda>k5.
     say (''REXUS Kernel initialized successfully!'' @ newline) (k5\<lparr>interrupts_on := True\<rparr>))))))"

definition kernel_commands :: "link \<Rightarrow> console_command list" where
  "kernel_commands l =
     [\<lparr>cmd_name = ''help'', cmd_description = ''Display available commands'', cmd_handler = help_at l\<rparr>,
      \<lparr>cmd_name = ''clear'', cmd_description = ''Clear the screen'', cmd_handler = clear_at l\<rparr>,
      \<lparr>cmd_name = ''info'', cmd_description = ''Display system information'', cmd_handler = info_at l\<rparr>,
      \<lparr>cmd_name = ''echo'', cmd_description = ''Display text'', cmd_handler = echo_at l\<rparr>,
      \<lparr>cmd_name = ''meminfo'', cmd_description = ''Display memory information'', cmd_handler = meminfo_at l\<rparr>]"

definition start_console :: "link \<Rightarrow> kernel \<Rightarrow> kernel option" where
  "start_console l = on_console (\<lambda>s.
     map_option (fold console_register_command (kernel_commands l)) (console_init s))"

text \<open>\<open>kmain\<close> up to its main loop, entered with page directory \<open>dir\<close>.  Its first access to memory
  outside the kernel is the store of \<open>vga_init\<close> to the first cell of the screen: a page fault, for
  which there is no handler yet, if that address is not mapped.  What follows addresses memory by
  physical address (the multiboot structures, the bitmap), which the flat memory of the model
  describes when the mapping is flat; any other mapping is \<open>None\<close> too.\<close>

definition VGA_ADDR :: u32 where "VGA_ADDR = 0xB8000"

definition kmain :: "u32 list \<Rightarrow> link \<Rightarrow> u32 \<Rightarrow> u32 \<Rightarrow> kernel \<Rightarrow> boot option" where
  "kmain dir l magic mboot_addr k =
     (if translate dir VGA_ADDR \<noteq> Some VGA_ADDR then None
      else Option.bind (on_console (\<lambda>s. vga_puts (''REXUS Kernel booting...'' @ newline) (vga_init s)) k) (\<lambda>k1.
           Option.bind (parse_multiboot magic k1) (\<lambda>(valid, k2).
             if \<not> valid then Some (Bad_magic k2)
             else if \<not> flat dir then None
             else Option.bind (init_tables l k2) (\<lambda>k3.
                  Option.bind (init_memory mboot_addr k3) (\<lambda>k4.
                  Option.bind (init_services l k4) (\<lambda>k5.
                  map_option Running (start_console l k5)))))))"

text \<open>The main loop: the console is updated after every interrupt that ends a \<open>hlt\<close>.  Commands
  are called through their addresses; code at other addresses is the parameter \<open>other\<close>.\<close>

definition run_command ::
  "link \<Rightarrow> 'b pmm_scheme \<Rightarrow> (u32 \<Rightarrow> string list \<Rightarrow> 'a console_scheme \<Rightarrow> (u32 \<times> 'a console_scheme) option)
    \<Rightarrow> u32 \<Rightarrow> string list \<Rightarrow> 'a console_scheme \<Rightarrow> (u32 \<times> 'a console_scheme) option"
where
  "run_command l m other a argv s =
     (if a = help_at l then help_command argv s
      else if a = clear_at l then clear_command argv s
      else if a = info_at l then info_command argv s
      else if a = echo_at l then echo_command argv s
      else if a = meminfo_at l then meminfo_command m argv s
      else other a argv s)"

fun main_loop ::
  "link \<Rightarrow> (u32 \<Rightarrow> string list \<Rightarrow> console \<Rightarrow> (u32 \<times> console) option) \<Rightarrow> (kernel \<Rightarrow> kernel option) list
    \<Rightarrow> kernel \<Rightarrow> kernel option"
where
  "main_loop l other [] k = on_console (console_update (run_command l (as_sched k) other)) k"
| "main_loop l other (irq # irqs) k =
     Option.bind (on_console (console_update (run_command l (as_sched k) other)) k) (\<lambda>t.
       Option.bind (irq t) (main_loop l other irqs))"

end
