(* ===== verification/Kernel_Start.thy ===== *)
theory Kernel_Start
  imports Kernel
begin

text \<open>
  The parts of the machine the stages of \<open>kmain\<close> leave alone: the screen changes only the
  log of the ports, and \<open>pmm_init\<close> depends on memory and its own fields only.
\<close>

subsection \<open>The screen does not touch the rest of the machine\<close>

text \<open>Of the machine below the screen only the port log changes.\<close>

definition ports_only :: "'a interrupts_scheme \<Rightarrow> 'b interrupts_scheme \<Rightarrow> bool" where
  "ports_only s t \<longleftrightarrow> (\<exists>p. interrupts.truncate t = (interrupts.truncate s)\<lparr>port_out := p\<rparr>)"

lemma ports_only_refl [simp]: "ports_only s s"
  unfolding ports_only_def by (rule exI [of _ "port_out s"]) (simp add: interrupts.truncate_def)

lemma ports_only_trans: "ports_only s t \<Longrightarrow> ports_only t u \<Longrightarrow> ports_only s u"
  unfolding ports_only_def by (elim exE) (simp add: interrupts.truncate_def)

lemma ports_only_outb: "ports_only s t \<Longrightarrow> ports_only s (outb port v t)"
  unfolding ports_only_def by (elim exE) (auto simp: interrupts.truncate_def outb_def)

lemma ports_only_vga:
  "ports_only s t \<Longrightarrow> ports_only s (t\<lparr>vga_buffer := b\<rparr>)" "ports_only s t \<Longrightarrow> ports_only s (t\<lparr>vga_col := c\<rparr>)"
  "ports_only s t \<Longrightarrow> ports_only s (t\<lparr>vga_row := c\<rparr>)" "ports_only s t \<Longrightarrow> ports_only s (t\<lparr>vga_curr_color := x\<rparr>)"
  "ports_only s t \<Longrightarrow> ports_only s (set_cell i v t)"
  by (simp_all add: ports_only_def interrupts.truncate_def set_cell_def)

lemma ports_only_cursor: "ports_only s t \<Longrightarrow> ports_only s (vga_update_cursor t)"
  unfolding vga_update_cursor_def Let_def by (intro ports_only_outb)

lemma ports_only_next_row: "ports_only s t \<Longrightarrow> ports_only s (next_row t)"
  by (auto simp: next_row_def scroll_effect Let_def intro!: ports_only_vga)

lemma ports_only_putchar: "vga_putchar c s = Some t \<Longrightarrow> ports_only s t"
  by (auto simp: vga_putchar_def Let_def split: if_splits
      intro!: ports_only_cursor ports_only_next_row ports_only_vga)

lemma ports_only_puts: "vga_puts str s = Some t \<Longrightarrow> ports_only s t"
proof (induction str arbitrary: s)
  case (Cons c str)
  then obtain u where "vga_putchar c s = Some u" "vga_puts str u = Some t" by (auto split: bind_splits)
  then show ?case using Cons.IH ports_only_putchar ports_only_trans by blast
qed simp

lemma for_int_invariant:
  assumes "P s" and "\<And>i t. P t \<Longrightarrow> P (body i t)"
  shows "P (for_int n body s)"
proof -
  have "P s \<Longrightarrow> P (fold body xs s)" for xs
    by (induction xs arbitrary: s) (simp_all add: assms(2))
  then show ?thesis using assms(1) by (simp add: for_int_def)
qed

lemma ports_only_clear: "ports_only s (vga_clear s)"
  unfolding vga_clear_def Let_def
  by (intro ports_only_cursor ports_only_vga for_int_invariant [where P = "ports_only s"]) simp_all

lemma ports_only_init: "ports_only s (vga_init s)"
proof -
  have "ports_only s (s\<lparr>vga_row := 0, vga_col := 0, vga_curr_color := c\<rparr>)" for c
    by (intro ports_only_vga) simp
  then show ?thesis unfolding vga_init_def using ports_only_clear ports_only_trans by blast
qed

lemma init_on_screen: "on_screen (vga_init s)" "on_screen (vga_clear s)"
  by (simp_all add: vga_init_def vga_clear_def Let_def) (simp_all add: on_screen_def screen_consts)

subsection \<open>States and their parts\<close>

lemma extend_truncate [simp]: "interrupts.extend (interrupts.truncate s) (interrupts.more s) = s"
  by (cases s) (simp add: interrupts.defs)

lemma truncate_extend [simp]:
  "interrupts.truncate (interrupts.extend b c) = b" "interrupts.more (interrupts.extend b c) = c"
  by (cases b; simp add: interrupts.defs)+

lemma console_parts [simp]:
  fixes s :: console
  shows "as_console (k\<lparr>base := interrupts.truncate s, con_part := interrupts.more s\<rparr>) = s"
  by (simp add: as_console_def)

lemma sched_parts [simp]:
  fixes s :: sched
  shows "as_sched (k\<lparr>base := interrupts.truncate s, mem_part := interrupts.more s\<rparr>) = s"
  by (simp add: as_sched_def)

lemma on_screen_extend: "on_screen (interrupts.extend b (interrupts.more s)) = on_screen (s :: console)"
  by (cases s) (simp add: on_screen_def interrupts.defs)

lemma on_screen_base [simp]:
  "on_screen (as_console (k\<lparr>base := b\<rparr>)) = on_screen (as_console k)"
  "on_screen (as_console (k\<lparr>mem_part := m\<rparr>)) = on_screen (as_console k)"
  "on_screen (as_console (k\<lparr>kernel_idt := i\<rparr>)) = on_screen (as_console k)"
  "on_screen (as_console (k\<lparr>interrupts_on := on\<rparr>)) = on_screen (as_console k)"
  using on_screen_extend [of b "as_console k"] by (simp_all add: as_console_def)

text \<open>From \<open>k\<close> to \<open>k'\<close> only the console and the port log changed, and the screen is intact.\<close>

definition shown :: "kernel \<Rightarrow> kernel \<Rightarrow> bool" where
  "shown k k' \<longleftrightarrow> on_screen (as_console k') \<and> mem_part k' = mem_part k \<and> interrupts_on k' = interrupts_on k
     \<and> (\<exists>p. base k' = (base k)\<lparr>port_out := p\<rparr>)"

lemma on_console_shown:
  fixes t :: console
  assumes "f (as_console k) = Some t" and t: "on_screen t" and p: "ports_only (as_console k) t"
  shows "\<exists>k'. on_console f k = Some k' \<and> as_console k' = t \<and> shown k k'"
proof -
  obtain q where q: "interrupts.truncate t = (interrupts.truncate (as_console k))\<lparr>port_out := q\<rparr>"
    using p unfolding ports_only_def by blast
  let ?k = "k\<lparr>base := interrupts.truncate t, con_part := interrupts.more t\<rparr>"
  have "on_console f k = Some ?k" using assms(1) by (simp add: on_console_def)
  moreover have "as_console ?k = t" by (rule console_parts)
  moreover have "shown k ?k" unfolding shown_def console_parts
    using t q by (auto simp: as_console_def)
  ultimately show ?thesis by blast
qed

lemma say_shown: "on_screen (as_console k) \<Longrightarrow> \<exists>k'. say str k = Some k' \<and> shown k k'"
  using puts_effect [of "as_console k" "str @ newline"] ports_only_puts on_console_shown by blast

text \<open>The log can be shown unless it holds the one number \<open>vga_putint\<close> cannot print.\<close>

definition printable :: "diag \<Rightarrow> bool" where
  "printable d \<longleftrightarrow> (case d of Put_int n \<Rightarrow> sint n \<noteq> - (2 ^ 31) | _ \<Rightarrow> True)"

lemma show_diag:
  fixes s :: "'a vga_scheme"
  assumes "on_screen s" "printable d"
  shows "\<exists>t. (case d of Puts str \<Rightarrow> vga_puts str s | Put_int n \<Rightarrow> vga_putint n s | Put_hex n \<Rightarrow> vga_puthex n s)
    = Some t \<and> on_screen t \<and> ports_only s t"
proof -
  have "\<exists>str. (case d of Puts str \<Rightarrow> vga_puts str s | Put_int n \<Rightarrow> vga_putint n s | Put_hex n \<Rightarrow> vga_puthex n s)
    = vga_puts str s"
  proof (cases d)
    case (Put_int n)
    then show ?thesis using assms(2) int_text [of n s] by (auto simp: printable_def)
  next
    case (Put_hex n)
    then show ?thesis using hex_text [of n s] by (auto simp del: vga_puts.simps)
  qed auto
  then show ?thesis using puts_effect [OF assms(1)] ports_only_puts by metis
qed

lemma show_log_ok:
  "on_screen s \<Longrightarrow> \<forall>d \<in> set log. printable d \<Longrightarrow> \<exists>t. show_log log s = Some t \<and> on_screen t \<and> ports_only s t"
proof (induction log arbitrary: s)
  case (Cons d log)
  then obtain u where u: "(case d of Puts str \<Rightarrow> vga_puts str s | Put_int n \<Rightarrow> vga_putint n s
      | Put_hex n \<Rightarrow> vga_puthex n s) = Some u" "on_screen u" "ports_only s u"
    using show_diag [of s d] by auto
  moreover obtain t where "show_log log u = Some t" "on_screen t" "ports_only u t"
    using Cons.IH [OF u(2)] Cons.prems by auto
  ultimately show ?case using ports_only_trans by auto
qed simp

lemma on_sched_shown:
  assumes "f ((as_sched k)\<lparr>klog := []\<rparr>) = Some s" "on_screen (as_console k)" "\<forall>d \<in> set (klog s). printable d"
  shows "\<exists>k'. on_sched f k = Some k'
    \<and> shown (k\<lparr>base := interrupts.truncate s, mem_part := interrupts.more s\<rparr>) k'"
proof -
  let ?k = "k\<lparr>base := interrupts.truncate s, mem_part := interrupts.more s\<rparr>"
  have "on_screen (as_console ?k)" using assms(2) by simp
  then obtain t where "show_log (klog s) (as_console ?k) = Some t" "on_screen t" "ports_only (as_console ?k) t"
    using show_log_ok assms(3) by blast
  then show ?thesis
    using on_console_shown [of "show_log (klog s)" ?k] assms(1) by (auto simp: on_sched_def)
qed

subsection \<open>Physical memory does not depend on ports and handlers\<close>

text \<open>What \<open>pmm_init\<close> works on.\<close>

definition same_memory :: "'a pmm_scheme \<Rightarrow> 'a pmm_scheme \<Rightarrow> bool" where
  "same_memory s t \<longleftrightarrow> mem t = mem s \<and> klog t = klog s \<and> pmm_memory_map t = pmm_memory_map s
     \<and> pmm_memory_map_size t = pmm_memory_map_size s \<and> mem_size t = mem_size s
     \<and> mem_blocks t = mem_blocks s \<and> mem_used_blocks t = mem_used_blocks s
     \<and> mem_max_addr t = mem_max_addr s"

definition wired :: "'a pmm_scheme \<Rightarrow> 'a pmm_scheme \<Rightarrow> bool" where
  "wired s t \<longleftrightarrow> interrupt_handlers t = interrupt_handlers s \<and> pmm.more t = pmm.more s"

lemma wired_refl [simp]: "wired s s" by (simp add: wired_def)

lemma same_memory_set_block:
  "same_memory s t \<Longrightarrow> same_memory (pmm_set_block b s) (pmm_set_block b t)" "wired t (pmm_set_block b t)"
  by (simp_all add: same_memory_def wired_def pmm_set_block_def bm_addr_def rd32_def wr32_def)

lemma same_memory_reads:
  "same_memory s t \<Longrightarrow> mb_flags a t = mb_flags a s" "same_memory s t \<Longrightarrow> mb_mmap_addr a t = mb_mmap_addr a s"
  "same_memory s t \<Longrightarrow> mb_mmap_length a t = mb_mmap_length a s" "same_memory s t \<Longrightarrow> ent_size a t = ent_size a s"
  "same_memory s t \<Longrightarrow> ent_base_addr a t = ent_base_addr a s" "same_memory s t \<Longrightarrow> ent_length a t = ent_length a s"
  "same_memory s t \<Longrightarrow> ent_type a t = ent_type a s"
  by (simp_all add: same_memory_def boot_eval)

lemma same_memory_scan: "same_memory s t \<Longrightarrow> same_memory (scan_entry a s) (scan_entry a t)"
  by (simp add: scan_entry_def same_memory_reads Let_def) (simp add: same_memory_def)

lemma same_memory_reserve:
  assumes "same_memory s t"
  shows "same_memory (reserve_entry a s) (reserve_entry a t)"
proof -
  have "same_memory (for_lt i n (\<lambda>i t. i < mem_blocks t) pmm_set_block s) (for_lt i n (\<lambda>i t. i < mem_blocks t) pmm_set_block t)"
    for i n
    by (rule for_lt_related) (simp_all add: assms same_memory_set_block, simp add: same_memory_def)
  then show ?thesis using assms by (simp add: reserve_entry_def same_memory_reads Let_def)
qed

lemma same_memory_mark_kernel:
  assumes "same_memory s t"
  shows "same_memory (pmm_mark_kernel s) (pmm_mark_kernel t)"
proof -
  define u v where "u = pmm_layout s" and "v = pmm_layout t"
  have "same_memory u v"
    using assms by (simp add: u_def v_def pmm_layout_def Let_def same_memory_def)
  then have "same_memory (memset0 (pmm_memory_map u) (pmm_memory_map_size u) u)
      (memset0 (pmm_memory_map v) (pmm_memory_map_size v) v)"
    by (simp add: same_memory_def memset0_def Let_def cong: if_cong)
  then have "same_memory (for_lt 0 n (\<lambda>_ _. True) pmm_set_block (memset0 (pmm_memory_map u) (pmm_memory_map_size u) u))
      (for_lt 0 n (\<lambda>_ _. True) pmm_set_block (memset0 (pmm_memory_map v) (pmm_memory_map_size v) v))" for n
    by (rule for_lt_related) (simp_all add: same_memory_set_block)
  moreover have "pmm_memory_map v = pmm_memory_map u" "pmm_memory_map_size v = pmm_memory_map_size u"
    using \<open>same_memory u v\<close> by (simp_all add: same_memory_def)
  ultimately show ?thesis
    by (simp add: pmm_mark_kernel_def Let_def u_def [symmetric] v_def [symmetric])
qed

lemma mmap_walk_related:
  fixes s t u :: "'a pmm_scheme"
  assumes "mmap_walk visit a e s = Some u" and "same_memory s t"
    and visit: "\<And>b s t :: 'a pmm_scheme. same_memory s t \<Longrightarrow> same_memory (visit b s) (visit b t)"
  shows "\<exists>v. mmap_walk visit a e t = Some v \<and> same_memory u v"
proof -
  have "(\<forall>b s t. same_memory s t \<longrightarrow> same_memory (visit b s) (visit b t)) \<longrightarrow>
    (\<forall>t. same_memory s t \<longrightarrow> (\<exists>v. mmap_walk visit a e t = Some v \<and> same_memory u v))"
  proof (rule mmap_walk.raw_induct
      [where P = "\<lambda>f a e s u. (\<forall>b s t. same_memory s t \<longrightarrow> same_memory (f b s) (f b t)) \<longrightarrow>
    (\<forall>t. same_memory s t \<longrightarrow> (\<exists>v. mmap_walk f a e t = Some v \<and> same_memory u v))", OF _ assms(1)])
    fix walk f a e s u
    assume IH: "\<And>f a e s u. walk f a e s = Some u \<Longrightarrow>
        (\<forall>b s t. same_memory s t \<longrightarrow> same_memory (f b s) (f b t)) \<longrightarrow>
        (\<forall>t. same_memory s t \<longrightarrow> (\<exists>v. mmap_walk f a e t = Some v \<and> same_memory (u :: 'a pmm_scheme) v))"
      and eq: "(if a < e then let t = f a s in walk f (a + ent_size a t + 4) e t else Some s) = Some u"
    show "(\<forall>b s t. same_memory s t \<longrightarrow> same_memory (f b s) (f b t)) \<longrightarrow>
        (\<forall>t. same_memory s t \<longrightarrow> (\<exists>v. mmap_walk f a e t = Some v \<and> same_memory u v))"
    proof (intro impI allI)
      fix t
      assume f: "\<forall>b s t. same_memory s t \<longrightarrow> same_memory (f b s) (f b t)" and st: "same_memory s t"
      show "\<exists>v. mmap_walk f a e t = Some v \<and> same_memory u v"
      proof (cases "a < e")
        case True
        have ft: "same_memory (f a s) (f a t)" using f st by blast
        have "walk f (a + ent_size a (f a s) + 4) e (f a s) = Some u" using eq True by (simp add: Let_def)
        from IH [OF this] f ft have "\<exists>v. mmap_walk f (a + ent_size a (f a s) + 4) e (f a t) = Some v \<and> same_memory u v"
          by blast
        then show ?thesis
          using True same_memory_reads(4) [OF ft] by (subst mmap_walk.simps) (simp add: Let_def)
      next
        case False
        then show ?thesis using eq st by (subst mmap_walk.simps) simp
      qed
    qed
  qed
  then show ?thesis using assms(2) visit by blast
qed

lemma pmm_init_related:
  fixes s t u :: "'a pmm_scheme"
  assumes u: "pmm_init mb s = Some u" and st: "same_memory s t"
  shows "\<exists>v. pmm_init mb t = Some v \<and> same_memory u v"
proof (cases "mb_flags mb s AND 0x40 = 0")
  case True
  then show ?thesis
    using assms by (auto simp: pmm_init_def same_memory_reads) (simp add: same_memory_def kprint_def)
next
  case False
  let ?a = "mb_mmap_addr mb s" and ?e = "mb_mmap_addr mb s + mb_mmap_length mb s"
  obtain s1 s5 :: "'a pmm_scheme" where s1: "mmap_walk scan_entry ?a ?e s = Some s1"
    and s5: "mmap_walk reserve_entry (mb_mmap_addr mb (pmm_mark_kernel s1)) ?e (pmm_mark_kernel s1) = Some s5"
    and u5: "u = pmm_report s5"
    using u False by (auto simp: pmm_init_def Let_def split: option.splits)
  obtain t1 where t1: "mmap_walk scan_entry ?a ?e t = Some t1" "same_memory s1 t1"
    using mmap_walk_related [OF s1 st same_memory_scan] by blast
  have k: "same_memory (pmm_mark_kernel s1) (pmm_mark_kernel t1)"
    by (rule same_memory_mark_kernel [OF t1(2)])
  obtain t5 where t5: "mmap_walk reserve_entry (mb_mmap_addr mb (pmm_mark_kernel s1)) ?e (pmm_mark_kernel t1) = Some t5"
      "same_memory s5 t5"
    using mmap_walk_related [OF s5 k same_memory_reserve] by blast
  have "same_memory (pmm_report s5) (pmm_report t5)"
    using t5(2) by (simp add: same_memory_def pmm_report_def kprint_def)
  moreover have "pmm_init mb t = Some (pmm_report t5)"
    using False st t1(1) t5(1) by (simp add: pmm_init_def Let_def same_memory_reads same_memory_reads [OF k])
  ultimately show ?thesis using u5 by blast
qed

lemma wired_trans: "wired s t \<Longrightarrow> wired t u \<Longrightarrow> wired s u"
  by (simp add: wired_def)

lemma wired_loop: "wired s (for_lt i n g pmm_set_block s)"
  by (rule for_lt_invariant) (auto intro: wired_trans same_memory_set_block(2))

lemma pmm_init_wired:
  fixes s u :: "'a pmm_scheme"
  assumes "pmm_init mb s = Some u"
  shows "wired s u"
proof (cases "mb_flags mb s AND 0x40 = 0")
  case True
  then show ?thesis using assms by (auto simp: pmm_init_def kprint_def wired_def)
next
  case False
  obtain s1 s5 :: "'a pmm_scheme" and a e a' e' where s1: "mmap_walk scan_entry a e s = Some s1"
    and s5: "mmap_walk reserve_entry a' e' (pmm_mark_kernel s1) = Some s5" and u5: "u = pmm_report s5"
    using assms False by (auto simp: pmm_init_def Let_def split: option.splits)
  have "wired s s1"
    by (rule mmap_walk_invariant [OF s1 wired_refl]) (simp add: wired_def scan_entry_def Let_def)
  moreover have "wired s1 (memset0 a n (pmm_layout s1))" for a n
    by (simp add: wired_def memset0_def pmm_layout_def Let_def)
  then have "wired s1 (pmm_mark_kernel s1)"
    unfolding pmm_mark_kernel_def Let_def using wired_loop wired_trans by blast
  moreover have "wired (pmm_mark_kernel s1) s5"
    by (rule mmap_walk_invariant [OF s5 wired_refl])
      (auto simp: reserve_entry_def Let_def intro: wired_loop wired_trans)
  moreover have "wired s5 (pmm_report s5)" by (simp add: wired_def pmm_report_def kprint_def)
  ultimately show ?thesis unfolding u5 using wired_trans by blast
qed

end
