(* ===== verification/Kernel_Boot.thy ===== *)
theory Kernel_Boot
  imports Kernel_Start
begin

text \<open>
  The stages of \<open>kmain\<close> one after the other, and the state in which its main loop begins.
\<close>

subsection \<open>The parts of a stage\<close>

lemma extend_fields [simp]:
  "mem (interrupts.extend b c) = mem b" "klog (interrupts.extend b c) = klog b"
  "interrupt_handlers (interrupts.extend b c) = interrupt_handlers b"
  by (cases b; simp add: interrupts.defs)+


text \<open>A stage that leaves the memory managers' state, up to what they do not look at.\<close>

definition memory_kept :: "kernel \<Rightarrow> kernel \<Rightarrow> bool" where
  "memory_kept k k' \<longleftrightarrow> same_memory ((as_sched k)\<lparr>klog := []\<rparr>) ((as_sched k')\<lparr>klog := []\<rparr>)"


lemma memory_kept_refl [simp]: "memory_kept k k"
  by (simp add: memory_kept_def same_memory_def)



subsection \<open>Tables and interrupt controller\<close>




subsection \<open>Memory\<close>

text \<open>Every managed block is marked as used.\<close>

definition all_marked :: "'a pmm_scheme \<Rightarrow> bool" where
  "all_marked s \<longleftrightarrow> (\<forall>b < mem_blocks s. pmm_test_block b s)"


lemma all_marked_fields [simp]:
  "all_marked (s\<lparr>klog := x\<rparr>) = all_marked s" "all_marked (s\<lparr>interrupt_handlers := h\<rparr>) = all_marked s"
  "all_marked (kprint d s) = all_marked s"
  by (simp_all add: all_marked_def pmm_test_block_def bm_addr_def rd32_def)








lemma kprint_frame [simp]: "kernel_directory (kprint d s) = kernel_directory s"
  by (simp add: kprint_def)



lemma truncate_handlers [simp]: "interrupt_handlers (interrupts.truncate s) = interrupt_handlers s"
  by (simp add: interrupts.defs)





subsection \<open>Services\<close>











subsection \<open>The console\<close>

text \<open>Output keeps the commands and the callback.\<close>

definition drawn :: "console \<Rightarrow> console \<Rightarrow> bool" where
  "drawn s t \<longleftrightarrow> on_screen t \<and> ports_only s t \<and> command_table t = command_table s
     \<and> keyboard_callback t = keyboard_callback s"

lemma drawn_trans [trans]: "drawn s t \<Longrightarrow> drawn t u \<Longrightarrow> drawn s u"
  by (auto simp: drawn_def intro: ports_only_trans)









subsection \<open>A machine for the witnesses\<close>








subsection \<open>The mapping\<close>




subsection \<open>Properties\<close>



end
