(* ===== verification/Clock.thy ===== *)
theory Clock
  imports Prelude
begin

text \<open>
  Sleeping until a tick counter reaches a target: the interface the timers of the hardware
  abstraction layer share.  \<open>wake\<close> is one turn of the loop, the wait for the next interrupt;
  on a working clock every wait is one tick.
\<close>

locale ticking =
  fixes ticks :: "'s \<Rightarrow> u64" and wake :: "'s \<Rightarrow> 's" and sleep :: "u64 \<Rightarrow> 's \<Rightarrow> 's option"
  assumes sleep_step: "sleep target s = (if ticks s < target then sleep target (wake s) else Some s)"
    and tick: "ticks (wake s) = ticks s + 1"
begin

lemma over: "target \<le> ticks s \<Longrightarrow> sleep target s = Some s"
  by (subst sleep_step) (simp flip: not_less)

lemma counts: "unat target = unat (ticks s) + n \<Longrightarrow> sleep target s = Some ((wake ^^ n) s)"
proof (induction n arbitrary: s)
  case 0
  then show ?case by (simp add: over word_le_nat_alt)
next
  case (Suc n)
  then have lt: "ticks s < target" by (simp add: word_less_nat_alt)
  then have "unat (ticks (wake s)) = Suc (unat (ticks s))" by (simp add: tick unat_Suc_less)
  then have "sleep target (wake s) = Some ((wake ^^ n) (wake s))" using Suc by simp
  then show ?case using lt by (subst sleep_step) (simp add: funpow_swap1)
qed

text \<open>A time to wait, added to the counter without overflow.\<close>

lemma waits:
  fixes t :: u32
  assumes "unat (ticks s) + unat t < 2 ^ 64"
  shows "sleep (ticks s + ucast t) s = Some ((wake ^^ unat t) s)"
proof (rule counts)
  show "unat (ticks s + ucast t) = unat (ticks s) + unat t"
    using assms by (simp add: unat_word_ariths(1) unsigned_ucast_eq take_bit_nat_eq_self)
qed

end

end
