(* ===== verification/Hal_X86.thy ===== *)
theory Hal_X86
  imports Vmm Vga Polling Clock
begin

text \<open>
  The hardware abstraction layer for x86, arch/x86/hal_x86.c.  To the memory managers' state
  it adds its tick counter, the processor's flags and the 16 and 32-bit ports.  \<open>hlt\<close> waits
  for an interrupt: what happens until the processor goes on is the parameter \<open>wake\<close>.  A wait
  that does not end and a division by zero are \<open>None\<close>.
\<close>

subsection \<open>State\<close>

datatype port_value = Word16 u16 | Word32 u32

record hal = vmm +
  system_ticks :: u64
  ticks_per_ms :: u32
  cpu_eflags :: u32
  wide_out :: "(u16 \<times> port_value) list"
  wide_in :: "u16 \<Rightarrow> nat \<Rightarrow> u32"
  wide_reads :: "u16 \<Rightarrow> nat"

definition outw :: "u16 \<Rightarrow> u16 \<Rightarrow> 'a hal_scheme \<Rightarrow> 'a hal_scheme" where
  "outw port v s = s\<lparr>wide_out := wide_out s @ [(port, Word16 v)]\<rparr>"

definition outl :: "u16 \<Rightarrow> u32 \<Rightarrow> 'a hal_scheme \<Rightarrow> 'a hal_scheme" where
  "outl port v s = s\<lparr>wide_out := wide_out s @ [(port, Word32 v)]\<rparr>"

definition inl :: "u16 \<Rightarrow> 'a hal_scheme \<Rightarrow> u32 \<times> 'a hal_scheme" where
  "inl port s = (wide_in s port (wide_reads s port),
     s\<lparr>wide_reads := (wide_reads s)(port := Suc (wide_reads s port))\<rparr>)"

definition inw :: "u16 \<Rightarrow> 'a hal_scheme \<Rightarrow> u16 \<times> 'a hal_scheme" where
  "inw port s = apfst ucast (inl port s)"

text \<open>\<open>rep insw\<close> and \<open>rep outsw\<close>: 16-bit words between a port and consecutive memory.\<close>

fun insw_words :: "u16 \<Rightarrow> u32 \<Rightarrow> nat \<Rightarrow> 'a hal_scheme \<Rightarrow> 'a hal_scheme" where
  "insw_words port addr 0 s = s"
| "insw_words port addr (Suc n) s =
     (case inw port s of (v, t) \<Rightarrow>
        insw_words port (addr + 2) n (put_byte (addr + 1) (ucast (drop_bit 8 v)) (put_byte addr (ucast v) t)))"

definition insw :: "u16 \<Rightarrow> u32 \<Rightarrow> u32 \<Rightarrow> 'a hal_scheme \<Rightarrow> 'a hal_scheme" where
  "insw port addr count s = insw_words port addr (unat count) s"

fun outsw_words :: "u16 \<Rightarrow> u32 \<Rightarrow> nat \<Rightarrow> 'a hal_scheme \<Rightarrow> 'a hal_scheme" where
  "outsw_words port addr 0 s = s"
| "outsw_words port addr (Suc n) s =
     outsw_words port (addr + 2) n
       (outw port (ucast (get_byte addr s) OR push_bit 8 (ucast (get_byte (addr + 1) s))) s)"

definition outsw :: "u16 \<Rightarrow> u32 \<Rightarrow> u32 \<Rightarrow> 'a hal_scheme \<Rightarrow> 'a hal_scheme" where
  "outsw port addr count s = outsw_words port addr (unat count) s"

definition hal_init :: "'a hal_scheme \<Rightarrow> 'a hal_scheme" where
  "hal_init s = kprint (Puts (''HAL: Initialized x86 Hardware Abstraction Layer'' @ newline)) s"

subsection \<open>Memory\<close>

definition hal_alloc_page :: "'a hal_scheme \<Rightarrow> u32 \<times> 'a hal_scheme" where
  "hal_alloc_page s = pmm_alloc_block s"

definition hal_free_page :: "u32 \<Rightarrow> 'a hal_scheme \<Rightarrow> 'a hal_scheme" where
  "hal_free_page page s = pmm_free_block page s"

definition hal_map_page :: "u32 \<Rightarrow> u32 \<Rightarrow> u32 \<Rightarrow> 'a hal_scheme \<Rightarrow> 'a hal_scheme" where
  "hal_map_page phys virt flags s = snd (vmm_map_page (vmm_get_current_directory s) phys virt flags s)"

definition hal_unmap_page :: "u32 \<Rightarrow> 'a hal_scheme \<Rightarrow> 'a hal_scheme" where
  "hal_unmap_page virt s = snd (vmm_unmap_page (vmm_get_current_directory s) virt s)"

definition hal_flush_tlb :: "u32 \<Rightarrow> 'a hal_scheme \<Rightarrow> 'a hal_scheme" where
  "hal_flush_tlb addr s = vmm_flush_tlb_entry addr s"

subsection \<open>Interrupts\<close>

text \<open>The interrupt flag is bit 9 of the flags.\<close>

definition hal_enable_interrupts :: "'a hal_scheme \<Rightarrow> 'a hal_scheme" where
  "hal_enable_interrupts s = s\<lparr>cpu_eflags := cpu_eflags s OR 0x200\<rparr>"

definition hal_disable_interrupts :: "'a hal_scheme \<Rightarrow> 'a hal_scheme" where
  "hal_disable_interrupts s = s\<lparr>cpu_eflags := cpu_eflags s AND NOT 0x200\<rparr>"

definition hal_save_interrupt_state :: "'a hal_scheme \<Rightarrow> u32" where
  "hal_save_interrupt_state s = cpu_eflags s"

definition hal_restore_interrupt_state :: "u32 \<Rightarrow> 'a hal_scheme \<Rightarrow> 'a hal_scheme" where
  "hal_restore_interrupt_state state s = s\<lparr>cpu_eflags := state\<rparr>"

text \<open>The number is cut to a byte by the parameter of \<open>isr_register_handler\<close>.\<close>

definition hal_register_interrupt_handler :: "u32 \<Rightarrow> u32 \<Rightarrow> 'a hal_scheme \<Rightarrow> 'a hal_scheme" where
  "hal_register_interrupt_handler interrupt handler s =
     isr_register_handler (ucast interrupt) (Handler_at handler) s"

subsection \<open>Time\<close>

definition timer_handler :: "registers \<Rightarrow> 'a hal_scheme \<Rightarrow> 'a hal_scheme" where
  "timer_handler regs s = s\<lparr>system_ticks := system_ticks s + 1\<rparr>"

definition hal_init_timer :: "u32 \<Rightarrow> 'a hal_scheme \<Rightarrow> 'a hal_scheme option" where
  "hal_init_timer frequency s =
     (if frequency = 0 then None
      else let divisor = 1193180 div frequency;
               s1 = s\<lparr>ticks_per_ms := frequency div 1000\<rparr>;
               s2 = outb 0x43 0x36 s1;
               s3 = outb 0x40 (ucast (divisor AND 0xFF)) s2;
               s4 = outb 0x40 (ucast (drop_bit 8 divisor AND 0xFF)) s3;
               s5 = irq_register_handler IRQ0 Hal_timer_handler s4
           in Some (kprint (Puts (''HAL: Initialized system timer'' @ newline)) s5))"

definition hal_get_system_time :: "'a hal_scheme \<Rightarrow> u64 option" where
  "hal_get_system_time s =
     (if ticks_per_ms s = 0 then None else Some (system_ticks s div ucast (ticks_per_ms s)))"

partial_function (option) sleep_until ::
  "('a hal_scheme \<Rightarrow> 'a hal_scheme) \<Rightarrow> u64 \<Rightarrow> 'a hal_scheme \<Rightarrow> 'a hal_scheme option"
where
  "sleep_until wake target_ticks s =
     (if system_ticks s < target_ticks then sleep_until wake target_ticks (wake s) else Some s)"

definition hal_sleep :: "('a hal_scheme \<Rightarrow> 'a hal_scheme) \<Rightarrow> u32 \<Rightarrow> 'a hal_scheme \<Rightarrow> 'a hal_scheme option" where
  "hal_sleep wake ms s = sleep_until wake (system_ticks s + ucast (ms * ticks_per_ms s)) s"

definition hal_busy_wait :: "u32 \<Rightarrow> 'a hal_scheme \<Rightarrow> 'a hal_scheme" where
  "hal_busy_wait us s = for_lt 0 us (\<lambda>_ _. True) (\<lambda>_ t. snd (inb 0x80 t)) s"

subsection \<open>Ports\<close>

definition hal_outb :: "u16 \<Rightarrow> u8 \<Rightarrow> 'a hal_scheme \<Rightarrow> 'a hal_scheme" where
  "hal_outb port value s = outb port value s"

definition hal_inb :: "u16 \<Rightarrow> 'a hal_scheme \<Rightarrow> u8 \<times> 'a hal_scheme" where
  "hal_inb port s = inb port s"

definition hal_outw :: "u16 \<Rightarrow> u16 \<Rightarrow> 'a hal_scheme \<Rightarrow> 'a hal_scheme" where
  "hal_outw port value s = outw port value s"

definition hal_inw :: "u16 \<Rightarrow> 'a hal_scheme \<Rightarrow> u16 \<times> 'a hal_scheme" where
  "hal_inw port s = inw port s"

definition hal_outl :: "u16 \<Rightarrow> u32 \<Rightarrow> 'a hal_scheme \<Rightarrow> 'a hal_scheme" where
  "hal_outl port value s = outl port value s"

definition hal_inl :: "u16 \<Rightarrow> 'a hal_scheme \<Rightarrow> u32 \<times> 'a hal_scheme" where
  "hal_inl port s = inl port s"

subsection \<open>Serial port\<close>

definition COM1 :: u16 where
  "COM1 = 0x3F8"

definition hal_uart_init :: "u32 \<Rightarrow> 'a hal_scheme \<Rightarrow> 'a hal_scheme option" where
  "hal_uart_init baud_rate s =
     (if baud_rate = 0 then None
      else let divisor = ucast (115200 div baud_rate) :: u16;
               s1 = outb (COM1 + 1) 0x00 s;
               s2 = outb (COM1 + 3) 0x80 s1;
               s3 = outb (COM1 + 0) (ucast (divisor AND 0xFF)) s2;
               s4 = outb (COM1 + 1) (ucast (drop_bit 8 divisor AND 0xFF)) s3;
               s5 = outb (COM1 + 3) 0x03 s4;
               s6 = outb (COM1 + 2) 0xC7 s5;
               s7 = outb (COM1 + 4) 0x0B s6
           in Some (kprint (Puts (''HAL: Initialized UART serial port'' @ newline)) s7))"

text \<open>\<open>while ((inb(COM1 + 5) & bits) == 0);\<close>\<close>

definition uart_wait :: "u8 \<Rightarrow> 'a hal_scheme \<Rightarrow> 'a hal_scheme option" where
  "uart_wait bits = poll (\<lambda>s. apfst (\<lambda>v. v AND bits \<noteq> 0) (inb (COM1 + 5) s))"

definition hal_uart_putc :: "u8 \<Rightarrow> 'a hal_scheme \<Rightarrow> 'a hal_scheme option" where
  "hal_uart_putc c s = map_option (outb COM1 c) (uart_wait 0x20 s)"

definition hal_uart_getc :: "'a hal_scheme \<Rightarrow> (u8 \<times> 'a hal_scheme) option" where
  "hal_uart_getc s = map_option (inb COM1) (uart_wait 0x01 s)"

definition hal_uart_data_available :: "'a hal_scheme \<Rightarrow> bool \<times> 'a hal_scheme" where
  "hal_uart_data_available s = (case inb (COM1 + 5) s of (v, t) \<Rightarrow> (v AND 0x01 \<noteq> 0, t))"

definition hal_uart_flush :: "'a hal_scheme \<Rightarrow> 'a hal_scheme option" where
  "hal_uart_flush s = uart_wait 0x20 s"

subsection \<open>Peripherals a PC does not have\<close>

text \<open>The functions of the interface that do nothing, with the results they report.\<close>

definition hal_gpio_set_mode :: "u32 \<Rightarrow> u8 \<Rightarrow> 'a hal_scheme \<Rightarrow> 'a hal_scheme" where
  "hal_gpio_set_mode pin mode s = s"

definition hal_gpio_write :: "u32 \<Rightarrow> bool \<Rightarrow> 'a hal_scheme \<Rightarrow> 'a hal_scheme" where
  "hal_gpio_write pin value s = s"

definition hal_gpio_read :: "u32 \<Rightarrow> 'a hal_scheme \<Rightarrow> bool" where
  "hal_gpio_read pin s = False"

definition hal_gpio_toggle :: "u32 \<Rightarrow> 'a hal_scheme \<Rightarrow> 'a hal_scheme" where
  "hal_gpio_toggle pin s = s"

definition hal_spi_init :: "u32 \<Rightarrow> 'a hal_scheme \<Rightarrow> 'a hal_scheme" where
  "hal_spi_init clock_div s = s"

definition hal_spi_transfer :: "u8 \<Rightarrow> 'a hal_scheme \<Rightarrow> u8 \<times> 'a hal_scheme" where
  "hal_spi_transfer data s = (0, s)"

definition hal_spi_chip_select :: "u8 \<Rightarrow> bool \<Rightarrow> 'a hal_scheme \<Rightarrow> 'a hal_scheme" where
  "hal_spi_chip_select chip select s = s"

definition hal_i2c_init :: "u32 \<Rightarrow> 'a hal_scheme \<Rightarrow> 'a hal_scheme" where
  "hal_i2c_init clock_speed s = s"

definition hal_i2c_start :: "u8 \<Rightarrow> bool \<Rightarrow> 'a hal_scheme \<Rightarrow> bool \<times> 'a hal_scheme" where
  "hal_i2c_start address read s = (False, s)"

definition hal_i2c_stop :: "'a hal_scheme \<Rightarrow> 'a hal_scheme" where
  "hal_i2c_stop s = s"

definition hal_i2c_write :: "u8 \<Rightarrow> 'a hal_scheme \<Rightarrow> bool \<times> 'a hal_scheme" where
  "hal_i2c_write data s = (False, s)"

definition hal_i2c_read :: "bool \<Rightarrow> 'a hal_scheme \<Rightarrow> u8 \<times> 'a hal_scheme" where
  "hal_i2c_read ack s = (0, s)"

definition hal_can_init :: "u32 \<Rightarrow> 'a hal_scheme \<Rightarrow> 'a hal_scheme" where
  "hal_can_init baudrate s = s"

definition hal_can_send :: "u32 \<Rightarrow> u8 list \<Rightarrow> u8 \<Rightarrow> 'a hal_scheme \<Rightarrow> bool \<times> 'a hal_scheme" where
  "hal_can_send ident data len s = (False, s)"

text \<open>Nothing is stored through the three pointers.\<close>

definition hal_can_receive :: "'a hal_scheme \<Rightarrow> (u32 \<times> u8 list) option \<times> 'a hal_scheme" where
  "hal_can_receive s = (None, s)"

definition hal_can_message_available :: "'a hal_scheme \<Rightarrow> bool" where
  "hal_can_message_available s = False"

definition hal_adc_init :: "'a hal_scheme \<Rightarrow> 'a hal_scheme" where
  "hal_adc_init s = s"

definition hal_adc_read :: "u8 \<Rightarrow> 'a hal_scheme \<Rightarrow> u16 \<times> 'a hal_scheme" where
  "hal_adc_read channel s = (0, s)"

definition hal_adc_start_conversion :: "u8 \<Rightarrow> 'a hal_scheme \<Rightarrow> 'a hal_scheme" where
  "hal_adc_start_conversion channel s = s"

definition hal_adc_conversion_done :: "'a hal_scheme \<Rightarrow> bool" where
  "hal_adc_conversion_done s = True"

definition hal_pwm_init :: "u32 \<Rightarrow> 'a hal_scheme \<Rightarrow> 'a hal_scheme" where
  "hal_pwm_init frequency s = s"

definition hal_pwm_set_duty :: "u8 \<Rightarrow> u8 \<Rightarrow> 'a hal_scheme \<Rightarrow> 'a hal_scheme" where
  "hal_pwm_set_duty channel duty s = s"

definition hal_pwm_enable :: "u8 \<Rightarrow> 'a hal_scheme \<Rightarrow> 'a hal_scheme" where
  "hal_pwm_enable channel s = s"

definition hal_pwm_disable :: "u8 \<Rightarrow> 'a hal_scheme \<Rightarrow> 'a hal_scheme" where
  "hal_pwm_disable channel s = s"

subsection \<open>Power and platform\<close>

definition hal_enter_sleep_mode :: "('a hal_scheme \<Rightarrow> 'a hal_scheme) \<Rightarrow> u8 \<Rightarrow> 'a hal_scheme \<Rightarrow> 'a hal_scheme" where
  "hal_enter_sleep_mode wake mode s = wake s"

definition hal_reset :: "'a hal_scheme \<Rightarrow> 'a hal_scheme" where
  "hal_reset s = outb 0x64 0xFE s"

text \<open>The loop after the message disables interrupts before each \<open>hlt\<close>.\<close>

definition hal_shutdown :: "'a hal_scheme \<Rightarrow> 'a hal_scheme outcome" where
  "hal_shutdown s = Halted (hal_disable_interrupts
     (kprint (Puts (''HAL: Shutdown requested, halting CPU'' @ newline)) s))"

definition bytes_of_word :: "u32 \<Rightarrow> u8 list" where
  "bytes_of_word w = map (\<lambda>i. ucast (drop_bit (8 * i) w)) [0..<4]"

text \<open>What \<open>snprintf\<close> stores before its terminating zero, \<open>None\<close> when there is no room for that
  either.  \<open>cpuid\<close> gives the four registers of a leaf.\<close>

definition hal_get_platform_info :: "(u32 \<Rightarrow> u32 \<times> u32 \<times> u32 \<times> u32) \<Rightarrow> u32 \<Rightarrow> string option" where
  "hal_get_platform_info cpuid sz =
     (let (_, ebx, ecx, edx) = cpuid 0;
          vendor = takeWhile (\<lambda>c. c \<noteq> CHR 0x00)
            (map (char_of \<circ> unat) (bytes_of_word ebx @ bytes_of_word edx @ bytes_of_word ecx));
          (eax, _, _, _) = cpuid 1;
          family = unat (drop_bit 8 eax AND 0xF);
          model = unat (drop_bit 4 eax AND 0xF)
      in if sz = 0 then None
         else Some (take (unat sz - 1)
           (''x86 CPU: '' @ vendor @ '' Family '' @ decimal family @ '' Model '' @ decimal model)))"

definition hal_get_cpu_frequency :: "u32" where
  "hal_get_cpu_frequency = 2000000000"

definition hal_idle :: "('a hal_scheme \<Rightarrow> 'a hal_scheme) \<Rightarrow> 'a hal_scheme \<Rightarrow> 'a hal_scheme" where
  "hal_idle wake s = wake s"

subsection \<open>Sleeping\<close>

text \<open>An interrupt while the processor waits.  Which one comes next is \<open>irq\<close>, a function of the
  state; what the registered handlers do is \<open>call\<close>.\<close>

definition interrupted ::
  "(handler \<Rightarrow> registers \<Rightarrow> 'a hal_scheme \<Rightarrow> 'a hal_scheme) \<Rightarrow> ('a hal_scheme \<Rightarrow> registers)
    \<Rightarrow> 'a hal_scheme \<Rightarrow> 'a hal_scheme"
where
  "interrupted call irq s =
     (case irq_handler call (irq s) s of Returned t \<Rightarrow> t | Halted t \<Rightarrow> t | Out_of_bounds \<Rightarrow> s)"

text \<open>The timer's own handler, and any others.\<close>

definition with_timer ::
  "(handler \<Rightarrow> registers \<Rightarrow> 'a hal_scheme \<Rightarrow> 'a hal_scheme) \<Rightarrow> handler \<Rightarrow> registers \<Rightarrow> 'a hal_scheme \<Rightarrow> 'a hal_scheme"
where
  "with_timer others h = (if h = Hal_timer_handler then timer_handler else others h)"

text \<open>None of the sixteen lines, vectors 32 to 47, leads to the timer's handler.\<close>

definition off_the_lines :: "'a hal_scheme \<Rightarrow> bool" where
  "off_the_lines s \<longleftrightarrow> (\<forall>v \<in> {32..<48}. interrupt_handlers s ! v \<noteq> Some Hal_timer_handler)"

text \<open>Handlers other than the timer's: they leave the tick counter, a static variable of
  hal_x86.c, alone and do not register the timer's handler on a line.\<close>

definition leave_timer :: "(handler \<Rightarrow> registers \<Rightarrow> 'a hal_scheme \<Rightarrow> 'a hal_scheme) \<Rightarrow> bool" where
  "leave_timer others \<longleftrightarrow> (\<forall>h regs s. h \<noteq> Hal_timer_handler \<and> off_the_lines s
     \<longrightarrow> off_the_lines (others h regs s) \<and> system_ticks (others h regs s) = system_ticks s)"

lemma sleep_until_hangs:
  assumes "sleep_until wake target s \<noteq> None" and keep: "\<And>t. P t \<Longrightarrow> P (wake t)" "\<And>t. P t \<Longrightarrow> system_ticks t < target"
  shows "\<not> P s"
proof -
  obtain r where r: "sleep_until wake target s = Some r" using assms(1) by blast
  have "(\<forall>t. P t \<longrightarrow> P (wake t) \<and> system_ticks t < target) \<longrightarrow> \<not> P s"
  proof (rule sleep_until.raw_induct [where P = "\<lambda>wake target s r. (\<forall>t. P t \<longrightarrow> P (wake t) \<and> system_ticks t < target) \<longrightarrow> \<not> P s",
        OF _ r])
    fix loop :: "('a hal_scheme \<Rightarrow> 'a hal_scheme) \<Rightarrow> u64 \<Rightarrow> 'a hal_scheme \<Rightarrow> 'a hal_scheme option" and wake target s r
    assume 1: "\<And>wake target s r. loop wake target s = Some r \<Longrightarrow>
        (\<forall>t. P t \<longrightarrow> P (wake t) \<and> system_ticks t < target) \<longrightarrow> \<not> P s"
      "(if system_ticks s < target then loop wake target (wake s) else Some s) = Some r"
    show "(\<forall>t. P t \<longrightarrow> P (wake t) \<and> system_ticks t < target) \<longrightarrow> \<not> P s"
    proof (intro impI notI)
      assume k: "\<forall>t. P t \<longrightarrow> P (wake t) \<and> system_ticks t < target" and s: "P s"
      then have "loop wake target (wake s) = Some r" using 1(2) by auto
      then show False using 1(1) k s by blast
    qed
  qed
  then show ?thesis using keep by blast
qed

text \<open>When every interrupt is a tick, the loop is that of a working clock.\<close>

lemma sleep_until_ticking:
  "(\<And>t. system_ticks (wake t) = system_ticks t + 1) \<Longrightarrow> ticking system_ticks wake (sleep_until wake)"
  by unfold_locales (subst sleep_until.simps, rule refl, blast)

interpretation pit: ticking system_ticks "timer_handler regs" "sleep_until (timer_handler regs)"
  by (rule sleep_until_ticking) (simp add: timer_handler_def)

lemma init_timer_fields:
  assumes "hal_init_timer f s = Some t"
  shows "ticks_per_ms t = f div 1000" "system_ticks t = system_ticks s"
    "interrupt_handlers t = (interrupt_handlers s)[64 := Some Hal_timer_handler]" "f \<noteq> 0"
  using assms by (auto simp: hal_init_timer_def Let_def outb_def kprint_def irq_register_handler_def
      isr_register_handler_def IRQ0_def split: if_splits)

lemma off_the_lines_outb [simp]:
  "off_the_lines (outb p v s) = off_the_lines s" "system_ticks (outb p v s) = system_ticks s"
  by (simp_all add: off_the_lines_def outb_def)

lemma irq_on_a_line:
  assumes "leave_timer others" "off_the_lines s" and "int_no (irq s) \<in> {32..<48}"
  shows "off_the_lines (interrupted (with_timer others) irq s)
    \<and> system_ticks (interrupted (with_timer others) irq s) = system_ticks s"
proof -
  define u where "u = outb 0x20 0x20 (if 40 \<le> int_no (irq s) then outb 0xA0 0x20 s else s)"
  have u: "off_the_lines u" "system_ticks u = system_ticks s" using assms(2) by (simp_all add: u_def)
  have n: "unat (int_no (irq s)) \<in> {32..<48}" "\<not> 256 \<le> int_no (irq s)"
    using assms(3) by (auto simp: word_le_nat_alt word_less_nat_alt)
  then have "interrupt_handlers u ! unat (int_no (irq s)) \<noteq> Some Hal_timer_handler"
    using u(1) unfolding off_the_lines_def by blast
  moreover have "interrupted (with_timer others) irq s = (case interrupt_handlers u ! unat (int_no (irq s)) of
      Some h \<Rightarrow> with_timer others h (irq s) u | None \<Rightarrow> u)"
    unfolding interrupted_def irq_handler_def Let_def u_def [symmetric] using n(2)
    by (simp split: option.split)
  ultimately show ?thesis
    using u assms(1) by (auto simp: leave_timer_def with_timer_def split: option.split)
qed

lemma sleep_target: "unat a + unat b < 2 ^ 64 \<Longrightarrow> unat ((a :: u64) + ucast (b :: u32)) = unat a + unat b"
  by (simp add: unat_word_ariths(1) unsigned_ucast_eq take_bit_nat_eq_self)

subsection \<open>A machine for the witnesses\<close>

definition sample_hal :: hal where
  "sample_hal = \<lparr>mem = (\<lambda>_. 0), klog = [], port_out = [], port_in = (\<lambda>_ n. if n < 3 then 0 else 0x60), port_reads = (\<lambda>_. 0),
     interrupt_handlers = replicate 256 None, pmm_memory_map = 0, pmm_memory_map_size = 0, mem_size = 0, mem_blocks = 0,
     mem_used_blocks = 0, mem_max_addr = 0, kernel_directory = 0, current_directory = 0, cr3 = 0, tlb_flushes = [],
     system_ticks = 0, ticks_per_ms = 0, cpu_eflags = 2, wide_out = [], wide_in = (\<lambda>_ _. 0), wide_reads = (\<lambda>_. 0)\<rparr>"

definition sample_regs :: registers where
  "sample_regs = \<lparr>ds = 0, edi = 0, esi = 0, ebp = 0, esp = 0, ebx = 0, edx = 0, ecx = 0, eax = 0, int_no = 32,
     err_code = 0, eip = 0, cs = 0, eflags = 0, useresp = 0, ss = 0\<rparr>"

subsection \<open>Properties\<close>

text \<open>C17: a sleep never ends.  \<open>hal_init_timer\<close> registers its handler through
  \<open>irq_register_handler IRQ0\<close>, which puts it at vector 64.  If it was on none of the vectors
  32 to 47 before, then whatever interrupts of the sixteen lines arrive during the sleep, the
  timer's among them, and whatever the other handlers do short of touching the timer's variable
  or registration, the ticks do not advance: \<open>hal_sleep\<close> does not return, unless its
  target is not ahead of the current tick at the start.  The latter is so when the 32-bit product
  \<open>ms * (f / 1000)\<close> is zero, as for a frequency below 1000 Hz, or when the 64-bit sum wraps; then
  it returns at once.\<close>

theorem hal_sleep_never_returns:
  fixes s t :: "'a hal_scheme"
  assumes "hal_init_timer f s = Some t" and "off_the_lines s" and "64 < length (interrupt_handlers s)"
    and "leave_timer others" and "\<And>u. int_no (irq u) \<in> {32..<48}"
  shows "interrupt_handlers t ! 64 = Some Hal_timer_handler
    \<and> hal_sleep (interrupted (with_timer others) irq) ms t
      = (if system_ticks s < system_ticks s + ucast (ms * (f div 1000)) then None else Some t)"
proof
  note t = init_timer_fields [OF assms(1)]
  show "interrupt_handlers t ! 64 = Some Hal_timer_handler" using assms(3) by (simp add: t(3))
  let ?wake = "interrupted (with_timer others) irq"
  let ?target = "system_ticks t + ucast (ms * ticks_per_ms t)"
  let ?P = "\<lambda>u. off_the_lines u \<and> system_ticks u = system_ticks t"
  have "?P t" using assms(2) by (simp add: off_the_lines_def t(3))
  moreover have "?P (?wake u)" if "?P u" for u
    using irq_on_a_line [OF assms(4) _ assms(5)] that by simp
  ultimately have "sleep_until ?wake ?target t = None" if "system_ticks t < ?target"
    using sleep_until_hangs [of ?wake ?target t ?P] that by fastforce
  then show "hal_sleep ?wake ms t
      = (if system_ticks s < system_ticks s + ucast (ms * (f div 1000)) then None else Some t)"
    unfolding hal_sleep_def by (auto simp: t(1,2) sleep_until.simps [of _ _ t])
qed

text \<open>Timer and keyboard interrupts in turn.\<close>

definition sample_irqs :: "hal \<Rightarrow> registers" where
  "sample_irqs u = sample_regs\<lparr>int_no := (if even (length (port_out u)) then 32 else 33)\<rparr>"

theorem hal_sleep_never_returns_witness:
  "\<exists>t. hal_init_timer 1000 sample_hal = Some t
     \<and> hal_sleep (interrupted (with_timer (\<lambda>_ _. kprint (Puts ''irq''))) sample_irqs) 5 t = None"
proof -
  obtain t where t: "hal_init_timer 1000 sample_hal = Some t" by (simp add: hal_init_timer_def Let_def)
  have h: "off_the_lines sample_hal" "64 < length (interrupt_handlers sample_hal)"
    by (simp_all add: sample_hal_def off_the_lines_def)
  have l: "leave_timer (\<lambda>_ _. kprint (Puts ''irq'') :: hal \<Rightarrow> hal)"
    by (simp add: leave_timer_def off_the_lines_def kprint_def)
  have i: "int_no (sample_irqs u) \<in> {32..<48}" for u by (simp add: sample_irqs_def)
  have "system_ticks sample_hal < system_ticks sample_hal + ucast (5 * (1000 div 1000) :: u32)"
    by (simp add: sample_hal_def)
  then show ?thesis using hal_sleep_never_returns [OF t h l i, where ms = 5] t by auto
qed

text \<open>How long a sleep is.  When every interrupt is one tick, \<open>hal_sleep\<close> returns after
  exactly \<open>ms * (frequency / 1000)\<close> of them, the product cut to 32 bits.  Below 1000 Hz there
  are no ticks in a millisecond: the sleep is over at once, and the system time is a division
  by zero.\<close>

theorem hal_sleep_counts_ticks:
  assumes "hal_init_timer f s = Some t" and "\<And>u. system_ticks (wake u) = system_ticks u + 1"
    and "unat (system_ticks s) + unat (ms * (f div 1000)) < 2 ^ 64"
  shows "hal_sleep wake ms t = Some ((wake ^^ unat (ms * (f div 1000))) t)
    \<and> (f < 1000 \<longrightarrow> hal_sleep wake ms t = Some t \<and> hal_get_system_time t = None)"
proof -
  note t = init_timer_fields [OF assms(1)]
  have sleep: "hal_sleep wake ms t = Some ((wake ^^ unat (ms * (f div 1000))) t)"
    using ticking.waits [OF sleep_until_ticking [OF assms(2)], of t "ms * (f div 1000)"] assms(3)
    unfolding hal_sleep_def by (simp add: t)
  have "f div 1000 = 0" if "f < 1000"
    using that by (intro word_unat_eqI) (simp add: unat_div word_less_nat_alt)
  then show ?thesis using sleep by (auto simp: hal_get_system_time_def t)
qed

theorem hal_sleep_counts_ticks_witness:
  "\<exists>t. hal_init_timer 2000 sample_hal = Some t
     \<and> hal_sleep (timer_handler sample_regs) 3 t = Some ((timer_handler sample_regs ^^ 6) t)"
proof -
  obtain t where t: "hal_init_timer 2000 sample_hal = Some t" by (simp add: hal_init_timer_def Let_def)
  have "unat (system_ticks sample_hal) + unat (3 * (2000 div 1000) :: u32) < 2 ^ 64" by (simp add: sample_hal_def)
  then have "hal_sleep (timer_handler sample_regs) 3 t
      = Some ((timer_handler sample_regs ^^ unat (3 * (2000 div 1000) :: u32)) t)"
    using hal_sleep_counts_ticks [OF t, where wake = "timer_handler sample_regs"] by (simp add: timer_handler_def)
  moreover have "unat (3 * (2000 div 1000) :: u32) = 6" by simp
  ultimately show ?thesis using t by metis
qed

end
