(* ===== verification/Bus.thy ===== *)
theory Bus
  imports Polling
begin

text \<open>
  Memory-mapped device registers, for the microcontroller ports of the hardware abstraction
  layer.  What was stored last is \<open>data_space\<close>; a load gives what the device shows at that
  moment: \<open>device s a n v\<close> is the value of the \<open>n\<close>-th load from \<open>a\<close> when \<open>v\<close> was stored there.
  Stores, and the vendor's macros with an effect, are recorded in order in \<open>events\<close>.
\<close>

record ('a, 'v, 'e) bus =
  data_space :: "'a \<Rightarrow> 'v"
  device :: "'a \<Rightarrow> nat \<Rightarrow> 'v \<Rightarrow> 'v"
  loads :: "'a \<Rightarrow> nat"
  events :: "'e list"

definition emit :: "'e \<Rightarrow> ('a, 'v, 'e, 'z) bus_scheme \<Rightarrow> ('a, 'v, 'e, 'z) bus_scheme" where
  "emit e s = s\<lparr>events := events s @ [e]\<rparr>"

text \<open>The value of the load after \<open>k\<close> further ones.\<close>

definition seen :: "'a \<Rightarrow> nat \<Rightarrow> ('a, 'v, 'e, 'z) bus_scheme \<Rightarrow> 'v" where
  "seen a k s = device s a (loads s a + k) (data_space s a)"

definition ld :: "'a \<Rightarrow> ('a, 'v, 'e, 'z) bus_scheme \<Rightarrow> 'v \<times> ('a, 'v, 'e, 'z) bus_scheme" where
  "ld a s = (device s a (loads s a) (data_space s a), s\<lparr>loads := (loads s)(a := Suc (loads s a))\<rparr>)"

text \<open>The waiting loops: until one of the bits of a register is set, or until all are clear.\<close>

definition wait_set :: "'a \<Rightarrow> 'l::len word \<Rightarrow> ('a, 'l word, 'e, 'z) bus_scheme \<Rightarrow> ('a, 'l word, 'e, 'z) bus_scheme option" where
  "wait_set a bits = poll (\<lambda>s. apfst (\<lambda>v. v AND bits \<noteq> 0) (ld a s))"

definition wait_clear :: "'a \<Rightarrow> 'l::len word \<Rightarrow> ('a, 'l word, 'e, 'z) bus_scheme \<Rightarrow> ('a, 'l word, 'e, 'z) bus_scheme option" where
  "wait_clear a bits = poll (\<lambda>s. apfst (\<lambda>v. v AND bits = 0) (ld a s))"

subsection \<open>When a wait ends\<close>

lemma looked_ld:
  "looked (\<lambda>s. apfst f (ld a s)) n s = s\<lparr>loads := (loads s)(a := loads s a + n)\<rparr>"
proof (induction n arbitrary: s)
  case (Suc n)
  show ?case unfolding looked_Suc Suc.IH by (simp add: ld_def fun_upd_def cong: if_cong)
qed simp

lemma ld_later: "fst (ld a (s\<lparr>loads := (loads s)(a := loads s a + k)\<rparr>)) = seen a k s"
  by (simp add: ld_def seen_def)

lemma look_ld: "fst (apfst f (ld a (looked (\<lambda>s. apfst f (ld a s)) n s))) = f (seen a n s)"
  unfolding looked_ld by (simp add: ld_def seen_def)

lemma wait_set_iff:
  "wait_set a bits s = Some t \<longleftrightarrow> (\<exists>n. seen a n s AND bits \<noteq> 0 \<and> (\<forall>k<n. seen a k s AND bits = 0)
     \<and> t = s\<lparr>loads := (loads s)(a := loads s a + Suc n)\<rparr>)"
  unfolding wait_set_def poll_iff looked_ld by (simp add: ld_later)

lemma wait_clear_iff:
  "wait_clear a bits s = Some t \<longleftrightarrow> (\<exists>n. seen a n s AND bits = 0 \<and> (\<forall>k<n. seen a k s AND bits \<noteq> 0)
     \<and> t = s\<lparr>loads := (loads s)(a := loads s a + Suc n)\<rparr>)"
  unfolding wait_clear_def poll_iff looked_ld by (simp add: ld_later)

lemma wait_set_returns: "(\<exists>t. wait_set a bits s = Some t) \<longleftrightarrow> (\<exists>n. seen a n s AND bits \<noteq> 0)"
  unfolding wait_set_def poll_returns_iff look_ld by simp

lemma wait_clear_returns: "(\<exists>t. wait_clear a bits s = Some t) \<longleftrightarrow> (\<exists>n. seen a n s AND bits = 0)"
  unfolding wait_clear_def poll_returns_iff look_ld by simp

end
