(* ===== verification/Hal_Avr.thy ===== *)
theory Hal_Avr
  imports Isr Vga Bus
begin

text \<open>
  The hardware abstraction layer for AVR microcontrollers, arch/avr/hal_avr.c.  Where the
  registers are, the numbers of their bits and the clock are in avr-libc, which is not part of
  the repository: they are the parameter \<open>chip\<close>.  The data space is a byte store, its loads and stores
  those of the theory Bus.
\<close>

subsection \<open>State\<close>

datatype avr_reg =
    SREG | TCCR0B | TIMSK0 | UBRR0H | UBRR0L | UCSR0A | UCSR0B | UCSR0C | UDR0 | DDRB | PORTB | SPCR | SPSR | SPDR
  | TWBR | TWCR | TWSR | TWDR | ADMUX | ADCSRA | ADCL | TCCR1A | TCCR1B | OCR1A | OCR1B

datatype avr_bit =
    CS00 | CS01 | TOIE0 | RXEN0 | TXEN0 | UCSZ00 | UCSZ01 | UDRE0 | RXC0 | TXC0 | DDB2 | DDB3 | DDB4 | DDB5
  | SPE | MSTR | SPR0 | SPI2X | SPIF | PB2 | TWEN | TWINT | TWSTA | TWSTO | TWEA | REFS0 | ADEN | ADPS0 | ADPS1 | ADPS2
  | ADSC | WGM10 | CS10 | CS11 | CS12 | COM1A1 | COM1B1

record avr_chip =
  reg_at :: "avr_reg \<Rightarrow> u16"
  bit_no :: "avr_bit \<Rightarrow> nat"
  F_CPU :: u32
  avr_heap_at :: u16
  SLEEP_MODE_PWR_DOWN :: u8
  SLEEP_MODE_IDLE :: u8
  WDTO_15MS :: u8

datatype avr_event =
    Store8 u16 u8 | Store16 u16 u16 | Set_sleep_mode u8 | Sleep_enable | Sleep_cpu | Sleep_disable | Sleep_mode
  | Wdt_enable u8 | Power_all_disable | Delay_us u32

record avr = "(u16, u8, avr_event) bus" +
  avr_heap_used :: u16
  avr_interrupt_handlers :: "u32 option list"
  avr_ticks :: u64

definition st :: "u16 \<Rightarrow> u8 \<Rightarrow> 'a avr_scheme \<Rightarrow> 'a avr_scheme" where
  "st a v s = emit (Store8 a v) (s\<lparr>data_space := (data_space s)(a := v)\<rparr>)"

text \<open>A 16-bit register, low byte first.\<close>

definition ld16 :: "u16 \<Rightarrow> 'a avr_scheme \<Rightarrow> u16 \<times> 'a avr_scheme" where
  "ld16 a s = (case ld a s of (lo, t) \<Rightarrow> case ld (a + 1) t of (hi, u) \<Rightarrow> (ucast lo OR push_bit 8 (ucast hi), u))"

definition st16 :: "u16 \<Rightarrow> u16 \<Rightarrow> 'a avr_scheme \<Rightarrow> 'a avr_scheme" where
  "st16 a v s = emit (Store16 a v) (s\<lparr>data_space := (data_space s)(a := ucast v, a + 1 := ucast (drop_bit 8 v))\<rparr>)"

text \<open>\<open>*a op= ...\<close>: a load and a store.\<close>

definition modify :: "u16 \<Rightarrow> (u8 \<Rightarrow> u8) \<Rightarrow> 'a avr_scheme \<Rightarrow> 'a avr_scheme" where
  "modify a f s = (case ld a s of (v, t) \<Rightarrow> st a (f v) t)"

text \<open>\<open>1 << n\<close> in the 16-bit \<open>int\<close> of the AVR, cut to a byte register; \<open>bv chip b\<close> for a named bit.\<close>

definition shl1 :: "nat \<Rightarrow> u8" where
  "shl1 n = ucast (push_bit n (1 :: u16))"

definition bv :: "avr_chip \<Rightarrow> avr_bit \<Rightarrow> u8" where
  "bv chip b = shl1 (bit_no chip b)"

subsection \<open>Memory\<close>

definition AVR_HEAP_SIZE :: u16 where
  "AVR_HEAP_SIZE = 4096"

text \<open>\<open>sei\<close> and \<open>cli\<close>: the interrupt flag is bit 7 of the status register.\<close>

definition sei :: "avr_chip \<Rightarrow> 'a avr_scheme \<Rightarrow> 'a avr_scheme" where
  "sei chip s = s\<lparr>data_space := (data_space s)(reg_at chip SREG := data_space s (reg_at chip SREG) OR 0x80)\<rparr>"

definition cli :: "avr_chip \<Rightarrow> 'a avr_scheme \<Rightarrow> 'a avr_scheme" where
  "cli chip s = s\<lparr>data_space := (data_space s)(reg_at chip SREG := data_space s (reg_at chip SREG) AND NOT 0x80)\<rparr>"

definition avr_init :: "avr_chip \<Rightarrow> 'a avr_scheme \<Rightarrow> 'a avr_scheme" where
  "avr_init chip s =
     (let s1 = s\<lparr>data_space := (\<lambda>a. if a - avr_heap_at chip < AVR_HEAP_SIZE then 0 else data_space s a)\<rparr>;
          s2 = s1\<lparr>avr_heap_used := 0\<rparr>
      in sei chip s2)"

definition avr_alloc_page :: "avr_chip \<Rightarrow> 'a avr_scheme \<Rightarrow> u16 \<times> 'a avr_scheme" where
  "avr_alloc_page chip s =
     (if avr_heap_used s + 256 \<le> AVR_HEAP_SIZE
      then (avr_heap_at chip + avr_heap_used s, s\<lparr>avr_heap_used := avr_heap_used s + 256\<rparr>)
      else (0, s))"

definition avr_free_page :: "u16 \<Rightarrow> 'a avr_scheme \<Rightarrow> 'a avr_scheme" where
  "avr_free_page page s = s"

definition avr_map_page :: "u16 \<Rightarrow> u16 \<Rightarrow> u32 \<Rightarrow> 'a avr_scheme \<Rightarrow> 'a avr_scheme" where
  "avr_map_page phys virt flags s = s"

definition avr_unmap_page :: "u16 \<Rightarrow> 'a avr_scheme \<Rightarrow> 'a avr_scheme" where
  "avr_unmap_page virt s = s"

definition avr_flush_tlb :: "u16 \<Rightarrow> 'a avr_scheme \<Rightarrow> 'a avr_scheme" where
  "avr_flush_tlb addr s = s"

subsection \<open>Interrupts and time\<close>

definition avr_enable_interrupts :: "avr_chip \<Rightarrow> 'a avr_scheme \<Rightarrow> 'a avr_scheme" where
  "avr_enable_interrupts chip s = sei chip s"

definition avr_disable_interrupts :: "avr_chip \<Rightarrow> 'a avr_scheme \<Rightarrow> 'a avr_scheme" where
  "avr_disable_interrupts chip s = cli chip s"

definition avr_save_interrupt_state :: "avr_chip \<Rightarrow> 'a avr_scheme \<Rightarrow> u8 \<times> 'a avr_scheme" where
  "avr_save_interrupt_state chip s = ld (reg_at chip SREG) s"

definition avr_restore_interrupt_state :: "avr_chip \<Rightarrow> u8 \<Rightarrow> 'a avr_scheme \<Rightarrow> 'a avr_scheme" where
  "avr_restore_interrupt_state chip state s = st (reg_at chip SREG) state s"

definition avr_register_interrupt_handler :: "u32 \<Rightarrow> u32 \<Rightarrow> 'a avr_scheme \<Rightarrow> 'a avr_scheme" where
  "avr_register_interrupt_handler interrupt handler s =
     (if interrupt < 32
      then s\<lparr>avr_interrupt_handlers := (avr_interrupt_handlers s)[unat interrupt := Some handler]\<rparr> else s)"

definition timer0_overflow :: "'a avr_scheme \<Rightarrow> 'a avr_scheme" where
  "timer0_overflow s = s\<lparr>avr_ticks := avr_ticks s + 1\<rparr>"

definition avr_init_timer :: "avr_chip \<Rightarrow> u32 \<Rightarrow> 'a avr_scheme \<Rightarrow> 'a avr_scheme" where
  "avr_init_timer chip frequency s =
     st (reg_at chip TIMSK0) (bv chip TOIE0) (st (reg_at chip TCCR0B) (bv chip CS01 OR bv chip CS00) s)"

definition avr_get_system_time :: "'a avr_scheme \<Rightarrow> u64" where
  "avr_get_system_time s = avr_ticks s div 250"

text \<open>\<open>wake\<close> is what happens while the processor sleeps.\<close>

partial_function (option) avr_sleep_until ::
  "('a avr_scheme \<Rightarrow> 'a avr_scheme) \<Rightarrow> u64 \<Rightarrow> 'a avr_scheme \<Rightarrow> 'a avr_scheme option"
where
  "avr_sleep_until wake target s =
     (if avr_get_system_time s < target then avr_sleep_until wake target (wake (emit Sleep_mode s)) else Some s)"

definition avr_sleep :: "('a avr_scheme \<Rightarrow> 'a avr_scheme) \<Rightarrow> u32 \<Rightarrow> 'a avr_scheme \<Rightarrow> 'a avr_scheme option" where
  "avr_sleep wake ms s = avr_sleep_until wake (avr_get_system_time s + ucast ms) s"

definition avr_busy_wait :: "u32 \<Rightarrow> 'a avr_scheme \<Rightarrow> 'a avr_scheme" where
  "avr_busy_wait us s = emit (Delay_us us) s"

subsection \<open>Ports and pins\<close>

definition avr_outb :: "u16 \<Rightarrow> u8 \<Rightarrow> 'a avr_scheme \<Rightarrow> 'a avr_scheme" where
  "avr_outb port value s = st (0x20 + port) value s"

definition avr_inb :: "u16 \<Rightarrow> 'a avr_scheme \<Rightarrow> u8 \<times> 'a avr_scheme" where
  "avr_inb port s = ld (0x20 + port) s"

definition avr_outw :: "u16 \<Rightarrow> u16 \<Rightarrow> 'a avr_scheme \<Rightarrow> 'a avr_scheme" where
  "avr_outw port value s = s"

definition avr_inw :: "u16 \<Rightarrow> 'a avr_scheme \<Rightarrow> u16 \<times> 'a avr_scheme" where
  "avr_inw port s = (0, s)"

definition avr_outl :: "u16 \<Rightarrow> u32 \<Rightarrow> 'a avr_scheme \<Rightarrow> 'a avr_scheme" where
  "avr_outl port value s = s"

definition avr_inl :: "u16 \<Rightarrow> 'a avr_scheme \<Rightarrow> u32 \<times> 'a avr_scheme" where
  "avr_inl port s = (0, s)"

text \<open>The three registers of a port, and the bit of a pin.\<close>

definition pin_port :: "u32 \<Rightarrow> u16" where
  "pin_port pin = ucast (drop_bit 4 pin AND 0xF)"

definition pin_num :: "u32 \<Rightarrow> nat" where
  "pin_num pin = unat (pin AND 0xF)"

definition avr_gpio_set_mode :: "u32 \<Rightarrow> u8 \<Rightarrow> 'a avr_scheme \<Rightarrow> 'a avr_scheme" where
  "avr_gpio_set_mode pin mode s =
     (let ddr = 0x21 + pin_port pin * 3;
          port_reg = 0x22 + pin_port pin * 3;
          b = shl1 (pin_num pin)
      in if mode = 0 then modify port_reg (\<lambda>v. v AND NOT b) (modify ddr (\<lambda>v. v AND NOT b) s)
         else if mode = 1 then modify ddr (\<lambda>v. v OR b) s
         else if mode = 2 then modify port_reg (\<lambda>v. v OR b) (modify ddr (\<lambda>v. v AND NOT b) s)
         else s)"

definition avr_gpio_write :: "u32 \<Rightarrow> bool \<Rightarrow> 'a avr_scheme \<Rightarrow> 'a avr_scheme" where
  "avr_gpio_write pin value s =
     (let port_reg = 0x22 + pin_port pin * 3; b = shl1 (pin_num pin)
      in if value then modify port_reg (\<lambda>v. v OR b) s else modify port_reg (\<lambda>v. v AND NOT b) s)"

text \<open>The comparison is on the 16-bit \<open>int\<close>, so pins above 7 read as clear.\<close>

definition avr_gpio_read :: "u32 \<Rightarrow> 'a avr_scheme \<Rightarrow> bool \<times> 'a avr_scheme" where
  "avr_gpio_read pin s =
     (case ld (0x20 + pin_port pin * 3) s of (v, t) \<Rightarrow> ((ucast v :: u16) AND push_bit (pin_num pin) 1 \<noteq> 0, t))"

definition avr_gpio_toggle :: "u32 \<Rightarrow> 'a avr_scheme \<Rightarrow> 'a avr_scheme" where
  "avr_gpio_toggle pin s = st (0x20 + pin_port pin * 3) (shl1 (pin_num pin)) s"

subsection \<open>Serial interfaces\<close>

definition avr_uart_init :: "avr_chip \<Rightarrow> u32 \<Rightarrow> 'a avr_scheme \<Rightarrow> 'a avr_scheme option" where
  "avr_uart_init chip baud_rate s =
     (if baud_rate = 0 then None
      else let ubrr = ucast (F_CPU chip div 16 div baud_rate - 1) :: u16;
               s1 = st (reg_at chip UBRR0H) (ucast (drop_bit 8 ubrr)) s;
               s2 = st (reg_at chip UBRR0L) (ucast ubrr) s1;
               s3 = st (reg_at chip UCSR0B) (bv chip RXEN0 OR bv chip TXEN0) s2
           in Some (st (reg_at chip UCSR0C) (bv chip UCSZ01 OR bv chip UCSZ00) s3))"

definition avr_uart_putc :: "avr_chip \<Rightarrow> u8 \<Rightarrow> 'a avr_scheme \<Rightarrow> 'a avr_scheme option" where
  "avr_uart_putc chip c s =
     map_option (st (reg_at chip UDR0) c) (wait_set (reg_at chip UCSR0A) (bv chip UDRE0) s)"

definition avr_uart_getc :: "avr_chip \<Rightarrow> 'a avr_scheme \<Rightarrow> (u8 \<times> 'a avr_scheme) option" where
  "avr_uart_getc chip s =
     map_option (ld (reg_at chip UDR0)) (wait_set (reg_at chip UCSR0A) (bv chip RXC0) s)"

definition avr_uart_data_available :: "avr_chip \<Rightarrow> 'a avr_scheme \<Rightarrow> bool \<times> 'a avr_scheme" where
  "avr_uart_data_available chip s =
     (case ld (reg_at chip UCSR0A) s of (v, t) \<Rightarrow> (v AND bv chip RXC0 \<noteq> 0, t))"

definition avr_uart_flush :: "avr_chip \<Rightarrow> 'a avr_scheme \<Rightarrow> 'a avr_scheme option" where
  "avr_uart_flush chip s = wait_set (reg_at chip UCSR0A) (bv chip TXC0) s"

definition avr_spi_init :: "avr_chip \<Rightarrow> u32 \<Rightarrow> 'a avr_scheme \<Rightarrow> 'a avr_scheme" where
  "avr_spi_init chip clock_div s =
     (let s1 = modify (reg_at chip DDRB) (\<lambda>v. v OR bv chip DDB2) s;
          s2 = modify (reg_at chip DDRB) (\<lambda>v. v OR bv chip DDB3) s1;
          s3 = modify (reg_at chip DDRB) (\<lambda>v. v AND NOT (bv chip DDB4)) s2;
          s4 = modify (reg_at chip DDRB) (\<lambda>v. v OR bv chip DDB5) s3;
          s5 = st (reg_at chip SPCR)
                 (bv chip SPE OR bv chip MSTR OR ucast (push_bit (bit_no chip SPR0) (clock_div AND 0x03))) s4
      in if clock_div AND 0x04 \<noteq> 0 then st (reg_at chip SPSR) (bv chip SPI2X) s5 else s5)"

definition avr_spi_transfer :: "avr_chip \<Rightarrow> u8 \<Rightarrow> 'a avr_scheme \<Rightarrow> (u8 \<times> 'a avr_scheme) option" where
  "avr_spi_transfer chip data s =
     map_option (ld (reg_at chip SPDR))
       (wait_set (reg_at chip SPSR) (bv chip SPIF) (st (reg_at chip SPDR) data s))"

definition avr_spi_chip_select :: "avr_chip \<Rightarrow> u8 \<Rightarrow> bool \<Rightarrow> 'a avr_scheme \<Rightarrow> 'a avr_scheme" where
  "avr_spi_chip_select chip chip_no select s =
     (if select then modify (reg_at chip PORTB) (\<lambda>v. v AND NOT (bv chip PB2)) s
      else modify (reg_at chip PORTB) (\<lambda>v. v OR bv chip PB2) s)"

definition avr_i2c_init :: "avr_chip \<Rightarrow> u32 \<Rightarrow> 'a avr_scheme \<Rightarrow> 'a avr_scheme option" where
  "avr_i2c_init chip clock_speed s =
     (if clock_speed = 0 then None
      else Some (st (reg_at chip TWCR) (bv chip TWEN)
             (st (reg_at chip TWBR) (ucast ((F_CPU chip div clock_speed - 16) div 2)) s)))"

text \<open>The waiting loop of the two-wire interface.\<close>

definition twi_wait :: "avr_chip \<Rightarrow> 'a avr_scheme \<Rightarrow> 'a avr_scheme option" where
  "twi_wait chip s = wait_set (reg_at chip TWCR) (bv chip TWINT) s"

definition avr_i2c_start :: "avr_chip \<Rightarrow> u8 \<Rightarrow> bool \<Rightarrow> 'a avr_scheme \<Rightarrow> (bool \<times> 'a avr_scheme) option" where
  "avr_i2c_start chip address read s =
     Option.bind (twi_wait chip (st (reg_at chip TWCR) (bv chip TWINT OR bv chip TWSTA OR bv chip TWEN) s)) (\<lambda>s1.
     case ld (reg_at chip TWSR) s1 of (status, s2) \<Rightarrow>
       if status AND 0xF8 \<noteq> 0x08 then Some (False, s2)
       else
         let s3 = st (reg_at chip TWDR) (push_bit 1 address OR (if read then 1 else 0)) s2;
             s4 = st (reg_at chip TWCR) (bv chip TWINT OR bv chip TWEN) s3
         in map_option (\<lambda>s5. case ld (reg_at chip TWSR) s5 of (status, s6) \<Rightarrow>
              (status AND 0xF8 = (if read then 0x40 else 0x18), s6)) (twi_wait chip s4))"

definition avr_i2c_stop :: "avr_chip \<Rightarrow> 'a avr_scheme \<Rightarrow> 'a avr_scheme" where
  "avr_i2c_stop chip s = st (reg_at chip TWCR) (bv chip TWINT OR bv chip TWSTO OR bv chip TWEN) s"

definition avr_i2c_write :: "avr_chip \<Rightarrow> u8 \<Rightarrow> 'a avr_scheme \<Rightarrow> (bool \<times> 'a avr_scheme) option" where
  "avr_i2c_write chip data s =
     map_option (\<lambda>t. case ld (reg_at chip TWSR) t of (status, u) \<Rightarrow> (status AND 0xF8 = 0x28, u))
       (twi_wait chip (st (reg_at chip TWCR) (bv chip TWINT OR bv chip TWEN) (st (reg_at chip TWDR) data s)))"

definition avr_i2c_read :: "avr_chip \<Rightarrow> bool \<Rightarrow> 'a avr_scheme \<Rightarrow> (u8 \<times> 'a avr_scheme) option" where
  "avr_i2c_read chip ack s =
     map_option (ld (reg_at chip TWDR)) (twi_wait chip
       (st (reg_at chip TWCR) (bv chip TWINT OR bv chip TWEN OR (if ack then bv chip TWEA else 0)) s))"

definition avr_can_init :: "u32 \<Rightarrow> 'a avr_scheme \<Rightarrow> 'a avr_scheme" where
  "avr_can_init baudrate s = s"

definition avr_can_send :: "u32 \<Rightarrow> u8 list \<Rightarrow> u8 \<Rightarrow> 'a avr_scheme \<Rightarrow> bool \<times> 'a avr_scheme" where
  "avr_can_send ident data len s = (False, s)"

definition avr_can_receive :: "'a avr_scheme \<Rightarrow> (u32 \<times> u8 list) option \<times> 'a avr_scheme" where
  "avr_can_receive s = (None, s)"

definition avr_can_message_available :: "'a avr_scheme \<Rightarrow> bool" where
  "avr_can_message_available s = False"

subsection \<open>Conversion and pulse width\<close>

definition avr_adc_init :: "avr_chip \<Rightarrow> 'a avr_scheme \<Rightarrow> 'a avr_scheme" where
  "avr_adc_init chip s =
     st (reg_at chip ADCSRA) (bv chip ADEN OR bv chip ADPS2 OR bv chip ADPS1 OR bv chip ADPS0)
       (st (reg_at chip ADMUX) (bv chip REFS0) s)"

definition avr_adc_start_conversion :: "avr_chip \<Rightarrow> u8 \<Rightarrow> 'a avr_scheme \<Rightarrow> 'a avr_scheme" where
  "avr_adc_start_conversion chip channel s =
     modify (reg_at chip ADCSRA) (\<lambda>v. v OR bv chip ADSC)
       (modify (reg_at chip ADMUX) (\<lambda>v. v AND 0xF0 OR channel AND 0x0F) s)"

definition avr_adc_read :: "avr_chip \<Rightarrow> u8 \<Rightarrow> 'a avr_scheme \<Rightarrow> (u16 \<times> 'a avr_scheme) option" where
  "avr_adc_read chip channel s =
     (let s1 = modify (reg_at chip ADMUX) (\<lambda>v. v AND 0xF0 OR channel AND 0x0F) s;
          s2 = modify (reg_at chip ADCSRA) (\<lambda>v. v OR bv chip ADSC) s1
      in map_option (ld16 (reg_at chip ADCL)) (wait_clear (reg_at chip ADCSRA) (bv chip ADSC) s2))"

definition avr_adc_conversion_done :: "avr_chip \<Rightarrow> 'a avr_scheme \<Rightarrow> bool \<times> 'a avr_scheme" where
  "avr_adc_conversion_done chip s =
     (case ld (reg_at chip ADCSRA) s of (v, t) \<Rightarrow> (v AND bv chip ADSC = 0, t))"

definition pwm_prescaler :: "avr_chip \<Rightarrow> u32 \<Rightarrow> u8" where
  "pwm_prescaler chip frequency =
     (if frequency \<le> 30 then bv chip CS12 OR bv chip CS10
      else if frequency \<le> 250 then bv chip CS12
      else if frequency \<le> 2000 then bv chip CS11 OR bv chip CS10
      else if frequency \<le> 8000 then bv chip CS11
      else bv chip CS10)"

definition avr_pwm_init :: "avr_chip \<Rightarrow> u32 \<Rightarrow> 'a avr_scheme \<Rightarrow> 'a avr_scheme" where
  "avr_pwm_init chip frequency s =
     modify (reg_at chip TCCR1B)
       (\<lambda>v. v AND NOT (bv chip CS12 OR bv chip CS11 OR bv chip CS10) OR pwm_prescaler chip frequency)
       (st (reg_at chip TCCR1A) (bv chip WGM10) s)"

definition avr_pwm_set_duty :: "avr_chip \<Rightarrow> u8 \<Rightarrow> u8 \<Rightarrow> 'a avr_scheme \<Rightarrow> 'a avr_scheme" where
  "avr_pwm_set_duty chip channel duty s =
     (if channel = 0 then st16 (reg_at chip OCR1A) (ucast duty) s
      else if channel = 1 then st16 (reg_at chip OCR1B) (ucast duty) s
      else s)"

text \<open>A shift by 16 or more is undefined in the 16-bit \<open>int\<close>.\<close>

definition avr_pwm_enable :: "avr_chip \<Rightarrow> u8 \<Rightarrow> 'a avr_scheme \<Rightarrow> 'a avr_scheme option" where
  "avr_pwm_enable chip channel s =
     (if 16 \<le> 1 + unat channel then None
      else let t = modify (reg_at chip DDRB) (\<lambda>v. v OR shl1 (1 + unat channel)) s
           in Some (if channel = 0 then modify (reg_at chip TCCR1A) (\<lambda>v. v OR bv chip COM1A1) t
                else if channel = 1 then modify (reg_at chip TCCR1A) (\<lambda>v. v OR bv chip COM1B1) t
                else t))"

definition avr_pwm_disable :: "avr_chip \<Rightarrow> u8 \<Rightarrow> 'a avr_scheme \<Rightarrow> 'a avr_scheme" where
  "avr_pwm_disable chip channel s =
     (if channel = 0 then modify (reg_at chip TCCR1A) (\<lambda>v. v AND NOT (bv chip COM1A1)) s
      else if channel = 1 then modify (reg_at chip TCCR1A) (\<lambda>v. v AND NOT (bv chip COM1B1)) s
      else s)"

subsection \<open>Power and platform\<close>

definition avr_enter_sleep_mode :: "('a avr_scheme \<Rightarrow> 'a avr_scheme) \<Rightarrow> u8 \<Rightarrow> 'a avr_scheme \<Rightarrow> 'a avr_scheme" where
  "avr_enter_sleep_mode wake mode s =
     emit Sleep_disable (wake (emit Sleep_cpu (emit Sleep_enable (emit (Set_sleep_mode mode) s))))"

text \<open>Both end in a loop without end.\<close>

definition avr_reset :: "avr_chip \<Rightarrow> 'a avr_scheme \<Rightarrow> 'a avr_scheme outcome" where
  "avr_reset chip s = Halted (emit (Wdt_enable (WDTO_15MS chip)) s)"

definition avr_shutdown ::
  "avr_chip \<Rightarrow> ('a avr_scheme \<Rightarrow> 'a avr_scheme) \<Rightarrow> 'a avr_scheme \<Rightarrow> 'a avr_scheme outcome"
where
  "avr_shutdown chip wake s =
     (let s1 = st (reg_at chip ADCSRA) 0 s;
          s2 = emit Power_all_disable s1;
          s3 = emit (Set_sleep_mode (SLEEP_MODE_PWR_DOWN chip)) s2;
          s4 = emit Sleep_cpu (emit Sleep_enable s3)
      in Halted (wake s4))"

text \<open>\<open>%d\<close> reads an \<open>int\<close>, the low half of the argument: a clock has fewer than 32768 MHz.\<close>

definition avr_get_platform_info :: "avr_chip \<Rightarrow> u16 \<Rightarrow> string option" where
  "avr_get_platform_info chip sz =
     (if sz = 0 then None
      else Some (take (unat sz - 1)
        (''AVR ATmega MCU @ '' @ decimal (unat (F_CPU chip div 1000000)) @ '' MHz'')))"

definition avr_get_cpu_frequency :: "avr_chip \<Rightarrow> u32" where
  "avr_get_cpu_frequency chip = F_CPU chip"

definition avr_idle :: "avr_chip \<Rightarrow> ('a avr_scheme \<Rightarrow> 'a avr_scheme) \<Rightarrow> 'a avr_scheme \<Rightarrow> 'a avr_scheme" where
  "avr_idle chip wake s = wake (emit Sleep_mode (emit (Set_sleep_mode (SLEEP_MODE_IDLE chip)) s))"

subsection \<open>The heap\<close>

text \<open>The results of \<open>n\<close> allocations one after the other.\<close>

fun avr_allocs :: "avr_chip \<Rightarrow> nat \<Rightarrow> 'a avr_scheme \<Rightarrow> u16 list" where
  "avr_allocs chip 0 s = []"
| "avr_allocs chip (Suc n) s = (case avr_alloc_page chip s of (p, t) \<Rightarrow> p # avr_allocs chip n t)"

lemma alloc_page_next:
  assumes "avr_heap_used s = 256 * of_nat k" "k < 16"
  shows "avr_alloc_page chip s = (avr_heap_at chip + 256 * of_nat k, s\<lparr>avr_heap_used := 256 * of_nat (Suc k)\<rparr>)"
proof -
  have "unat (256 * of_nat k + 256 :: u16) = 256 * k + 256"
    using assms(2) by (simp add: unat_word_ariths unat_of_nat take_bit_eq_mod)
  then have "256 * of_nat k + 256 \<le> (4096 :: u16)" using assms(2) by (simp add: word_le_nat_alt)
  then show ?thesis by (simp add: avr_alloc_page_def AVR_HEAP_SIZE_def assms(1) add.commute)
qed

lemma alloc_page_full: "avr_heap_used s = 4096 \<Longrightarrow> avr_alloc_page chip s = (0, s)"
  by (simp add: avr_alloc_page_def AVR_HEAP_SIZE_def)

lemma allocs_full: "avr_heap_used s = 4096 \<Longrightarrow> avr_allocs chip n s = replicate n 0"
  by (induction n) (simp_all add: alloc_page_full)

lemma allocs_from:
  "avr_heap_used s = 256 * of_nat k \<Longrightarrow> k \<le> 16 \<Longrightarrow>
    avr_allocs chip n s = map (\<lambda>i. avr_heap_at chip + 256 * of_nat i) [k..<min (k + n) 16] @ replicate (k + n - 16) 0"
proof (induction n arbitrary: k s)
  case (Suc n)
  show ?case
  proof (cases "k = 16")
    case True
    then show ?thesis using Suc.prems allocs_full [of s chip "Suc n"] by simp
  next
    case False
    then have k: "k < 16" using Suc.prems(2) by simp
    have "avr_allocs chip n (s\<lparr>avr_heap_used := 256 * of_nat (Suc k)\<rparr>)
        = map (\<lambda>i. avr_heap_at chip + 256 * of_nat i) [Suc k..<min (Suc k + n) 16] @ replicate (Suc k + n - 16) 0"
      by (rule Suc.IH) (use k in simp_all)
    moreover have "[k..<min (Suc k + n) 16] = k # [Suc k..<min (Suc k + n) 16]"
      using k by (intro upt_conv_Cons) simp
    ultimately show ?thesis using alloc_page_next [OF Suc.prems(1) k] by simp
  qed
qed simp

text \<open>Pins above the eighth of a port have no bit in its registers.\<close>

lemma shl1_high: "8 \<le> n \<Longrightarrow> shl1 n = 0"
  by (rule bit_word_eqI) (auto simp: shl1_def bit_simps)

subsection \<open>Properties\<close>

text \<open>The page allocator of the AVR port.  After \<open>hal_init\<close> the first sixteen allocations
  return the sixteen 256-byte blocks of the heap in order, and every later one \<open>NULL\<close>: nothing
  given back is used again.\<close>

theorem avr_heap_pages:
  "avr_allocs chip n (avr_init chip s)
     = map (\<lambda>i. avr_heap_at chip + 256 * of_nat i) [0..<min n 16] @ replicate (n - 16) 0
   \<and> avr_alloc_page chip (avr_free_page p s) = avr_alloc_page chip s"
proof
  have "avr_heap_used (avr_init chip s) = 256 * of_nat 0" by (simp add: avr_init_def sei_def Let_def)
  then show "avr_allocs chip n (avr_init chip s)
     = map (\<lambda>i. avr_heap_at chip + 256 * of_nat i) [0..<min n 16] @ replicate (n - 16) 0"
    using allocs_from [of "avr_init chip s" 0 chip n] by simp
  show "avr_alloc_page chip (avr_free_page p s) = avr_alloc_page chip s" by (simp add: avr_free_page_def)
qed

end
