(* ===== verification/Hal_Arm.thy ===== *)
theory Hal_Arm
  imports Isr Vga Bus Clock
begin

text \<open>
  The hardware abstraction layer for the STM32F4 (ARM Cortex-M4), arch/arm/hal_arm.c.  Register
  addresses, the offsets inside a GPIO port and the bit masks are in the vendor's header, which
  is not part of the repository: they are the parameter \<open>chip\<close>.  Registers are 32 bits wide;
  the CMSIS functions with an effect outside the registers are recorded as events.  \<open>wake\<close> is
  what happens while the processor waits for an interrupt.
\<close>

subsection \<open>State\<close>

datatype arm_reg =
    RCC_AHB1ENR | RCC_APB1ENR | RCC_APB2ENR | USART1_BRR | USART1_CR1 | USART1_SR | USART1_DR
  | SPI1_CR1 | SPI1_SR | SPI1_DR | I2C1_CR1 | I2C1_CR2 | I2C1_CCR | I2C1_TRISE | I2C1_SR1 | I2C1_SR2 | I2C1_DR
  | ADC1_CR2 | ADC1_SQR3 | ADC1_SR | ADC1_DR
  | TIM2_PSC | TIM2_ARR | TIM2_CR1 | TIM2_CCR1 | TIM2_CCR2 | TIM2_CCR3 | TIM2_CCR4 | TIM2_CCER | SCB_SCR | PWR_CR

datatype gpio_reg = MODER | IDR | ODR | BSRR

datatype arm_bit =
    RCC_APB2ENR_USART1EN | RCC_APB2ENR_SPI1EN | RCC_APB1ENR_I2C1EN | RCC_APB2ENR_ADC1EN | RCC_APB1ENR_TIM2EN
  | USART_CR1_TE | USART_CR1_RE | USART_CR1_UE | USART_SR_TXE | USART_SR_RXNE | USART_SR_TC
  | SPI_CR1_MSTR | SPI_CR1_SSI | SPI_CR1_SSM | SPI_CR1_SPE | SPI_SR_TXE | SPI_SR_RXNE
  | I2C_CR1_PE | I2C_CR1_START | I2C_CR1_STOP | I2C_CR1_ACK | I2C_SR1_SB | I2C_SR1_ADDR | I2C_SR1_TXE | I2C_SR1_BTF | I2C_SR1_RXNE
  | ADC_CR2_ADON | ADC_CR2_SWSTART | ADC_SR_EOC | TIM_CR1_CEN | PWR_CR_PDDS | SCB_SCR_SLEEPDEEP_Msk

record arm_chip =
  arm_reg_at :: "arm_reg \<Rightarrow> u32"
  gpio_offset :: "gpio_reg \<Rightarrow> u32"
  GPIOA_BASE :: u32
  arm_mask :: "arm_bit \<Rightarrow> u32"

datatype arm_event =
    Store32 u32 u32 | System_init | Systick_config u32 | Set_vector u32 u32 | Enable_vector u32
  | Dsb | Isb | Nop | Wfi | System_reset

record arm = "(u32, u32, arm_event) bus" +
  primask :: u32
  arm_ticks :: u64
  system_core_clock :: u32

definition str :: "u32 \<Rightarrow> u32 \<Rightarrow> 'a arm_scheme \<Rightarrow> 'a arm_scheme" where
  "str a v s = emit (Store32 a v) (s\<lparr>data_space := (data_space s)(a := v)\<rparr>)"

text \<open>\<open>*a op= ...\<close>: a load and a store.\<close>

definition arm_modify :: "u32 \<Rightarrow> (u32 \<Rightarrow> u32) \<Rightarrow> 'a arm_scheme \<Rightarrow> 'a arm_scheme" where
  "arm_modify a f s = (case ld a s of (v, t) \<Rightarrow> str a (f v) t)"

definition set_bits :: "arm_chip \<Rightarrow> arm_reg \<Rightarrow> arm_bit \<Rightarrow> 'a arm_scheme \<Rightarrow> 'a arm_scheme" where
  "set_bits chip r b = arm_modify (arm_reg_at chip r) (\<lambda>v. v OR arm_mask chip b)"

text \<open>\<open>while (!(r & b));\<close>\<close>

definition arm_wait :: "arm_chip \<Rightarrow> arm_reg \<Rightarrow> arm_bit \<Rightarrow> 'a arm_scheme \<Rightarrow> 'a arm_scheme option" where
  "arm_wait chip r b s = wait_set (arm_reg_at chip r) (arm_mask chip b) s"

definition wfi :: "('a arm_scheme \<Rightarrow> 'a arm_scheme) \<Rightarrow> 'a arm_scheme \<Rightarrow> 'a arm_scheme" where
  "wfi wake s = wake (emit Wfi s)"

subsection \<open>Start, memory and interrupts\<close>

text \<open>\<open>SystemInit\<close> may set the clock variable: \<open>start\<close> is its effect.  A division by zero is
  \<open>None\<close>.\<close>

definition arm_init :: "('a arm_scheme \<Rightarrow> 'a arm_scheme) \<Rightarrow> 'a arm_scheme \<Rightarrow> 'a arm_scheme" where
  "arm_init start s =
     (let s1 = start (emit System_init s);
          s2 = emit (Systick_config (system_core_clock s1 div 1000)) s1
      in s2\<lparr>primask := 0\<rparr>)"

definition arm_alloc_page :: "'a arm_scheme \<Rightarrow> u32 \<times> 'a arm_scheme" where
  "arm_alloc_page s = (0, s)"

definition arm_free_page :: "u32 \<Rightarrow> 'a arm_scheme \<Rightarrow> 'a arm_scheme" where
  "arm_free_page page s = s"

definition arm_map_page :: "u32 \<Rightarrow> u32 \<Rightarrow> u32 \<Rightarrow> 'a arm_scheme \<Rightarrow> 'a arm_scheme" where
  "arm_map_page phys virt flags s = s"

definition arm_unmap_page :: "u32 \<Rightarrow> 'a arm_scheme \<Rightarrow> 'a arm_scheme" where
  "arm_unmap_page virt s = s"

definition arm_flush_tlb :: "u32 \<Rightarrow> 'a arm_scheme \<Rightarrow> 'a arm_scheme" where
  "arm_flush_tlb addr s = emit Isb (emit Dsb s)"

definition arm_enable_interrupts :: "'a arm_scheme \<Rightarrow> 'a arm_scheme" where
  "arm_enable_interrupts s = s\<lparr>primask := 0\<rparr>"

definition arm_disable_interrupts :: "'a arm_scheme \<Rightarrow> 'a arm_scheme" where
  "arm_disable_interrupts s = s\<lparr>primask := 1\<rparr>"

definition arm_save_interrupt_state :: "'a arm_scheme \<Rightarrow> u32 \<times> 'a arm_scheme" where
  "arm_save_interrupt_state s = (primask s, s\<lparr>primask := 1\<rparr>)"

definition arm_restore_interrupt_state :: "u32 \<Rightarrow> 'a arm_scheme \<Rightarrow> 'a arm_scheme" where
  "arm_restore_interrupt_state state s = s\<lparr>primask := state\<rparr>"

definition arm_register_interrupt_handler :: "u32 \<Rightarrow> u32 \<Rightarrow> 'a arm_scheme \<Rightarrow> 'a arm_scheme" where
  "arm_register_interrupt_handler interrupt handler s =
     emit (Enable_vector interrupt) (emit (Set_vector interrupt handler) s)"

subsection \<open>Time\<close>

definition SysTick_Handler :: "'a arm_scheme \<Rightarrow> 'a arm_scheme" where
  "SysTick_Handler s = s\<lparr>arm_ticks := arm_ticks s + 1\<rparr>"

definition arm_init_timer :: "u32 \<Rightarrow> 'a arm_scheme \<Rightarrow> 'a arm_scheme option" where
  "arm_init_timer frequency s =
     (if frequency = 0 then None else Some (emit (Systick_config (system_core_clock s div frequency)) s))"

definition arm_get_system_time :: "'a arm_scheme \<Rightarrow> u64" where
  "arm_get_system_time s = arm_ticks s"

partial_function (option) arm_sleep_until ::
  "('a arm_scheme \<Rightarrow> 'a arm_scheme) \<Rightarrow> u64 \<Rightarrow> 'a arm_scheme \<Rightarrow> 'a arm_scheme option"
where
  "arm_sleep_until wake target s =
     (if arm_ticks s < target then arm_sleep_until wake target (wfi wake s) else Some s)"

definition arm_sleep :: "('a arm_scheme \<Rightarrow> 'a arm_scheme) \<Rightarrow> u32 \<Rightarrow> 'a arm_scheme \<Rightarrow> 'a arm_scheme option" where
  "arm_sleep wake ms s = arm_sleep_until wake (arm_ticks s + ucast ms) s"

definition arm_busy_wait :: "u32 \<Rightarrow> 'a arm_scheme \<Rightarrow> 'a arm_scheme" where
  "arm_busy_wait us s = for_lt 0 (system_core_clock s div 1000000 * us) (\<lambda>_ _. True) (\<lambda>_. emit Nop) s"

subsection \<open>Pins\<close>

text \<open>A register of the port of a pin, and the number of the pin in it.\<close>

definition gpio_port :: "arm_chip \<Rightarrow> u32 \<Rightarrow> gpio_reg \<Rightarrow> u32" where
  "gpio_port chip pin r = GPIOA_BASE chip + drop_bit 4 pin * 0x400 + gpio_offset chip r"

definition arm_pin_num :: "u32 \<Rightarrow> nat" where
  "arm_pin_num pin = unat (pin AND 0xF)"

text \<open>The clock enable shifts by the port number, which must be below 32.\<close>

definition arm_gpio_set_mode :: "arm_chip \<Rightarrow> u32 \<Rightarrow> u8 \<Rightarrow> 'a arm_scheme \<Rightarrow> 'a arm_scheme option" where
  "arm_gpio_set_mode chip pin mode s =
     (if 32 \<le> unat (drop_bit 4 pin) then None
      else let s1 = arm_modify (arm_reg_at chip RCC_AHB1ENR) (\<lambda>v. v OR push_bit (unat (drop_bit 4 pin)) 1) s;
               s2 = arm_modify (gpio_port chip pin MODER) (\<lambda>v. v AND NOT (push_bit (arm_pin_num pin * 2) 3)) s1
           in Some (arm_modify (gpio_port chip pin MODER)
                      (\<lambda>v. v OR push_bit (arm_pin_num pin * 2) (ucast mode AND 3)) s2))"

definition arm_gpio_write :: "arm_chip \<Rightarrow> u32 \<Rightarrow> bool \<Rightarrow> 'a arm_scheme \<Rightarrow> 'a arm_scheme" where
  "arm_gpio_write chip pin value s =
     (if value then str (gpio_port chip pin BSRR) (push_bit (arm_pin_num pin) 1) s
      else str (gpio_port chip pin BSRR) (push_bit (arm_pin_num pin + 16) 1) s)"

definition arm_gpio_read :: "arm_chip \<Rightarrow> u32 \<Rightarrow> 'a arm_scheme \<Rightarrow> bool \<times> 'a arm_scheme" where
  "arm_gpio_read chip pin s =
     (case ld (gpio_port chip pin IDR) s of (v, t) \<Rightarrow> (v AND push_bit (arm_pin_num pin) 1 \<noteq> 0, t))"

definition arm_gpio_toggle :: "arm_chip \<Rightarrow> u32 \<Rightarrow> 'a arm_scheme \<Rightarrow> 'a arm_scheme" where
  "arm_gpio_toggle chip pin s = arm_modify (gpio_port chip pin ODR) (\<lambda>v. v XOR push_bit (arm_pin_num pin) 1) s"

subsection \<open>Serial interfaces\<close>

definition arm_uart_init :: "arm_chip \<Rightarrow> u32 \<Rightarrow> 'a arm_scheme \<Rightarrow> 'a arm_scheme option" where
  "arm_uart_init chip baud_rate s =
     (if baud_rate = 0 then None
      else let s1 = set_bits chip RCC_APB2ENR RCC_APB2ENR_USART1EN s;
               s2 = str (arm_reg_at chip USART1_BRR) (system_core_clock s1 div baud_rate) s1
           in Some (str (arm_reg_at chip USART1_CR1)
                (arm_mask chip USART_CR1_TE OR arm_mask chip USART_CR1_RE OR arm_mask chip USART_CR1_UE) s2))"

definition arm_uart_putc :: "arm_chip \<Rightarrow> u8 \<Rightarrow> 'a arm_scheme \<Rightarrow> 'a arm_scheme option" where
  "arm_uart_putc chip c s =
     map_option (str (arm_reg_at chip USART1_DR) (ucast c)) (arm_wait chip USART1_SR USART_SR_TXE s)"

definition arm_uart_getc :: "arm_chip \<Rightarrow> 'a arm_scheme \<Rightarrow> (u8 \<times> 'a arm_scheme) option" where
  "arm_uart_getc chip s =
     map_option (\<lambda>t. apfst ucast (ld (arm_reg_at chip USART1_DR) t)) (arm_wait chip USART1_SR USART_SR_RXNE s)"

definition arm_uart_data_available :: "arm_chip \<Rightarrow> 'a arm_scheme \<Rightarrow> bool \<times> 'a arm_scheme" where
  "arm_uart_data_available chip s =
     (case ld (arm_reg_at chip USART1_SR) s of (v, t) \<Rightarrow> (v AND arm_mask chip USART_SR_RXNE \<noteq> 0, t))"

definition arm_uart_flush :: "arm_chip \<Rightarrow> 'a arm_scheme \<Rightarrow> 'a arm_scheme option" where
  "arm_uart_flush chip s = arm_wait chip USART1_SR USART_SR_TC s"

definition arm_spi_init :: "arm_chip \<Rightarrow> u32 \<Rightarrow> 'a arm_scheme \<Rightarrow> 'a arm_scheme" where
  "arm_spi_init chip clock_div s =
     str (arm_reg_at chip SPI1_CR1)
       (arm_mask chip SPI_CR1_MSTR OR arm_mask chip SPI_CR1_SSI OR arm_mask chip SPI_CR1_SSM
        OR push_bit 3 (clock_div AND 7) OR arm_mask chip SPI_CR1_SPE)
       (set_bits chip RCC_APB2ENR RCC_APB2ENR_SPI1EN s)"

definition arm_spi_transfer :: "arm_chip \<Rightarrow> u8 \<Rightarrow> 'a arm_scheme \<Rightarrow> (u8 \<times> 'a arm_scheme) option" where
  "arm_spi_transfer chip data s =
     Option.bind (arm_wait chip SPI1_SR SPI_SR_TXE s) (\<lambda>s1.
     map_option (\<lambda>t. apfst ucast (ld (arm_reg_at chip SPI1_DR) t))
       (arm_wait chip SPI1_SR SPI_SR_RXNE (str (arm_reg_at chip SPI1_DR) (ucast data) s1)))"

definition arm_spi_chip_select :: "arm_chip \<Rightarrow> u8 \<Rightarrow> bool \<Rightarrow> 'a arm_scheme \<Rightarrow> 'a arm_scheme" where
  "arm_spi_chip_select chip chip_no select s = arm_gpio_write chip (ucast chip_no) (\<not> select) s"

definition arm_i2c_init :: "arm_chip \<Rightarrow> u32 \<Rightarrow> 'a arm_scheme \<Rightarrow> 'a arm_scheme option" where
  "arm_i2c_init chip clock_speed s =
     (if clock_speed * 2 = 0 then None
      else let s1 = set_bits chip RCC_APB1ENR RCC_APB1ENR_I2C1EN s;
               s2 = str (arm_reg_at chip I2C1_CR2) (system_core_clock s1 div 1000000) s1;
               s3 = str (arm_reg_at chip I2C1_CCR) (system_core_clock s2 div (clock_speed * 2)) s2;
               s4 = str (arm_reg_at chip I2C1_TRISE) (system_core_clock s3 div 1000000 + 1) s3
           in Some (set_bits chip I2C1_CR1 I2C_CR1_PE s4))"

text \<open>The result is always success: a missing acknowledgement is a wait without end.\<close>

definition arm_i2c_start :: "arm_chip \<Rightarrow> u8 \<Rightarrow> bool \<Rightarrow> 'a arm_scheme \<Rightarrow> (bool \<times> 'a arm_scheme) option" where
  "arm_i2c_start chip address read s =
     Option.bind (arm_wait chip I2C1_SR1 I2C_SR1_SB (set_bits chip I2C1_CR1 I2C_CR1_START s)) (\<lambda>s1.
     map_option (\<lambda>s2. (True, snd (ld (arm_reg_at chip I2C1_SR2) s2)))
       (arm_wait chip I2C1_SR1 I2C_SR1_ADDR
         (str (arm_reg_at chip I2C1_DR) (push_bit 1 (ucast address) OR (if read then 1 else 0)) s1)))"

definition arm_i2c_stop :: "arm_chip \<Rightarrow> 'a arm_scheme \<Rightarrow> 'a arm_scheme" where
  "arm_i2c_stop chip s = set_bits chip I2C1_CR1 I2C_CR1_STOP s"

definition arm_i2c_write :: "arm_chip \<Rightarrow> u8 \<Rightarrow> 'a arm_scheme \<Rightarrow> (bool \<times> 'a arm_scheme) option" where
  "arm_i2c_write chip data s =
     Option.bind (arm_wait chip I2C1_SR1 I2C_SR1_TXE s) (\<lambda>s1.
     map_option (Pair True)
       (arm_wait chip I2C1_SR1 I2C_SR1_BTF (str (arm_reg_at chip I2C1_DR) (ucast data) s1)))"

definition arm_i2c_read :: "arm_chip \<Rightarrow> bool \<Rightarrow> 'a arm_scheme \<Rightarrow> (u8 \<times> 'a arm_scheme) option" where
  "arm_i2c_read chip ack s =
     (let s1 = (if \<not> ack then arm_modify (arm_reg_at chip I2C1_CR1) (\<lambda>v. v AND NOT (arm_mask chip I2C_CR1_ACK)) s else s)
      in map_option (\<lambda>s2. case ld (arm_reg_at chip I2C1_DR) s2 of (v, s3) \<Rightarrow>
           (ucast v, if \<not> ack then set_bits chip I2C1_CR1 I2C_CR1_ACK s3 else s3))
         (arm_wait chip I2C1_SR1 I2C_SR1_RXNE s1))"

subsection \<open>Conversion and pulse width\<close>

definition arm_adc_init :: "arm_chip \<Rightarrow> 'a arm_scheme \<Rightarrow> 'a arm_scheme" where
  "arm_adc_init chip s = set_bits chip ADC1_CR2 ADC_CR2_ADON (set_bits chip RCC_APB2ENR RCC_APB2ENR_ADC1EN s)"

definition arm_adc_start_conversion :: "arm_chip \<Rightarrow> u8 \<Rightarrow> 'a arm_scheme \<Rightarrow> 'a arm_scheme" where
  "arm_adc_start_conversion chip channel s =
     set_bits chip ADC1_CR2 ADC_CR2_SWSTART (str (arm_reg_at chip ADC1_SQR3) (ucast channel) s)"

definition arm_adc_read :: "arm_chip \<Rightarrow> u8 \<Rightarrow> 'a arm_scheme \<Rightarrow> (u16 \<times> 'a arm_scheme) option" where
  "arm_adc_read chip channel s =
     (let s1 = str (arm_reg_at chip ADC1_SQR3) (ucast channel) s;
          s2 = set_bits chip ADC1_CR2 ADC_CR2_SWSTART s1
      in map_option (\<lambda>t. apfst ucast (ld (arm_reg_at chip ADC1_DR) t)) (arm_wait chip ADC1_SR ADC_SR_EOC s2))"

definition arm_adc_conversion_done :: "arm_chip \<Rightarrow> 'a arm_scheme \<Rightarrow> bool \<times> 'a arm_scheme" where
  "arm_adc_conversion_done chip s =
     (case ld (arm_reg_at chip ADC1_SR) s of (v, t) \<Rightarrow> (v AND arm_mask chip ADC_SR_EOC \<noteq> 0, t))"

definition arm_pwm_init :: "arm_chip \<Rightarrow> u32 \<Rightarrow> 'a arm_scheme \<Rightarrow> 'a arm_scheme option" where
  "arm_pwm_init chip frequency s =
     (if frequency = 0 then None
      else let s1 = set_bits chip RCC_APB1ENR RCC_APB1ENR_TIM2EN s;
               prescaler = system_core_clock s1 div frequency div 256;
               s2 = str (arm_reg_at chip TIM2_PSC) (prescaler - 1) s1;
               s3 = str (arm_reg_at chip TIM2_ARR) 255 s2
           in Some (set_bits chip TIM2_CR1 TIM_CR1_CEN s3))"

definition arm_pwm_set_duty :: "arm_chip \<Rightarrow> u8 \<Rightarrow> u8 \<Rightarrow> 'a arm_scheme \<Rightarrow> 'a arm_scheme" where
  "arm_pwm_set_duty chip channel duty s =
     (if channel = 0 then str (arm_reg_at chip TIM2_CCR1) (ucast duty) s
      else if channel = 1 then str (arm_reg_at chip TIM2_CCR2) (ucast duty) s
      else if channel = 2 then str (arm_reg_at chip TIM2_CCR3) (ucast duty) s
      else if channel = 3 then str (arm_reg_at chip TIM2_CCR4) (ucast duty) s
      else s)"

text \<open>A shift by 32 or more is undefined.\<close>

definition arm_pwm_enable :: "arm_chip \<Rightarrow> u8 \<Rightarrow> 'a arm_scheme \<Rightarrow> 'a arm_scheme option" where
  "arm_pwm_enable chip channel s =
     (if 32 \<le> unat channel * 4 then None
      else Some (arm_modify (arm_reg_at chip TIM2_CCER) (\<lambda>v. v OR push_bit (unat channel * 4) 1) s))"

definition arm_pwm_disable :: "arm_chip \<Rightarrow> u8 \<Rightarrow> 'a arm_scheme \<Rightarrow> 'a arm_scheme option" where
  "arm_pwm_disable chip channel s =
     (if 32 \<le> unat channel * 4 then None
      else Some (arm_modify (arm_reg_at chip TIM2_CCER) (\<lambda>v. v AND NOT (push_bit (unat channel * 4) 1)) s))"

subsection \<open>Power and platform\<close>

definition arm_enter_sleep_mode ::
  "arm_chip \<Rightarrow> ('a arm_scheme \<Rightarrow> 'a arm_scheme) \<Rightarrow> u8 \<Rightarrow> 'a arm_scheme \<Rightarrow> 'a arm_scheme"
where
  "arm_enter_sleep_mode chip wake mode s = wfi wake (str (arm_reg_at chip SCB_SCR) (ucast mode) s)"

text \<open>\<open>NVIC_SystemReset\<close> does not return; the shutdown does, when the wait ends.\<close>

definition arm_reset :: "'a arm_scheme \<Rightarrow> 'a arm_scheme outcome" where
  "arm_reset s = Halted (emit System_reset s)"

definition arm_shutdown :: "arm_chip \<Rightarrow> ('a arm_scheme \<Rightarrow> 'a arm_scheme) \<Rightarrow> 'a arm_scheme \<Rightarrow> 'a arm_scheme" where
  "arm_shutdown chip wake s =
     (let s1 = s\<lparr>primask := 1\<rparr>;
          s2 = set_bits chip PWR_CR PWR_CR_PDDS s1;
          s3 = set_bits chip SCB_SCR SCB_SCR_SLEEPDEEP_Msk s2
      in wfi wake s3)"

definition arm_get_platform_info :: "u32 \<Rightarrow> 'a arm_scheme \<Rightarrow> string option" where
  "arm_get_platform_info sz s =
     (if sz = 0 then None
      else Some (take (unat sz - 1)
        (''STM32F4 ARM Cortex-M4 @ '' @ decimal (unat (system_core_clock s div 1000000)) @ '' MHz'')))"

definition arm_get_cpu_frequency :: "'a arm_scheme \<Rightarrow> u32" where
  "arm_get_cpu_frequency s = system_core_clock s"

definition arm_idle :: "('a arm_scheme \<Rightarrow> 'a arm_scheme) \<Rightarrow> 'a arm_scheme \<Rightarrow> 'a arm_scheme" where
  "arm_idle wake s = wfi wake s"

subsection \<open>Sleeping\<close>

text \<open>The tick interrupt ends a wait.\<close>

interpretation systick: ticking arm_ticks "wfi SysTick_Handler" "arm_sleep_until SysTick_Handler"
proof
  show "arm_sleep_until SysTick_Handler target s
      = (if arm_ticks s < target then arm_sleep_until SysTick_Handler target (wfi SysTick_Handler s) else Some s)"
    for target and s :: "'a arm_scheme"
    by (subst arm_sleep_until.simps) (rule refl)
  show "arm_ticks (wfi SysTick_Handler s) = arm_ticks s + 1" for s :: "'a arm_scheme"
    by (simp add: wfi_def SysTick_Handler_def emit_def)
qed

text \<open>With one tick a millisecond, a sleep of \<open>ms\<close> milliseconds is over after \<open>ms\<close> ticks.\<close>

theorem arm_sleep_counts_ticks:
  "unat (arm_ticks s) + unat ms < 2 ^ 64 \<Longrightarrow>
    arm_sleep SysTick_Handler ms s = Some ((wfi SysTick_Handler ^^ unat ms) s)"
  unfolding arm_sleep_def by (rule systick.waits)

end
