(* ===== verification/Hal_I2c.thy ===== *)
theory Hal_I2c
  imports Hal_Avr Hal_Arm
begin

text \<open>
  The two microcontroller ports of the hardware abstraction layer side by side: what
  \<open>hal_i2c_start\<close> does when no device on the bus answers.
\<close>

subsection \<open>The device under loads and stores\<close>

lemma device_ld [simp]: "device (snd (ld a s)) = device s" "fst (ld a s) = device s a (loads s a) (data_space s a)"
  by (simp_all add: ld_def)

lemma device_stores [simp]: "device (st a v s) = device s" "device (str b w t) = device t"
  by (simp_all add: st_def str_def emit_def)

lemma device_set_bits [simp]: "device (set_bits chip r b s) = device s"
  by (simp add: set_bits_def arm_modify_def split_beta)

lemma device_wait: "wait_set a bits s = Some t \<Longrightarrow> device t = device s"
  unfolding wait_set_iff by auto

text \<open>A flag that is never shown is waited for without end, one that always comes is found.\<close>

lemma wait_never:
  assumes "\<And>n v. device s a n v AND bits = 0"
  shows "wait_set a bits s = None"
proof -
  have "\<not> (\<exists>n. seen a n s AND bits \<noteq> 0)" using assms by (simp add: seen_def)
  then show ?thesis using wait_set_returns [of a bits s] by (meson not_None_eq)
qed

definition comes :: "('b \<Rightarrow> nat \<Rightarrow> u8 \<Rightarrow> u8) \<Rightarrow> 'b \<Rightarrow> u8 \<Rightarrow> bool" where
  "comes dev a bits \<longleftrightarrow> (\<forall>m v. \<exists>n. dev a (m + n) v AND bits \<noteq> 0)"

lemma wait_comes:
  assumes "comes (device s) a bits"
  obtains t where "wait_set a bits s = Some t" "device t = device s"
proof -
  have "\<exists>n. seen a n s AND bits \<noteq> 0" using assms by (simp add: seen_def comes_def)
  then obtain t where t: "wait_set a bits s = Some t" using wait_set_returns [of a bits s] by blast
  show thesis by (rule that [OF t device_wait [OF t]])
qed

lemma arm_start_hangs:
  fixes s :: "'a arm_scheme"
  assumes "\<And>n v. device s (arm_reg_at chip I2C1_SR1) n v AND arm_mask chip I2C_SR1_ADDR = 0"
  shows "arm_i2c_start chip address read s = None"
proof -
  have "arm_wait chip I2C1_SR1 I2C_SR1_ADDR (str a v t) = None" if "device t = device s" for a v and t :: "'a arm_scheme"
    unfolding arm_wait_def by (rule wait_never) (simp add: that assms)
  moreover have "device t = device s"
    if "arm_wait chip I2C1_SR1 I2C_SR1_SB (set_bits chip I2C1_CR1 I2C_CR1_START s) = Some t" for t
    using that device_wait unfolding arm_wait_def by fastforce
  ultimately show ?thesis
    by (cases "arm_wait chip I2C1_SR1 I2C_SR1_SB (set_bits chip I2C1_CR1 I2C_CR1_START s)")
      (simp_all add: arm_i2c_start_def)
qed

lemma avr_start_fails:
  assumes twint: "comes (device s) (reg_at chip TWCR) (bv chip TWINT)"
    and nack: "\<And>n v. device s (reg_at chip TWSR) n v AND 0xF8 \<noteq> (if read then 0x40 else 0x18)"
  shows "\<exists>t. avr_i2c_start chip address read s = Some (False, t)"
proof -
  let ?s0 = "st (reg_at chip TWCR) (bv chip TWINT OR bv chip TWSTA OR bv chip TWEN) s"
  have "comes (device ?s0) (reg_at chip TWCR) (bv chip TWINT)" using twint by simp
  then obtain s1 where s1: "wait_set (reg_at chip TWCR) (bv chip TWINT) ?s0 = Some s1" "device s1 = device ?s0"
    by (rule wait_comes)
  obtain status s2 where s2: "ld (reg_at chip TWSR) s1 = (status, s2)" by fastforce
  have d2: "device s2 = device s" using s2 s1(2) device_ld(1) [of "reg_at chip TWSR" s1] by simp
  show ?thesis
  proof (cases "status AND 0xF8 = 0x08")
    case False
    then show ?thesis using s1(1) s2 by (simp add: avr_i2c_start_def twi_wait_def)
  next
    case True
    let ?s4 = "st (reg_at chip TWCR) (bv chip TWINT OR bv chip TWEN)
      (st (reg_at chip TWDR) (push_bit 1 address OR (if read then 1 else 0)) s2)"
    have "comes (device ?s4) (reg_at chip TWCR) (bv chip TWINT)" using twint by (simp add: d2)
    then obtain s5 where s5: "wait_set (reg_at chip TWCR) (bv chip TWINT) ?s4 = Some s5" "device s5 = device ?s4"
      by (rule wait_comes)
    obtain reply s6 where s6: "ld (reg_at chip TWSR) s5 = (reply, s6)" by fastforce
    have "reply = device s (reg_at chip TWSR) (loads s5 (reg_at chip TWSR)) (data_space s5 (reg_at chip TWSR))"
      using s6 s5(2) d2 device_ld(2) [of "reg_at chip TWSR" s5] by simp
    then have "reply AND 0xF8 \<noteq> (if read then 0x40 else 0x18)" by (simp only: nack not_False_eq_True)
    then show ?thesis using True s1(1) s2 s5(1) s6 by (simp add: avr_i2c_start_def twi_wait_def)
  qed
qed

subsection \<open>Properties\<close>

text \<open>C31: nobody answers on the bus.  Where no status ever reports an acknowledged address, the
  AVR port's \<open>hal_i2c_start\<close> returns failure (provided the interface finishes its steps), and
  the ARM port's, which waits for the acknowledgement alone, never returns.\<close>

theorem hal_i2c_start_unanswered:
  assumes "\<And>n v. device s (arm_reg_at arm I2C1_SR1) n v AND arm_mask arm I2C_SR1_ADDR = 0"
    and "\<And>m v. \<exists>n. device t (reg_at avr TWCR) (m + n) v AND bv avr TWINT \<noteq> 0"
    and "\<And>n v. device t (reg_at avr TWSR) n v AND 0xF8 \<noteq> (if read then 0x40 else 0x18)"
  shows "arm_i2c_start arm address read s = None \<and> (\<exists>u. avr_i2c_start avr address read t = Some (False, u))"
proof
  show "arm_i2c_start arm address read s = None" by (rule arm_start_hangs [OF assms(1)])
  have "comes (device t) (reg_at avr TWCR) (bv avr TWINT)" using assms(2) by (simp add: comes_def)
  then show "\<exists>u. avr_i2c_start avr address read t = Some (False, u)" by (rule avr_start_fails [OF _ assms(3)])
qed

text \<open>A bus on which a start is possible (status 0x08) and an address finds nobody (0x20).\<close>

definition sample_arm_chip :: arm_chip where
  "sample_arm_chip = \<lparr>arm_reg_at = (\<lambda>r. if r = I2C1_SR1 then 0x40005414 else 0x40005400), gpio_offset = (\<lambda>_. 0),
     GPIOA_BASE = 0x40020000, arm_mask = (\<lambda>b. if b = I2C_SR1_ADDR then 2 else 1)\<rparr>"

definition sample_avr_chip :: avr_chip where
  "sample_avr_chip = \<lparr>reg_at = (\<lambda>r. if r = TWCR then 0xBC else if r = TWSR then 0xB9 else 0xBB),
     bit_no = (\<lambda>b. if b = TWINT then 7 else 2), F_CPU = 16000000, avr_heap_at = 0x200, SLEEP_MODE_PWR_DOWN = 4,
     SLEEP_MODE_IDLE = 0, WDTO_15MS = 0\<rparr>"

definition sample_arm :: arm where
  "sample_arm = \<lparr>data_space = (\<lambda>_. 0), device = (\<lambda>_ _ _. 1), loads = (\<lambda>_. 0), events = [], primask = 0, arm_ticks = 0,
     system_core_clock = 168000000\<rparr>"

definition sample_avr :: avr where
  "sample_avr = \<lparr>data_space = (\<lambda>_. 0),
     device = (\<lambda>a n v. if a = 0xBC then (if even n then 0 else 0x80) else if n = 0 then 0x08 else 0x20),
     loads = (\<lambda>_. 0), events = [], avr_heap_used = 0, avr_interrupt_handlers = replicate 32 None, avr_ticks = 0\<rparr>"

theorem hal_i2c_start_unanswered_witness:
  "arm_i2c_start sample_arm_chip 0x50 False sample_arm = None
   \<and> (\<exists>u. avr_i2c_start sample_avr_chip 0x50 False sample_avr = Some (False, u))"
proof (rule hal_i2c_start_unanswered)
  show "device sample_arm (arm_reg_at sample_arm_chip I2C1_SR1) n v AND arm_mask sample_arm_chip I2C_SR1_ADDR = 0" for n v
    by (simp add: sample_arm_def sample_arm_chip_def)
  show "\<exists>n. device sample_avr (reg_at sample_avr_chip TWCR) (m + n) v AND bv sample_avr_chip TWINT \<noteq> 0" for m v
    by (rule exI [of _ "if even m then 1 else 0"]) (simp add: sample_avr_def sample_avr_chip_def bv_def shl1_def)
  show "device sample_avr (reg_at sample_avr_chip TWSR) n v AND 0xF8 \<noteq> (if False then 0x40 else 0x18)" for n v
    by (simp add: sample_avr_def sample_avr_chip_def)
qed

end
