(* ===== verification/Spec2Isabelle.thy ===== *)
theory Spec2Isabelle
  imports Ipv4_Text Pmm_Init Scheduler Ipv4_Routes Ipv4_Reassembly Udp_Sockets Tcp_States Tcp_Options Console_Line Can_Rings Mac_Text E1000_Rx Kernel_Boot Hal_X86 Hal_I2c
begin

text \<open>
  REXUS, a small operating system kernel in C (x86, with hardware layers for AVR and ARM
  microcontrollers): a verification development of the whole of its C code.

  \<^bold>\<open>The program.\<close>  boot.asm is meant to enter \<open>kmain\<close> (core/kmain.c), which clears the screen, runs the C++
  constructors (core/cppcrt.cpp), fills the descriptor tables (arch/x86/gdt.c, idt.c), moves the
  interrupt controller (pic.c), then starts the physical memory manager (mem/pmm.c), the virtual
  memory manager (mem/vmm.c), the process manager (proc/process.c), the keyboard and the console
  (drivers/), and ends in a loop that reads and executes command lines.  Everything that needs
  memory - page tables, process control blocks, network packets, descriptor rings - takes 4 KiB
  blocks from pmm.c.  Interrupts go through the handler table of isr.c.  The network stack (net/)
  is a chain of function pointers: an interface in net.c, the Ethernet layer over a device, the
  e1000 driver under it, IPv4 above, UDP and TCP on top.  arch/*/hal_*.c offer the interface of
  core/hal.h on three machines; drivers/can.c drives the CAN controller of the ARM one.

  \<^bold>\<open>How the code is modelled.\<close>  A C function is a HOL function on an explicit state that returns
  its result and the next state.  State records extend one another (\<open>machine\<close>, \<open>interrupts\<close>, \<open>pmm\<close>,
  then \<open>vmm\<close>, \<open>sched\<close>, \<open>net\<close>, \<open>ipv4\<close>, \<open>udp\<close>, \<open>tcp\<close> and the drivers), and a component's functions
  are polymorphic in what is added above them, so that a caller uses the callee's definition as it
  is.  Machine integers are words of their C width, and wrap.  Memory the kernel addresses itself
  is a store of 32-bit words by physical address; structures of the network, of which the code
  holds pointers, are in stores indexed by address; byte buffers are functions from the offset.
  Function pointers, linker addresses, the registers and masks of vendor headers and the
  behaviour of devices are parameters: the n-th read of a port or register is an arbitrary answer.
  A result of type \<open>option\<close> is \<open>None\<close> where the C program has no defined behaviour (a store outside
  an object, a read behind a table, a division by zero) or does not return; each theory says which
  of these its \<open>None\<close> can be.

  \<^bold>\<open>Loops.\<close>  A counting loop is \<open>for_lt\<close> of Prelude, a function with a measure, or a fold.  A loop
  that may run forever is a \<open>partial_function (option)\<close>: the search of the scheduler, the walks over
  lists and over the multiboot map, busy waiting and sleeping.  That it returns, or does not, is a
  theorem each time (C11, C12, C17, C31, C32).  The waits of the console run over the scancodes that
  arrive and end in a value of their own: over, or still waiting (C16).  Fuel is used once: \<open>tx_loop\<close> of the CAN driver makes
  at most as many turns as its ring has slots, and \<open>tx_loop_in_order\<close> shows that it stops because the
  ring is empty or the mailbox is not.  Parsers of packets and options recurse over lengths that
  go down.

  \<^bold>\<open>Theories and sources.\<close>

  \<^item> Prelude: C integers, bit fields, counting loops.  Machine (arch/x86/io.h): word memory, the
    log of port output, port input.  Buffers: byte buffers and packed little-endian fields.
    Linked_List: singly linked lists in a store.
  \<^item> Isr (arch/x86/isr.c, isr.h, pic.c, pic.h); Descriptors (gdt.c, gdt.h, idt.c, idt.h).
  \<^item> Page_Allocator: the locales of a page allocator.  Pmm and Pmm_Init (mem/pmm.c, pmm.h): the
    bitmap, its operations and their contract; \<open>pmm_init\<close>.  Page_Memory: the allocator with
    the kernel's own stores.  Dense_Memory: memory as it is after a boot.
  \<^item> Vmm (mem/vmm.c, vmm.h): definitions, the map a directory stands for, mapping and release;
    Vmm_Build: ranges and \<open>vmm_init\<close>; Vmm_Clone: \<open>vmm_clone_directory\<close>.
  \<^item> Process (proc/process.c, process.h): definitions; Scheduler: their properties.
  \<^item> Net (net/net.c, net.h), with Net_Dispatch, Packet_Alloc and Packet_Free for the interface list
    and the life of a packet.  Checksum: the Internet checksums of ipv4.c, udp.c and tcp.c.
  \<^item> Ipv4 (net/ipv4.c, ipv4.h), with Ipv4_Routes, Ipv4_Fragment, Ipv4_Reassembly and Ipv4_Text.
    Udp (net/udp.c, udp.h), with Udp_Sockets.  Tcp (net/tcp.c, tcp.h), with Tcp_Stream,
    Tcp_States and Tcp_Options.
  \<^item> Ethernet (net/ethernet.c, ethernet.h), with Ethernet_Check for the frame check sequence and
    Mac_Text.  E1000 and E1000_Traffic (drivers/e1000.c, e1000.h): set-up and operation; E1000_Stuck,
    E1000_Up and E1000_Rx: their properties.
  \<^item> Vga and Vga_Screen (drivers/vga.c, vga.h); Fifo: the contract of a ring buffer and the arithmetic
    of rings; Keyboard (drivers/keyboard.c, keyboard.h); Console, Console_Input and Console_Line
    (drivers/console.c, console.h); Can and Can_Rings (drivers/can.c, can.h).
  \<^item> Kernel (core/kmain.c, cppcrt.cpp), Kernel_Start and Kernel_Boot: the stages of \<open>kmain\<close>, what they
    leave alone, and where they end.
  \<^item> Polling: busy waiting.  Clock: sleeping on a tick counter.  Bus: memory-mapped registers.
    Hal_X86 (arch/x86/hal_x86.c), Hal_Avr (arch/avr/hal_avr.c), Hal_Arm (arch/arm/hal_arm.c), the
    types of core/hal.h with them; Hal_I2c: the two microcontrollers side by side.

  \<^bold>\<open>Interfaces.\<close>  \<open>page_allocator\<close>, \<open>page_store\<close> and \<open>page_memory\<close> (each extends the one before) are
  what the clients of pmm.c rely on: pages nobody owns, contents left alone, stores that leave the
  allocator alone.  Pmm and Page_Memory interpret them on the bitmap allocator (\<open>pmm\<close>, \<open>pg\<close>); the
  proofs about page tables, processes and packets use these facts.  \<open>fifo\<close> is a bounded queue; it is
  interpreted on the ring of keys (\<open>kbd\<close>) and on both rings of the CAN driver (\<open>can_rx\<close>, \<open>can_tx\<close>).
  \<open>ticking\<close> is a clock one can sleep on, interpreted on the timers of x86 (\<open>pit\<close>) and ARM
  (\<open>systick\<close>).

  \<^bold>\<open>What is shown.\<close>  The properties carry the numbers C1 to C40; the main groups are:

  \<^item> Physical memory: both searches are complete first-fit searches and mark what they return (C1,
    C2); \<open>pmm_init\<close> returns, but marks every block as used, so that nothing is left (C32, C7).
  \<^item> Virtual memory: mapping, unmapping and looking up refine a partial function from page to
    frame, for this directory and no other (C3, C5, C13, C20); initialisation, cloning and release
    (C33, C8, C34, C30), that a failed clone loses the frames it copied (C34) and that releasing a
    clone takes tables away from its source (C35).
  \<^item> Processes: the scheduler is round robin (C9) and when its search does not end (C11).
  \<^item> Interrupts and time: handlers registered under the IRQ constants are never run (C10), so
    \<open>hal_sleep\<close> does not return whatever interrupts arrive, once its target is ahead (C17); on a working clock it sleeps the ticks it should
    (\<open>hal_sleep_counts_ticks\<close>, \<open>arm_sleep_counts_ticks\<close>).
  \<^item> IPv4: checksum (C36), sorted routes and lookup (C37, C38), fragments cover the payload (C14)
    and reassembly returns no packet and stores outside its arrays for offsets from 512 on (C15); addresses as text (\<open>ipv4_text_roundtrip\<close>).
  \<^item> UDP and TCP: what reaches the application (C4, C19), options (C21), and where the code departs
    from its purpose (C18, C22, C39).
  \<^item> Ethernet and e1000: memory and frames on every exit (C28), the check sequence against the
    bitwise CRC-32 (C27), addresses as text (C40), reception slot by slot (C29), and the driver's first
    packet (C12).
  \<^item> Console drivers: the screen keeps its bounds (C24), the keyboard its order (C25), the console
    its buffers (C23), but no line ever arrives: keys with a character inside the translation tables
    leave it waiting, the others make it read behind them (C16).
  \<^item> CAN: the mailbox encoding (C26), order of both rings (\<open>can_receive_in_order\<close>,
    \<open>can_transmit_in_order\<close>).
  \<^item> The whole: \<open>kmain\<close> faults at its first store to the screen under the page directory boot.asm
    leaves; under a mapping of every address to itself it reaches its main loop, and in which state (C6); I2C on two machines (C31).

  \<^bold>\<open>Not modelled.\<close>  The assembly files boot.asm, paging.asm and isr_stubs.asm, but for the page
  directory that boot.asm leaves (Kernel): what the C code relies on enters as parameters and fields
  (addresses of stubs, the loaded table registers, the saved registers).  The C code dereferences physical
  addresses; the definitions of the components follow it and assume an identity mapping, which boot.asm
  removes before it calls \<open>kmain\<close>.  Only \<open>kmain\<close> takes the mapping as an argument: it is \<open>None\<close> when the
  screen is not mapped or what follows is not described by the flat memory.  Interrupts that arrive between
  two statements of ordinary code are not interleaved: a handler is a step of its own, run by
  \<open>irq_handler\<close>, by a wait or by a turn of the main loop.  The conversions of the C library
  (\<open>sprintf\<close>, \<open>sscanf\<close>) are modelled for the formats the code uses.  Prototypes without a
  definition in the repository, the capability and configuration fields of a network device,
  which no code reads, the build files and the documentation have no counterpart here.
\<close>

end
